theory Spec2Isabelle
  imports Complex_Main "HOL-Library.Word" "HOL-Library.Log_Nat"
begin

unbundle bit_operations_syntax

section \<open>Bit-field codec (rtcm3.c: getbitu, getbits; rtcm.c: setbitu)\<close>

text \<open>
  The C functions take a pointer \<^verbatim>\<open>unsigned char *buff\<close> and no length: the buffer is the
  memory that starts at the pointer, indexed by byte offset.  Bit positions count from the
  most significant bit of byte 0.  \<^verbatim>\<open>unsigned int\<close> is a 32-bit word, \<^verbatim>\<open>int\<close> positions
  and lengths are integers (bit positions are never negative in the callers).
\<close>

type_synonym byte = "8 word"
type_synonym u32 = "32 word"
type_synonym buffer = "nat \<Rightarrow> byte"

text \<open>\<^verbatim>\<open>(buff[i/8]>>(7-i%8))&1u\<close>\<close>

definition bitsel :: "buffer \<Rightarrow> nat \<Rightarrow> u32" where
  "bitsel buff i = (ucast (drop_bit (7 - i mod 8) (buff (i div 8))) :: u32) AND 1"

text \<open>
  \<^verbatim>\<open>for (i=pos;i<pos+len;i++) bits=(bits<<1)+((buff[i/8]>>(7-i%8))&1u);\<close>
  The second argument is \<open>i\<close>, the third the number of iterations that remain.
\<close>

fun getbitu_loop :: "buffer \<Rightarrow> nat \<Rightarrow> nat \<Rightarrow> u32 \<Rightarrow> u32" where
  "getbitu_loop buff i 0 bits = bits"
| "getbitu_loop buff i (Suc n) bits =
     getbitu_loop buff (Suc i) n (push_bit 1 bits + bitsel buff i)"

definition getbitu :: "buffer \<Rightarrow> nat \<Rightarrow> int \<Rightarrow> u32" where
  "getbitu buff pos len = getbitu_loop buff pos (nat len) 0"

text \<open>
  \<^verbatim>\<open>if (len<=0||32<=len||!(bits&(1u<<(len-1)))) return (int)bits;
  return (int)(bits|(~0u<<len));\<close>
\<close>

definition getbits :: "buffer \<Rightarrow> nat \<Rightarrow> int \<Rightarrow> int" where
  "getbits buff pos len =
     (let bits = getbitu buff pos len in
      if len \<le> 0 \<or> 32 \<le> len \<or> bits AND push_bit (nat (len - 1)) 1 = 0 then sint bits
      else sint (bits OR push_bit (nat len) (NOT 0)))"

text \<open>
  \<^verbatim>\<open>if (data&mask) buff[i/8]|=1u<<(7-i%8); else buff[i/8]&=~(1u<<(7-i%8));\<close>
\<close>

definition setbit1 :: "buffer \<Rightarrow> nat \<Rightarrow> bool \<Rightarrow> buffer" where
  "setbit1 buff i b =
     (if b then buff(i div 8 := buff (i div 8) OR push_bit (7 - i mod 8) 1)
      else buff(i div 8 := buff (i div 8) AND NOT (push_bit (7 - i mod 8) 1)))"

text \<open>\<^verbatim>\<open>for (i=pos;i<pos+len;i++,mask>>=1) {...}\<close>\<close>

fun setbitu_loop :: "buffer \<Rightarrow> nat \<Rightarrow> nat \<Rightarrow> u32 \<Rightarrow> u32 \<Rightarrow> buffer" where
  "setbitu_loop buff i 0 msk data = buff"
| "setbitu_loop buff i (Suc n) msk data =
     setbitu_loop (setbit1 buff i (data AND msk \<noteq> 0)) (Suc i) n (drop_bit 1 msk) data"

text \<open>
  \<^verbatim>\<open>unsigned int mask=1u<<(len-1); if (len<=0||32<len) return;\<close>
  The mask is only used when the guard has let \<open>len\<close> through.
\<close>

definition setbitu :: "buffer \<Rightarrow> nat \<Rightarrow> int \<Rightarrow> u32 \<Rightarrow> buffer" where
  "setbitu buff pos len data =
     (if len \<le> 0 \<or> 32 < len then buff
      else setbitu_loop buff pos (nat len) (push_bit (nat (len - 1)) 1) data)"

text \<open>
  Concrete buffers are written as byte lists; bytes beyond the list are zero (the frame
  buffer of the control record is cleared memory of 1200 bytes).
\<close>

definition buffer_of :: "byte list \<Rightarrow> buffer" where
  "buffer_of bs = (\<lambda>k. if k < length bs then bs ! k else 0)"

text \<open>The bit of the buffer at bit position \<open>i\<close> (most significant bit of byte 0 first).\<close>

definition bitat :: "buffer \<Rightarrow> nat \<Rightarrow> bool" where
  "bitat buff i = bit (buff (i div 8)) (7 - i mod 8)"

section \<open>CRC-24Q (rtcm.c: tbl_CRC24Q, rtk_crc24q)\<close>

definition tbl_CRC24Q :: "u32 list" where
  "tbl_CRC24Q = [
  0x000000, 0x864CFB, 0x8AD50D, 0x0C99F6, 0x93E6E1, 0x15AA1A, 0x1933EC, 0x9F7F17,
  0xA18139, 0x27CDC2, 0x2B5434, 0xAD18CF, 0x3267D8, 0xB42B23, 0xB8B2D5, 0x3EFE2E,
  0xC54E89, 0x430272, 0x4F9B84, 0xC9D77F, 0x56A868, 0xD0E493, 0xDC7D65, 0x5A319E,
  0x64CFB0, 0xE2834B, 0xEE1ABD, 0x685646, 0xF72951, 0x7165AA, 0x7DFC5C, 0xFBB0A7,
  0x0CD1E9, 0x8A9D12, 0x8604E4, 0x00481F, 0x9F3708, 0x197BF3, 0x15E205, 0x93AEFE,
  0xAD50D0, 0x2B1C2B, 0x2785DD, 0xA1C926, 0x3EB631, 0xB8FACA, 0xB4633C, 0x322FC7,
  0xC99F60, 0x4FD39B, 0x434A6D, 0xC50696, 0x5A7981, 0xDC357A, 0xD0AC8C, 0x56E077,
  0x681E59, 0xEE52A2, 0xE2CB54, 0x6487AF, 0xFBF8B8, 0x7DB443, 0x712DB5, 0xF7614E,
  0x19A3D2, 0x9FEF29, 0x9376DF, 0x153A24, 0x8A4533, 0x0C09C8, 0x00903E, 0x86DCC5,
  0xB822EB, 0x3E6E10, 0x32F7E6, 0xB4BB1D, 0x2BC40A, 0xAD88F1, 0xA11107, 0x275DFC,
  0xDCED5B, 0x5AA1A0, 0x563856, 0xD074AD, 0x4F0BBA, 0xC94741, 0xC5DEB7, 0x43924C,
  0x7D6C62, 0xFB2099, 0xF7B96F, 0x71F594, 0xEE8A83, 0x68C678, 0x645F8E, 0xE21375,
  0x15723B, 0x933EC0, 0x9FA736, 0x19EBCD, 0x8694DA, 0x00D821, 0x0C41D7, 0x8A0D2C,
  0xB4F302, 0x32BFF9, 0x3E260F, 0xB86AF4, 0x2715E3, 0xA15918, 0xADC0EE, 0x2B8C15,
  0xD03CB2, 0x567049, 0x5AE9BF, 0xDCA544, 0x43DA53, 0xC596A8, 0xC90F5E, 0x4F43A5,
  0x71BD8B, 0xF7F170, 0xFB6886, 0x7D247D, 0xE25B6A, 0x641791, 0x688E67, 0xEEC29C,
  0x3347A4, 0xB50B5F, 0xB992A9, 0x3FDE52, 0xA0A145, 0x26EDBE, 0x2A7448, 0xAC38B3,
  0x92C69D, 0x148A66, 0x181390, 0x9E5F6B, 0x01207C, 0x876C87, 0x8BF571, 0x0DB98A,
  0xF6092D, 0x7045D6, 0x7CDC20, 0xFA90DB, 0x65EFCC, 0xE3A337, 0xEF3AC1, 0x69763A,
  0x578814, 0xD1C4EF, 0xDD5D19, 0x5B11E2, 0xC46EF5, 0x42220E, 0x4EBBF8, 0xC8F703,
  0x3F964D, 0xB9DAB6, 0xB54340, 0x330FBB, 0xAC70AC, 0x2A3C57, 0x26A5A1, 0xA0E95A,
  0x9E1774, 0x185B8F, 0x14C279, 0x928E82, 0x0DF195, 0x8BBD6E, 0x872498, 0x016863,
  0xFAD8C4, 0x7C943F, 0x700DC9, 0xF64132, 0x693E25, 0xEF72DE, 0xE3EB28, 0x65A7D3,
  0x5B59FD, 0xDD1506, 0xD18CF0, 0x57C00B, 0xC8BF1C, 0x4EF3E7, 0x426A11, 0xC426EA,
  0x2AE476, 0xACA88D, 0xA0317B, 0x267D80, 0xB90297, 0x3F4E6C, 0x33D79A, 0xB59B61,
  0x8B654F, 0x0D29B4, 0x01B042, 0x87FCB9, 0x1883AE, 0x9ECF55, 0x9256A3, 0x141A58,
  0xEFAAFF, 0x69E604, 0x657FF2, 0xE33309, 0x7C4C1E, 0xFA00E5, 0xF69913, 0x70D5E8,
  0x4E2BC6, 0xC8673D, 0xC4FECB, 0x42B230, 0xDDCD27, 0x5B81DC, 0x57182A, 0xD154D1,
  0x26359F, 0xA07964, 0xACE092, 0x2AAC69, 0xB5D37E, 0x339F85, 0x3F0673, 0xB94A88,
  0x87B4A6, 0x01F85D, 0x0D61AB, 0x8B2D50, 0x145247, 0x921EBC, 0x9E874A, 0x18CBB1,
  0xE37B16, 0x6537ED, 0x69AE1B, 0xEFE2E0, 0x709DF7, 0xF6D10C, 0xFA48FA, 0x7C0401,
  0x42FA2F, 0xC4B6D4, 0xC82F22, 0x4E63D9, 0xD11CCE, 0x575035, 0x5BC9C3, 0xDD8538]"

text \<open>
  \<^verbatim>\<open>for (i=0;i<len;i++) crc=((crc<<8)&0xFFFFFF)^tbl_CRC24Q[(crc>>16)^buff[i]];\<close>
\<close>

fun crc24q_loop :: "buffer \<Rightarrow> nat \<Rightarrow> nat \<Rightarrow> u32 \<Rightarrow> u32" where
  "crc24q_loop buff i 0 crc = crc"
| "crc24q_loop buff i (Suc n) crc =
     crc24q_loop buff (Suc i) n
       ((push_bit 8 crc AND 0xFFFFFF) XOR tbl_CRC24Q ! unat (drop_bit 16 crc XOR ucast (buff i)))"

definition rtk_crc24q :: "buffer \<Rightarrow> int \<Rightarrow> u32" where
  "rtk_crc24q buff len = crc24q_loop buff 0 (nat len) 0"

section \<open>Data model\<close>

text \<open>
  The header \<^verbatim>\<open>rtklib.h\<close> is not among the sources.  Its compile-time constants that the
  modelled functions use (PRN ranges and block sizes, the numbers of main and extended
  frequency slots, the scale factors of the ephemeris fields) are the fields of one
  record that every function using them takes as its first argument \<open>K\<close>.
\<close>

record rtklib_h =
  MINPRNGPS :: int
  MAXPRNGPS :: int
  NSATGPS :: int
  MINPRNGLO :: int
  MAXPRNGLO :: int
  NSATGLO :: int
  MINPRNGAL :: int
  MAXPRNGAL :: int
  NSATGAL :: int
  MINPRNQZS :: int
  MAXPRNQZS :: int
  NSATQZS :: int
  MINPRNCMP :: int
  MAXPRNCMP :: int
  NSATCMP :: int
  MINPRNLEO :: int
  MAXPRNLEO :: int
  NSATLEO :: int
  MINPRNSBS :: int
  MAXPRNSBS :: int
  NSATSBS :: int
  NFREQ :: int
  NEXOBS :: int
  MAXCODE :: int
  P2_5 :: real
  P2_19 :: real
  P2_29 :: real
  P2_31 :: real
  P2_33 :: real
  P2_43 :: real
  P2_55 :: real
  SC2RAD :: real

text \<open>The satellite systems that the source switches over (\<^verbatim>\<open>SYS_???\<close>).\<close>

datatype sys = SYS_NONE | SYS_GPS | SYS_SBS | SYS_GLO | SYS_GAL | SYS_QZS | SYS_CMP | SYS_LEO

text \<open>
  Structs are records; a field \<^verbatim>\<open>x\<close> of struct \<^verbatim>\<open>s_t\<close> is named \<open>s_x\<close>.  C arrays
  are functions from the index.  \<^verbatim>\<open>double\<close> values are real numbers (the arithmetic of the model
  is exact), \<^verbatim>\<open>int\<close> values are integers: every integer the modelled code computes is
  bounded by the widths of the bit fields it is read from.
\<close>

record gtime_t =
  gtime_time :: int
  gtime_sec :: real

record eph_t =
  eph_sat :: int
  eph_iode :: int
  eph_iodc :: int
  eph_sva :: int
  eph_svh :: int
  eph_week :: int
  eph_code :: int
  eph_flag :: int
  eph_toe :: gtime_t
  eph_toc :: gtime_t
  eph_ttr :: gtime_t
  eph_A :: real
  eph_e :: real
  eph_i0 :: real
  eph_OMG0 :: real
  eph_omg :: real
  eph_M0 :: real
  eph_deln :: real
  eph_OMGd :: real
  eph_idot :: real
  eph_crc :: real
  eph_crs :: real
  eph_cuc :: real
  eph_cus :: real
  eph_cic :: real
  eph_cis :: real
  eph_toes :: real
  eph_fit :: real
  eph_f0 :: real
  eph_f1 :: real
  eph_f2 :: real
  eph_tgd :: "nat \<Rightarrow> real"

record sta_t =
  sta_deltype :: int
  sta_pos :: "nat \<Rightarrow> real"
  sta_del :: "nat \<Rightarrow> real"
  sta_hgt :: real
  sta_itrf :: int

record obsd_t =
  obsd_time :: gtime_t
  obsd_sat :: int
  obsd_SNR :: "nat \<Rightarrow> int"
  obsd_LLI :: "nat \<Rightarrow> int"
  obsd_code :: "nat \<Rightarrow> int"
  obsd_L :: "nat \<Rightarrow> real"
  obsd_P :: "nat \<Rightarrow> real"
  obsd_D :: "nat \<Rightarrow> real"

record ssr_t =
  ssr_t0 :: "nat \<Rightarrow> gtime_t"
  ssr_udi :: "nat \<Rightarrow> real"
  ssr_iod :: "nat \<Rightarrow> int"
  ssr_cbias :: "nat \<Rightarrow> real"
  ssr_update :: int

text \<open>
  The control record \<^verbatim>\<open>rtcm_t\<close>, with the fields the modelled functions read or write:
  \<^verbatim>\<open>obs.n\<close> and \<^verbatim>\<open>obs.data\<close>, \<^verbatim>\<open>nav.eph\<close>, and the rest under their own names.  The
  diagnostic text that the decoders print into \<^verbatim>\<open>msgtype\<close> when \<^verbatim>\<open>outtype\<close> is set, and the
  calls of \<^verbatim>\<open>trace\<close> (an empty function in this source), are left out.
\<close>

record rtcm_t =
  rtcm_staid :: int
  rtcm_time :: gtime_t
  rtcm_obs_n :: int
  rtcm_obs_data :: "nat \<Rightarrow> obsd_t"
  rtcm_nav_eph :: "nat \<Rightarrow> eph_t"
  rtcm_sta :: sta_t
  rtcm_ssr :: "nat \<Rightarrow> ssr_t"
  rtcm_obsflag :: int
  rtcm_ephsat :: int
  rtcm_nbyte :: int
  rtcm_len :: int
  rtcm_buff :: buffer
  rtcm_opt :: string

section \<open>C arithmetic\<close>

text \<open>\<^verbatim>\<open>(int)x\<close> for a double \<open>x\<close>: truncation towards zero.\<close>

definition cint :: "real \<Rightarrow> int" where
  "cint x = (if 0 \<le> x then \<lfloor>x\<rfloor> else \<lceil>x\<rceil>)"

text \<open>Integer division of C: truncation towards zero.\<close>

definition cdiv :: "int \<Rightarrow> int \<Rightarrow> int" where
  "cdiv a b = sgn a * sgn b * (\<bar>a\<bar> div \<bar>b\<bar>)"

text \<open>\<^verbatim>\<open>fmod(x,y)\<close>: the remainder of the division truncated towards zero.\<close>

definition cfmod :: "real \<Rightarrow> real \<Rightarrow> real" where
  "cfmod x y = x - of_int (cint (x / y)) * y"

section \<open>GNSS time utilities (rtcm3.c)\<close>

definition gpst0 :: "real list" where
  "gpst0 = [1980, 1, 6, 0, 0, 0]"

definition leaps :: "real list list" where
  "leaps = [
    [2017,1,1,0,0,0,-18],
    [2015,7,1,0,0,0,-17],
    [2012,7,1,0,0,0,-16],
    [2009,1,1,0,0,0,-15],
    [2006,1,1,0,0,0,-14],
    [1999,1,1,0,0,0,-13],
    [1997,7,1,0,0,0,-12],
    [1996,1,1,0,0,0,-11],
    [1994,7,1,0,0,0,-10],
    [1993,7,1,0,0,0, -9],
    [1992,7,1,0,0,0, -8],
    [1991,1,1,0,0,0, -7],
    [1990,1,1,0,0,0, -6],
    [1988,1,1,0,0,0, -5],
    [1985,7,1,0,0,0, -4],
    [1983,7,1,0,0,0, -3],
    [1982,7,1,0,0,0, -2],
    [1981,7,1,0,0,0, -1],
    [0,0,0,0,0,0,0]]"

definition doy :: "int list" where
  "doy = [1,32,60,91,121,152,182,213,244,274,305,335]"

text \<open>
  \<^verbatim>\<open>epoch2time\<close>.  Past the guard \<open>year\<close> is at least 1970 and \<open>mon\<close> is within 1..12, so
  the integer division and remainder have non-negative operands and the index of \<open>doy\<close>
  is in range.
\<close>

definition epoch2time :: "real list \<Rightarrow> gtime_t" where
  "epoch2time ep =
     (let year = cint (ep ! 0); mon = cint (ep ! 1); day = cint (ep ! 2) in
      if year < 1970 \<or> 2099 < year \<or> mon < 1 \<or> 12 < mon
      then \<lparr>gtime_time = 0, gtime_sec = 0\<rparr>
      else
        let days = (year - 1970) * 365 + (year - 1969) div 4 + doy ! nat (mon - 1) + day - 2
                   + (if year mod 4 = 0 \<and> 3 \<le> mon then 1 else 0);
            sec = \<lfloor>ep ! 5\<rfloor>
        in \<lparr>gtime_time = days * 86400 + cint (ep ! 3) * 3600 + cint (ep ! 4) * 60 + sec,
            gtime_sec = ep ! 5 - of_int sec\<rparr>)"

definition timediff :: "gtime_t \<Rightarrow> gtime_t \<Rightarrow> real" where
  "timediff t1 t2 = of_int (gtime_time t1 - gtime_time t2) + gtime_sec t1 - gtime_sec t2"

text \<open>\<^verbatim>\<open>t.sec+=sec; tt=floor(t.sec); t.time+=(int)tt; t.sec-=tt;\<close>\<close>

definition timeadd :: "gtime_t \<Rightarrow> real \<Rightarrow> gtime_t" where
  "timeadd t sec =
     (let s = gtime_sec t + sec; tt = \<lfloor>s\<rfloor>
      in \<lparr>gtime_time = gtime_time t + tt, gtime_sec = s - of_int tt\<rparr>)"

text \<open>
  \<^verbatim>\<open>for (i=0;leaps[i][0]>0;i++) if (timediff(t,epoch2time(leaps[i]))>=0.0)
  return timeadd(t,-leaps[i][6]);\<close>  The loop ends at the row of zeros that closes the table.
\<close>

fun utc2gpst_loop :: "real list list \<Rightarrow> gtime_t \<Rightarrow> gtime_t" where
  "utc2gpst_loop [] t = t"
| "utc2gpst_loop (l # ls) t =
     (if 0 < l ! 0
      then (if 0 \<le> timediff t (epoch2time l) then timeadd t (- (l ! 6))
            else utc2gpst_loop ls t)
      else t)"

definition utc2gpst :: "gtime_t \<Rightarrow> gtime_t" where
  "utc2gpst t = utc2gpst_loop leaps t"

fun gpst2utc_loop :: "real list list \<Rightarrow> gtime_t \<Rightarrow> gtime_t" where
  "gpst2utc_loop [] t = t"
| "gpst2utc_loop (l # ls) t =
     (if 0 < l ! 0
      then (let tu = timeadd t (l ! 6) in
            if 0 \<le> timediff tu (epoch2time l) then tu else gpst2utc_loop ls t)
      else t)"

definition gpst2utc :: "gtime_t \<Rightarrow> gtime_t" where
  "gpst2utc t = gpst2utc_loop leaps t"

text \<open>\<^verbatim>\<open>time2gpst\<close> returns the time of week and stores the week: here the pair (week, tow).\<close>

definition time2gpst :: "gtime_t \<Rightarrow> int \<times> real" where
  "time2gpst t =
     (let t0 = epoch2time gpst0;
          sec = gtime_time t - gtime_time t0;
          w = cdiv sec (86400 * 7)
      in (w, of_int (sec - w * 86400 * 7) + gtime_sec t))"

definition gpst2time :: "int \<Rightarrow> real \<Rightarrow> gtime_t" where
  "gpst2time week sec =
     (let t = epoch2time gpst0;
          sec' = (if sec < - 1000000000 \<or> 1000000000 < sec then 0 else sec)
      in \<lparr>gtime_time = gtime_time t + 86400 * 7 * week + cint sec',
          gtime_sec = sec' - of_int (cint sec')\<rparr>)"


text \<open>\<^verbatim>\<open>adjweek\<close>: adjust weekly rollover of gps time.\<close>

definition adjweek :: "gtime_t \<Rightarrow> rtcm_t \<Rightarrow> real \<Rightarrow> rtcm_t" where
  "adjweek now rtcm tow =
     (let r1 = (if gtime_time (rtcm_time rtcm) = 0 then rtcm\<lparr>rtcm_time := utc2gpst now\<rparr>
                else rtcm);
          (week, tow_p) = time2gpst (rtcm_time r1);
          tow' = (if tow < tow_p - 302400 then tow + 604800
                  else if tow > tow_p + 302400 then tow - 604800 else tow)
      in r1\<lparr>rtcm_time := gpst2time week tow'\<rparr>)"

text \<open>\<^verbatim>\<open>adjday_glot\<close>: adjust daily rollover of glonass time.\<close>

definition adjday_glot :: "gtime_t \<Rightarrow> rtcm_t \<Rightarrow> real \<Rightarrow> rtcm_t" where
  "adjday_glot now rtcm tod =
     (let r1 = (if gtime_time (rtcm_time rtcm) = 0 then rtcm\<lparr>rtcm_time := utc2gpst now\<rparr>
                else rtcm);
          time = timeadd (gpst2utc (rtcm_time r1)) 10800;
          (week, tow0) = time2gpst time;
          tod_p = cfmod tow0 86400;
          tow = tow0 - tod_p;
          tod' = (if tod < tod_p - 43200 then tod + 86400
                  else if tod > tod_p + 43200 then tod - 86400 else tod);
          time' = gpst2time week (tow + tod')
      in r1\<lparr>rtcm_time := utc2gpst (timeadd time' (- 10800))\<rparr>)"

section \<open>Satellite registry (rtcm3.c: satno)\<close>

definition satno :: "rtklib_h \<Rightarrow> sys \<Rightarrow> int \<Rightarrow> int" where
  "satno K sys prn =
     (if prn \<le> 0 then 0
      else case sys of
        SYS_GPS \<Rightarrow>
          if prn < MINPRNGPS K \<or> MAXPRNGPS K < prn then 0
          else prn - MINPRNGPS K + 1
      | SYS_GLO \<Rightarrow>
          if prn < MINPRNGLO K \<or> MAXPRNGLO K < prn then 0
          else NSATGPS K + prn - MINPRNGLO K + 1
      | SYS_GAL \<Rightarrow>
          if prn < MINPRNGAL K \<or> MAXPRNGAL K < prn then 0
          else NSATGPS K + NSATGLO K + prn - MINPRNGAL K + 1
      | SYS_QZS \<Rightarrow>
          if prn < MINPRNQZS K \<or> MAXPRNQZS K < prn then 0
          else NSATGPS K + NSATGLO K + NSATGAL K + prn - MINPRNQZS K + 1
      | SYS_CMP \<Rightarrow>
          if prn < MINPRNCMP K \<or> MAXPRNCMP K < prn then 0
          else NSATGPS K + NSATGLO K + NSATGAL K + NSATQZS K + prn - MINPRNCMP K + 1
      | SYS_LEO \<Rightarrow>
          if prn < MINPRNLEO K \<or> MAXPRNLEO K < prn then 0
          else NSATGPS K + NSATGLO K + NSATGAL K + NSATQZS K + NSATCMP K
               + prn - MINPRNLEO K + 1
      | SYS_SBS \<Rightarrow>
          if prn < MINPRNSBS K \<or> MAXPRNSBS K < prn then 0
          else NSATGPS K + NSATGLO K + NSATGAL K + NSATQZS K + NSATCMP K + NSATLEO K
               + prn - MINPRNSBS K + 1
      | SYS_NONE \<Rightarrow> 0)"

section \<open>The C string functions that read the options\<close>

text \<open>
  C strings are character lists without the terminating zero.  \<^verbatim>\<open>strstr(s,t)\<close> is the
  suffix of \<open>s\<close> that starts at the first occurrence of \<open>t\<close>, \<^verbatim>\<open>strchr(s,c)\<close> the
  suffix that starts at the first \<open>c\<close>; \<open>None\<close> is the null pointer.
\<close>

fun strstr :: "string \<Rightarrow> string \<Rightarrow> string option" where
  "strstr [] t = (if t = [] then Some [] else None)"
| "strstr (c # s) t = (if take (length t) (c # s) = t then Some (c # s) else strstr s t)"

fun strchr :: "string \<Rightarrow> char \<Rightarrow> string option" where
  "strchr [] c = None"
| "strchr (d # s) c = (if d = c then Some (d # s) else strchr s c)"

definition isspace :: "char \<Rightarrow> bool" where
  "isspace c \<longleftrightarrow> c = CHR '' '' \<or> (9 \<le> (of_char c :: nat) \<and> (of_char c :: nat) \<le> 13)"

definition isdigit :: "char \<Rightarrow> bool" where
  "isdigit c \<longleftrightarrow> 48 \<le> (of_char c :: nat) \<and> (of_char c :: nat) \<le> 57"

fun digits_val :: "string \<Rightarrow> int \<Rightarrow> int" where
  "digits_val [] acc = acc"
| "digits_val (c # s) acc = digits_val s (acc * 10 + (of_char c - 48))"

text \<open>
  \<^verbatim>\<open>strtol\<close> on a platform with a 64-bit \<^verbatim>\<open>long\<close>: a value beyond the range of \<^verbatim>\<open>long\<close> is
  replaced by the nearest end of the range.
\<close>

definition strtol_sat :: "int \<Rightarrow> int" where
  "strtol_sat v = max (- (2 ^ 63)) (min (2 ^ 63 - 1) v)"

text \<open>The conversion of a \<^verbatim>\<open>long\<close> to the 32-bit \<^verbatim>\<open>int\<close>: the low 32 bits, read as signed.\<close>

definition int_of_long :: "int \<Rightarrow> int" where
  "int_of_long v = sint (word_of_int v :: 32 word)"

text \<open>
  The conversion \<^verbatim>\<open>%d\<close> of \<^verbatim>\<open>sscanf\<close>: white space is skipped, then an optional sign and
  decimal digits are read; without a digit nothing is converted (\<open>None\<close>).  The number is
  stored in an \<^verbatim>\<open>int\<close>.  For a number outside the range of \<^verbatim>\<open>int\<close> C does not define the
  result; the model takes what the GNU C library does on a platform with a 64-bit
  \<^verbatim>\<open>long\<close>: the digits are converted by \<^verbatim>\<open>strtol\<close> and the \<^verbatim>\<open>long\<close> is converted to \<^verbatim>\<open>int\<close>.
  A number within the range of \<^verbatim>\<open>int\<close> is stored as it is.
\<close>

definition scan_d :: "string \<Rightarrow> int option" where
  "scan_d s =
     (let s1 = dropWhile isspace s;
          neg = (s1 \<noteq> [] \<and> hd s1 = CHR ''-'');
          s2 = (if s1 \<noteq> [] \<and> (hd s1 = CHR ''-'' \<or> hd s1 = CHR ''+'') then tl s1 else s1);
          ds = takeWhile isdigit s2
      in if ds = [] then None
         else Some (int_of_long (strtol_sat ((if neg then - 1 else 1) * digits_val ds 0))))"

text \<open>
  The conversion \<^verbatim>\<open>%2s\<close> of \<^verbatim>\<open>sscanf\<close>: white space is skipped, then at most two
  characters that are not white space are read; without one nothing is converted.
\<close>

definition scan_2s :: "string \<Rightarrow> string option" where
  "scan_2s s =
     (let w = take 2 (takeWhile (\<lambda>c. \<not> isspace c) (dropWhile isspace s))
      in if w = [] then None else Some w)"

section \<open>Stream framer (rtcm.c: input_rtcm3)\<close>

text \<open>
  The dispatcher \<^verbatim>\<open>decode_rtcm3\<close> that the framer calls on a frame with a good parity is the
  argument \<open>dec\<close>; it returns the status and the control record it leaves.
\<close>

definition RTCM3PREAMB :: byte where
  "RTCM3PREAMB = 0xD3"

definition input_rtcm3 :: "(rtcm_t \<Rightarrow> int \<times> rtcm_t) \<Rightarrow> rtcm_t \<Rightarrow> byte \<Rightarrow> int \<times> rtcm_t" where
  "input_rtcm3 dec rtcm data =
     (if rtcm_nbyte rtcm = 0 then
        (if data \<noteq> RTCM3PREAMB then (0, rtcm)
         else (0, rtcm\<lparr>rtcm_buff := (rtcm_buff rtcm)(nat (rtcm_nbyte rtcm) := data),
                       rtcm_nbyte := rtcm_nbyte rtcm + 1\<rparr>))
      else
        let r1 = rtcm\<lparr>rtcm_buff := (rtcm_buff rtcm)(nat (rtcm_nbyte rtcm) := data),
                      rtcm_nbyte := rtcm_nbyte rtcm + 1\<rparr>;
            r2 = (if rtcm_nbyte r1 = 3
                  then r1\<lparr>rtcm_len := uint (getbitu (rtcm_buff r1) 14 10) + 3\<rparr>
                  else r1)
        in if rtcm_nbyte r2 < 3 \<or> rtcm_nbyte r2 < rtcm_len r2 + 3 then (0, r2)
           else
             let r3 = r2\<lparr>rtcm_nbyte := 0\<rparr> in
             if rtk_crc24q (rtcm_buff r3) (rtcm_len r3)
                \<noteq> getbitu (rtcm_buff r3) (nat (rtcm_len r3 * 8)) 24
             then (0, r3)
             else dec r3)"

section \<open>Station id test and the station decoders (rtcm3.c)\<close>

text \<open>
  \<^verbatim>\<open>test_staid\<close> returns 0 or 1 and may change \<^verbatim>\<open>rtcm->staid\<close>.  The call
  \<^verbatim>\<open>sscanf(p,"-STA=%d",&id)\<close> is made where \<open>p\<close> starts with \<^verbatim>\<open>-STA=\<close>, so the literal part
  of the format matches and the number is scanned behind these five characters.
\<close>

definition test_staid :: "rtcm_t \<Rightarrow> int \<Rightarrow> int \<times> rtcm_t" where
  "test_staid rtcm staid =
     (let rejected_by_option =
            (case strstr (rtcm_opt rtcm) ''-STA='' of
               None \<Rightarrow> False
             | Some p \<Rightarrow>
                 (case scan_d (drop 5 p) of
                    None \<Rightarrow> False
                  | Some id' \<Rightarrow> staid \<noteq> id'))
      in if rejected_by_option then (0, rtcm)
         else if rtcm_staid rtcm = 0 \<or> rtcm_obsflag rtcm \<noteq> 0
              then (1, rtcm\<lparr>rtcm_staid := staid\<rparr>)
         else if staid \<noteq> rtcm_staid rtcm
              then (0, rtcm\<lparr>rtcm_staid := 0\<rparr>)
         else (1, rtcm))"

text \<open>\<^verbatim>\<open>(double)getbits(buff,pos,32)*64.0+getbitu(buff,pos+32,6)\<close>\<close>

definition getbits_38 :: "buffer \<Rightarrow> nat \<Rightarrow> real" where
  "getbits_38 buff pos =
     of_int (getbits buff pos 32) * 64 + of_int (uint (getbitu buff (pos + 32) 6))"

text \<open>
  In the decoders the running bit position \<^verbatim>\<open>i\<close> of the source is a chain of bindings
  \<open>i0\<close>, \<open>i1\<close>, \<dots>, one for each \<^verbatim>\<open>i+=\<close>.
\<close>

definition decode_type1005 :: "rtcm_t \<Rightarrow> int \<times> rtcm_t" where
  "decode_type1005 rtcm =
     (let buff = rtcm_buff rtcm; i0 = 24 + 12 in
      if int i0 + 140 = rtcm_len rtcm * 8 then
        let staid = uint (getbitu buff i0 12); i1 = i0 + 12;
            itrf = uint (getbitu buff i1 6); i2 = i1 + (6 + 4);
            rr0 = getbits_38 buff i2; i3 = i2 + (38 + 2);
            rr1 = getbits_38 buff i3; i4 = i3 + (38 + 2);
            rr2 = getbits_38 buff i4;
            (ok, r1) = test_staid rtcm staid
        in if ok = 0 then (- 1, r1)
           else (5, r1\<lparr>rtcm_sta := (rtcm_sta r1)\<lparr>
                  sta_deltype := 0,
                  sta_pos := (sta_pos (rtcm_sta r1))
                     (0 := rr0 * 0.0001, 1 := rr1 * 0.0001, 2 := rr2 * 0.0001),
                  sta_del := (sta_del (rtcm_sta r1))(0 := 0, 1 := 0, 2 := 0),
                  sta_hgt := 0,
                  sta_itrf := itrf\<rparr>\<rparr>)
      else (- 1, rtcm))"

definition decode_type1006 :: "rtcm_t \<Rightarrow> int \<times> rtcm_t" where
  "decode_type1006 rtcm =
     (let buff = rtcm_buff rtcm; i0 = 24 + 12 in
      if int i0 + 156 \<le> rtcm_len rtcm * 8 then
        let staid = uint (getbitu buff i0 12); i1 = i0 + 12;
            itrf = uint (getbitu buff i1 6); i2 = i1 + (6 + 4);
            rr0 = getbits_38 buff i2; i3 = i2 + (38 + 2);
            rr1 = getbits_38 buff i3; i4 = i3 + (38 + 2);
            rr2 = getbits_38 buff i4; i5 = i4 + 38;
            anth = of_int (uint (getbitu buff i5 16));
            (ok, r1) = test_staid rtcm staid
        in if ok = 0 then (- 1, r1)
           else (5, r1\<lparr>rtcm_sta := (rtcm_sta r1)\<lparr>
                  sta_deltype := 1,
                  sta_pos := (sta_pos (rtcm_sta r1))
                     (0 := rr0 * 0.0001, 1 := rr1 * 0.0001, 2 := rr2 * 0.0001),
                  sta_del := (sta_del (rtcm_sta r1))(0 := 0, 1 := 0, 2 := 0),
                  sta_hgt := anth * 0.0001,
                  sta_itrf := itrf\<rparr>\<rparr>)
      else (- 1, rtcm))"

text \<open>
  \<^verbatim>\<open>decode_head1001\<close> returns the number of satellites or -1 and sets \<^verbatim>\<open>*sync\<close>: here the
  triple of the return value, \<open>sync\<close> and the control record.  Where the source returns
  before it has set \<^verbatim>\<open>*sync\<close> the second component is 0; the callers do not read it then.
\<close>

definition decode_head1001 :: "gtime_t \<Rightarrow> rtcm_t \<Rightarrow> int \<times> int \<times> rtcm_t" where
  "decode_head1001 now rtcm =
     (let buff = rtcm_buff rtcm; i0 = 24; i1 = i0 + 12 in
      if int i1 + 52 \<le> rtcm_len rtcm * 8 then
        let staid = uint (getbitu buff i1 12); i2 = i1 + 12;
            tow = of_int (uint (getbitu buff i2 30)) * 0.001; i3 = i2 + 30;
            sync = uint (getbitu buff i3 1); i4 = i3 + 1;
            nsat = uint (getbitu buff i4 5);
            (ok, r1) = test_staid rtcm staid
        in if ok = 0 then (- 1, sync, r1)
           else (nsat, sync, adjweek now r1 tow)
      else (- 1, 0, rtcm))"

text \<open>\<^verbatim>\<open>rtcm->obsflag=!sync; return sync?0:1;\<close>\<close>

definition decode_type1001 :: "gtime_t \<Rightarrow> rtcm_t \<Rightarrow> int \<times> rtcm_t" where
  "decode_type1001 now rtcm =
     (let (nsat, sync, r1) = decode_head1001 now rtcm in
      if nsat < 0 then (- 1, r1)
      else (if sync \<noteq> 0 then 0 else 1,
            r1\<lparr>rtcm_obsflag := (if sync = 0 then 1 else 0)\<rparr>))"

section \<open>The other decoders that test the station id (rtcm3.c)\<close>

text \<open>
  \<^verbatim>\<open>decode_type1002\<close> and \<^verbatim>\<open>decode_type1004\<close> decode the header and then run a loop over the
  satellites of the message that stores their observations.  The loop, which runs only
  when the header has been accepted, is the argument \<open>obs\<close>: it gets the number of
  satellites and the control record and returns the control record with the observations
  stored.  \<^verbatim>\<open>decode_type1003\<close> has the body of \<^verbatim>\<open>decode_type1001\<close>.
\<close>

definition decode_type1002 ::
    "(int \<Rightarrow> rtcm_t \<Rightarrow> rtcm_t) \<Rightarrow> gtime_t \<Rightarrow> rtcm_t \<Rightarrow> int \<times> rtcm_t" where
  "decode_type1002 obs now rtcm =
     (let (nsat, sync, r1) = decode_head1001 now rtcm in
      if nsat < 0 then (- 1, r1)
      else (if sync \<noteq> 0 then 0 else 1, obs nsat r1))"

definition decode_type1003 :: "gtime_t \<Rightarrow> rtcm_t \<Rightarrow> int \<times> rtcm_t" where
  "decode_type1003 now rtcm =
     (let (nsat, sync, r1) = decode_head1001 now rtcm in
      if nsat < 0 then (- 1, r1)
      else (if sync \<noteq> 0 then 0 else 1,
            r1\<lparr>rtcm_obsflag := (if sync = 0 then 1 else 0)\<rparr>))"

definition decode_type1004 ::
    "(int \<Rightarrow> rtcm_t \<Rightarrow> rtcm_t) \<Rightarrow> gtime_t \<Rightarrow> rtcm_t \<Rightarrow> int \<times> rtcm_t" where
  "decode_type1004 obs now rtcm =
     (let (nsat, sync, r1) = decode_head1001 now rtcm in
      if nsat < 0 then (- 1, r1)
      else (if sync \<noteq> 0 then 0 else 1,
            (obs nsat r1)\<lparr>rtcm_obsflag := (if sync = 0 then 1 else 0)\<rparr>))"

text \<open>
  The decoders of the antenna and receiver descriptors (types 1007, 1008 and 1033) test
  the length of the frame against the lengths of the strings it announces, read the
  station id and the strings, test the station id and then copy the strings into
  \<^verbatim>\<open>rtcm->sta\<close>.  The copy, which runs only when the station id has passed its test, is the
  argument \<open>ant\<close>: it gets the control record that the test leaves (the frame is in its
  buffer) and returns the control record with the strings stored.
\<close>

definition decode_type1007 :: "(rtcm_t \<Rightarrow> rtcm_t) \<Rightarrow> rtcm_t \<Rightarrow> int \<times> rtcm_t" where
  "decode_type1007 ant rtcm =
     (let buff = rtcm_buff rtcm; i0 = 24 + 12;
          n = uint (getbitu buff (i0 + 12) 8)
      in if int i0 + 28 + 8 * n \<le> rtcm_len rtcm * 8 then
           let staid = uint (getbitu buff i0 12);
               (ok, r1) = test_staid rtcm staid
           in if ok = 0 then (- 1, r1) else (5, ant r1)
         else (- 1, rtcm))"

definition decode_type1008 :: "(rtcm_t \<Rightarrow> rtcm_t) \<Rightarrow> rtcm_t \<Rightarrow> int \<times> rtcm_t" where
  "decode_type1008 ant rtcm =
     (let buff = rtcm_buff rtcm; i0 = 24 + 12;
          n = uint (getbitu buff (i0 + 12) 8);
          m = uint (getbitu buff (nat (int i0 + 28 + 8 * n)) 8)
      in if int i0 + 36 + 8 * (n + m) \<le> rtcm_len rtcm * 8 then
           let staid = uint (getbitu buff i0 12);
               (ok, r1) = test_staid rtcm staid
           in if ok = 0 then (- 1, r1) else (5, ant r1)
         else (- 1, rtcm))"

definition decode_type1033 :: "(rtcm_t \<Rightarrow> rtcm_t) \<Rightarrow> rtcm_t \<Rightarrow> int \<times> rtcm_t" where
  "decode_type1033 ant rtcm =
     (let buff = rtcm_buff rtcm; i0 = 24 + 12;
          n = uint (getbitu buff (i0 + 12) 8);
          m = uint (getbitu buff (nat (int i0 + 28 + 8 * n)) 8);
          n1 = uint (getbitu buff (nat (int i0 + 36 + 8 * (n + m))) 8);
          n2 = uint (getbitu buff (nat (int i0 + 44 + 8 * (n + m + n1))) 8);
          n3 = uint (getbitu buff (nat (int i0 + 52 + 8 * (n + m + n1 + n2))) 8)
      in if int i0 + 60 + 8 * (n + m + n1 + n2 + n3) \<le> rtcm_len rtcm * 8 then
           let staid = uint (getbitu buff i0 12);
               (ok, r1) = test_staid rtcm staid
           in if ok = 0 then (- 1, r1) else (5, ant r1)
         else (- 1, rtcm))"

text \<open>
  \<^verbatim>\<open>decode_head1009\<close>, the header of the GLONASS observation messages, returns like
  \<^verbatim>\<open>decode_head1001\<close> the number of satellites or -1, \<open>sync\<close> and the control record.
\<close>

definition decode_head1009 :: "gtime_t \<Rightarrow> rtcm_t \<Rightarrow> int \<times> int \<times> rtcm_t" where
  "decode_head1009 now rtcm =
     (let buff = rtcm_buff rtcm; i0 = 24; i1 = i0 + 12 in
      if int i1 + 49 \<le> rtcm_len rtcm * 8 then
        let staid = uint (getbitu buff i1 12); i2 = i1 + 12;
            tod = of_int (uint (getbitu buff i2 27)) * 0.001; i3 = i2 + 27;
            sync = uint (getbitu buff i3 1); i4 = i3 + 1;
            nsat = uint (getbitu buff i4 5);
            (ok, r1) = test_staid rtcm staid
        in if ok = 0 then (- 1, sync, r1)
           else (nsat, sync, adjday_glot now r1 tod)
      else (- 1, 0, rtcm))"

definition decode_type1009 :: "gtime_t \<Rightarrow> rtcm_t \<Rightarrow> int \<times> rtcm_t" where
  "decode_type1009 now rtcm =
     (let (nsat, sync, r1) = decode_head1009 now rtcm in
      if nsat < 0 then (- 1, r1)
      else (if sync \<noteq> 0 then 0 else 1,
            r1\<lparr>rtcm_obsflag := (if sync = 0 then 1 else 0)\<rparr>))"

definition decode_type1010 ::
    "(int \<Rightarrow> rtcm_t \<Rightarrow> rtcm_t) \<Rightarrow> gtime_t \<Rightarrow> rtcm_t \<Rightarrow> int \<times> rtcm_t" where
  "decode_type1010 obs now rtcm =
     (let (nsat, sync, r1) = decode_head1009 now rtcm in
      if nsat < 0 then (- 1, r1)
      else (if sync \<noteq> 0 then 0 else 1, obs nsat r1))"

definition decode_type1011 :: "gtime_t \<Rightarrow> rtcm_t \<Rightarrow> int \<times> rtcm_t" where
  "decode_type1011 now rtcm =
     (let (nsat, sync, r1) = decode_head1009 now rtcm in
      if nsat < 0 then (- 1, r1)
      else (if sync \<noteq> 0 then 0 else 1,
            r1\<lparr>rtcm_obsflag := (if sync = 0 then 1 else 0)\<rparr>))"

definition decode_type1012 ::
    "(int \<Rightarrow> rtcm_t \<Rightarrow> rtcm_t) \<Rightarrow> gtime_t \<Rightarrow> rtcm_t \<Rightarrow> int \<times> rtcm_t" where
  "decode_type1012 obs now rtcm =
     (let (nsat, sync, r1) = decode_head1009 now rtcm in
      if nsat < 0 then (- 1, r1)
      else (if sync \<noteq> 0 then 0 else 1,
            (obs nsat r1)\<lparr>rtcm_obsflag := (if sync = 0 then 1 else 0)\<rparr>))"

text \<open>
  The number of bits that a frame of the types 1007, 1008 and 1033 has by the string
  lengths it announces: the left side of the length test of its decoder.
\<close>

definition bits_type1007 :: "buffer \<Rightarrow> int" where
  "bits_type1007 buff = 64 + 8 * uint (getbitu buff 48 8)"

definition bits_type1008 :: "buffer \<Rightarrow> int" where
  "bits_type1008 buff =
     (let n = uint (getbitu buff 48 8);
          m = uint (getbitu buff (nat (64 + 8 * n)) 8)
      in 72 + 8 * (n + m))"

definition bits_type1033 :: "buffer \<Rightarrow> int" where
  "bits_type1033 buff =
     (let n = uint (getbitu buff 48 8);
          m = uint (getbitu buff (nat (64 + 8 * n)) 8);
          n1 = uint (getbitu buff (nat (72 + 8 * (n + m))) 8);
          n2 = uint (getbitu buff (nat (80 + 8 * (n + m + n1))) 8);
          n3 = uint (getbitu buff (nat (88 + 8 * (n + m + n1 + n2))) 8)
      in 96 + 8 * (n + m + n1 + n2 + n3))"

section \<open>MSM header (rtcm3.c: decode_msm_head, decode_msm0, decode_msm4 to decode_msm7)\<close>

text \<open>The header struct \<^verbatim>\<open>msm_h_t\<close>, with the members the decoder writes.\<close>

record msm_h_t =
  msm_time_s :: int
  msm_clk_str :: int
  msm_clk_ext :: int
  msm_smooth :: int
  msm_tint_s :: int
  msm_nsat :: int
  msm_nsig :: int
  msm_sats :: "nat \<Rightarrow> int"
  msm_sigs :: "nat \<Rightarrow> int"
  msm_cellmask :: "nat \<Rightarrow> int"

definition h0 :: msm_h_t where
  "h0 = \<lparr>msm_time_s = 0, msm_clk_str = 0, msm_clk_ext = 0, msm_smooth = 0, msm_tint_s = 0,
         msm_nsat = 0, msm_nsig = 0, msm_sats = (\<lambda>_. 0), msm_sigs = (\<lambda>_. 0),
         msm_cellmask = (\<lambda>_. 0)\<rparr>"

text \<open>
  \<^verbatim>\<open>for (j=1;j<=64;j++) { mask=getbitu(rtcm->buff,i,1); i+=1;
  if (mask) h->sats[h->nsat++]=j; }\<close>
  The arguments are the bit position \<open>i\<close>, the counter \<open>j\<close> and the number of
  iterations that remain.
\<close>

fun sats_loop :: "buffer \<Rightarrow> nat \<Rightarrow> int \<Rightarrow> nat \<Rightarrow> msm_h_t \<Rightarrow> msm_h_t" where
  "sats_loop buff i j 0 h = h"
| "sats_loop buff i j (Suc n) h =
     sats_loop buff (i + 1) (j + 1) n
       (if getbitu buff i 1 \<noteq> 0
        then h\<lparr>msm_sats := (msm_sats h)(nat (msm_nsat h) := j), msm_nsat := msm_nsat h + 1\<rparr>
        else h)"

text \<open>
  \<^verbatim>\<open>for (j=1;j<=32;j++) { mask=getbitu(rtcm->buff,i,1); i+=1;
  if (mask) h->sigs[h->nsig++]=j; }\<close>
\<close>

fun sigs_loop :: "buffer \<Rightarrow> nat \<Rightarrow> int \<Rightarrow> nat \<Rightarrow> msm_h_t \<Rightarrow> msm_h_t" where
  "sigs_loop buff i j 0 h = h"
| "sigs_loop buff i j (Suc n) h =
     sigs_loop buff (i + 1) (j + 1) n
       (if getbitu buff i 1 \<noteq> 0
        then h\<lparr>msm_sigs := (msm_sigs h)(nat (msm_nsig h) := j), msm_nsig := msm_nsig h + 1\<rparr>
        else h)"

text \<open>
  \<^verbatim>\<open>for (j=0;j<h->nsat*h->nsig;j++) { h->cellmask[j]=getbitu(rtcm->buff,i,1); i+=1;
  if (h->cellmask[j]) ncell++; }\<close>
  The loop returns the header and \<open>ncell\<close>.
\<close>

fun cell_loop :: "buffer \<Rightarrow> nat \<Rightarrow> nat \<Rightarrow> nat \<Rightarrow> msm_h_t \<times> int \<Rightarrow> msm_h_t \<times> int" where
  "cell_loop buff i j 0 (h, ncell) = (h, ncell)"
| "cell_loop buff i j (Suc n) (h, ncell) =
     (let h' = h\<lparr>msm_cellmask := (msm_cellmask h)(j := uint (getbitu buff i 1))\<rparr>
      in cell_loop buff (i + 1) (j + 1) n
           (h', if msm_cellmask h' j \<noteq> 0 then ncell + 1 else ncell))"

text \<open>
  \<^verbatim>\<open>decode_msm_head\<close> returns \<open>ncell\<close> or -1 and sets \<^verbatim>\<open>*sync\<close>, \<^verbatim>\<open>*iod\<close>, \<^verbatim>\<open>*h\<close> and
  \<^verbatim>\<open>*hsize\<close>: here the tuple of the return value, \<open>sync\<close>, \<open>iod\<close>, the header, \<open>hsize\<close>
  and the control record.  Where the source returns before it has set an output, the
  component is 0 (and \<open>h0\<close> for the header when the frame is too short).  The epoch is
  adjusted inside the block that reads the fields, before the station id is tested:
  \<open>msm_epoch\<close> is that part of the block, the three branches that read the epoch field (the
  day of week of GLONASS is read and not used).
\<close>

definition msm_epoch :: "gtime_t \<Rightarrow> rtcm_t \<Rightarrow> sys \<Rightarrow> nat \<Rightarrow> rtcm_t" where
  "msm_epoch now rtcm sys i =
     (let buff = rtcm_buff rtcm in
      if sys = SYS_GLO
      then adjday_glot now rtcm (of_int (uint (getbitu buff (i + 3) 27)) * 0.001)
      else if sys = SYS_CMP
      then adjweek now rtcm (of_int (uint (getbitu buff i 30)) * 0.001 + 14)
      else adjweek now rtcm (of_int (uint (getbitu buff i 30)) * 0.001))"

definition decode_msm_head ::
    "gtime_t \<Rightarrow> rtcm_t \<Rightarrow> sys \<Rightarrow> int \<times> int \<times> int \<times> msm_h_t \<times> nat \<times> rtcm_t" where
  "decode_msm_head now rtcm sys =
     (let buff = rtcm_buff rtcm; i0 = 24; i1 = i0 + 12 in
      if int i1 + 157 \<le> rtcm_len rtcm * 8 then
        let staid = uint (getbitu buff i1 12); i2 = i1 + 12;
            r1 = msm_epoch now rtcm sys i2; i3 = i2 + 30;
            sync = uint (getbitu buff i3 1); i4 = i3 + 1;
            iod = uint (getbitu buff i4 3); i5 = i4 + 3;
            h1 = h0\<lparr>msm_time_s := uint (getbitu buff i5 7)\<rparr>; i6 = i5 + 7;
            h2 = h1\<lparr>msm_clk_str := uint (getbitu buff i6 2)\<rparr>; i7 = i6 + 2;
            h3 = h2\<lparr>msm_clk_ext := uint (getbitu buff i7 2)\<rparr>; i8 = i7 + 2;
            h4 = h3\<lparr>msm_smooth := uint (getbitu buff i8 1)\<rparr>; i9 = i8 + 1;
            h5 = h4\<lparr>msm_tint_s := uint (getbitu buff i9 3)\<rparr>; i10 = i9 + 3;
            h6 = sats_loop buff i10 1 64 h5; i11 = i10 + 64;
            h7 = sigs_loop buff i11 1 32 h6; i12 = i11 + 32;
            (ok, r2) = test_staid r1 staid
        in if ok = 0 then (- 1, sync, iod, h7, 0, r2)
           else if msm_nsat h7 * msm_nsig h7 > 64 then (- 1, sync, iod, h7, 0, r2)
           else if int i12 + msm_nsat h7 * msm_nsig h7 > rtcm_len r2 * 8
                then (- 1, sync, iod, h7, 0, r2)
           else
             let (h8, ncell) = cell_loop buff i12 0 (nat (msm_nsat h7 * msm_nsig h7)) (h7, 0)
             in (ncell, sync, iod, h8, i12 + nat (msm_nsat h7 * msm_nsig h7), r2)
      else (- 1, 0, 0, h0, 0, rtcm))"

text \<open>\<^verbatim>\<open>decode_msm0\<close>: the unsupported MSM types 1 to 3.\<close>

definition decode_msm0 :: "gtime_t \<Rightarrow> rtcm_t \<Rightarrow> sys \<Rightarrow> int \<times> rtcm_t" where
  "decode_msm0 now rtcm sys =
     (let (ncell, sync, iod, h, i, r1) = decode_msm_head now rtcm sys in
      if ncell < 0 then (- 1, r1)
      else (if sync \<noteq> 0 then 0 else 1,
            r1\<lparr>rtcm_obsflag := (if sync = 0 then 1 else 0)\<rparr>))"

text \<open>
  \<^verbatim>\<open>decode_msm4\<close> to \<^verbatim>\<open>decode_msm7\<close> decode the header, test the length of the frame against
  the size of the satellite and signal data, read these data and call \<^verbatim>\<open>save_msm_obs\<close>.
  They differ in the sizes (18 or 36 bits for a satellite; 48, 63, 65 or 80 bits for a
  cell) and in the fields read.  The reading of the data and \<^verbatim>\<open>save_msm_obs\<close>, which run
  only when the header and the length have been accepted, are the argument \<open>save\<close>: it
  gets the control record, the system, the header, the bit position behind the header and
  \<open>ncell\<close>, and returns the control record with the observations stored.
\<close>

definition decode_msm_data ::
    "int \<Rightarrow> int \<Rightarrow> (rtcm_t \<Rightarrow> sys \<Rightarrow> msm_h_t \<Rightarrow> nat \<Rightarrow> int \<Rightarrow> rtcm_t) \<Rightarrow>
     gtime_t \<Rightarrow> rtcm_t \<Rightarrow> sys \<Rightarrow> int \<times> rtcm_t" where
  "decode_msm_data satbits cellbits save now rtcm sys =
     (let (ncell, sync, iod, h, i, r1) = decode_msm_head now rtcm sys in
      if ncell < 0 then (- 1, r1)
      else if int i + msm_nsat h * satbits + ncell * cellbits > rtcm_len r1 * 8 then (- 1, r1)
      else (if sync \<noteq> 0 then 0 else 1,
            (save r1 sys h i ncell)\<lparr>rtcm_obsflag := (if sync = 0 then 1 else 0)\<rparr>))"

definition decode_msm4 where "decode_msm4 = decode_msm_data 18 48"
definition decode_msm5 where "decode_msm5 = decode_msm_data 36 63"
definition decode_msm6 where "decode_msm6 = decode_msm_data 18 65"
definition decode_msm7 where "decode_msm7 = decode_msm_data 36 80"

text \<open>The number of set bits among the \<open>n\<close> bits of the buffer from bit position \<open>pos\<close> on.\<close>

definition mask_count :: "buffer \<Rightarrow> nat \<Rightarrow> nat \<Rightarrow> nat" where
  "mask_count buff pos n = length (filter (\<lambda>k. bitat buff (pos + k)) [0..<n])"

section \<open>Double arithmetic and the SNR quantizer (rtcm3.c: snratio)\<close>

text \<open>
  The values of a \<^verbatim>\<open>double\<close> (IEEE 754 binary64): the finite values, the two infinities
  and the NaN.
\<close>

datatype cdouble = Fin real | PInf | MInf | NaN

text \<open>The binary exponent \<open>e\<close> of a real other than 0: \<open>2 powi e \<le> \<bar>x\<bar> < 2 powi (e + 1)\<close>.\<close>

definition ilog2 :: "real \<Rightarrow> int" where
  "ilog2 x =
     (let a = \<bar>x\<bar> in if 1 \<le> a then bitlen \<lfloor>a\<rfloor> - 1 else - bitlen (\<lceil>1 / a\<rceil> - 1))"

text \<open>Rounding to the nearest integer, a tie to the even one.\<close>

definition round_even :: "real \<Rightarrow> int" where
  "round_even y =
     (let f = \<lfloor>y\<rfloor>; d = y - of_int f
      in if d < 1 / 2 then f else if 1 / 2 < d then f + 1 else if even f then f else f + 1)"

text \<open>
  The distance of neighbouring binary64 values at \<open>x\<close>: 53 bits of precision, and -1022 the
  least exponent (the values below \<open>2 powi (- 1022)\<close> lie \<open>2 powi (- 1074)\<close> apart).
\<close>

definition ulp :: "real \<Rightarrow> real" where
  "ulp x = 2 powi (max (ilog2 x) (- 1022) - 52)"

text \<open>
  The binary64 value of a real result: rounding to nearest, ties to even.  A result beyond
  the largest finite value, which becomes an infinity, does not occur where \<open>rnd\<close> is used.
\<close>

definition rnd :: "real \<Rightarrow> real" where
  "rnd x = (if x = 0 then 0 else ulp x * of_int (round_even (x / ulp x)))"

text \<open>The reals that are binary64 values.\<close>

definition is_double :: "real \<Rightarrow> bool" where
  "is_double x \<longleftrightarrow> rnd x = x"

text \<open>
  \<^verbatim>\<open>return (unsigned char)(snr<=0.0||255.5<=snr?0.0:snr*4.0+0.5);\<close>
  The comparisons are false for a NaN.  The product and the sum are each rounded to a
  double.  The conversion of a double to \<^verbatim>\<open>unsigned char\<close> truncates; it is defined only
  when the truncated value is below 256 (the value is never negative here) and not for a
  NaN.  \<open>None\<close> is the conversion that C leaves undefined.
\<close>

definition snratio :: "cdouble \<Rightarrow> byte option" where
  "snratio d =
     (case d of
        NaN \<Rightarrow> None
      | PInf \<Rightarrow> Some 0
      | MInf \<Rightarrow> Some 0
      | Fin snr \<Rightarrow>
          (let v = (if snr \<le> 0 \<or> 255.5 \<le> snr then 0 else rnd (rnd (snr * 4) + 1 / 2))
           in if cint v < 256 then Some (word_of_int (cint v)) else None))"

section \<open>GPS ephemeris (rtcm3.c: decode_type1019)\<close>




section \<open>Observation codes and code priority (rtcm3.c)\<close>

definition obscodes :: "string list" where
  "obscodes = [
    [],     ''1C'', ''1P'', ''1W'', ''1Y'',  ''1M'', ''1N'', ''1S'', ''1L'', ''1E'',
    ''1A'', ''1B'', ''1X'', ''1Z'', ''2C'',  ''2D'', ''2S'', ''2L'', ''2X'', ''2P'',
    ''2W'', ''2Y'', ''2M'', ''2N'', ''5I'',  ''5Q'', ''5X'', ''7I'', ''7Q'', ''7X'',
    ''6A'', ''6B'', ''6C'', ''6X'', ''6Z'',  ''6S'', ''6L'', ''8L'', ''8Q'', ''8X'',
    ''2I'', ''2Q'', ''6I'', ''6Q'', ''3I'',  ''3Q'', ''3X'', ''1I'', ''1Q'', []]"

definition obsfreqs :: "int list" where
  "obsfreqs = [
    0, 1, 1, 1, 1,  1, 1, 1, 1, 1,
    1, 1, 1, 1, 2,  2, 2, 2, 2, 2,
    2, 2, 2, 2, 3,  3, 3, 5, 5, 5,
    4, 4, 4, 4, 4,  4, 4, 6, 6, 6,
    2, 2, 4, 4, 3,  3, 3, 1, 1, 0]"

text \<open>The rows of \<^verbatim>\<open>codepris\<close>: GPS, GLO, GAL, QZS, SBS, BDS.\<close>

definition codepris :: "string list list" where
  "codepris = [
    [''CPYWMNSL'', ''PYWCMNDSLX'', ''IQX'', [], [], []],
    [''PC'', ''PC'', ''IQX'', [], [], []],
    [''CABXZ'', [], ''IQX'', ''ABCXZ'', ''IQX'', ''IQX''],
    [''CSLXZ'', ''SLX'', ''IQX'', ''SLX'', [], []],
    [''C'', [], ''IQX'', [], [], []],
    [''IQX'', ''IQX'', ''IQX'', ''IQX'', ''IQX'', []]]"

text \<open>
  \<^verbatim>\<open>obs2code\<close> returns the code and stores the frequency: here the pair (code, freq).
  \<^verbatim>\<open>for (i=1;*obscodes[i];i++) { if (strcmp(obscodes[i],obs)) continue;
  if (freq) *freq=obsfreqs[i]; return (unsigned char)i; } return CODE_NONE;\<close>
  The loop runs over the table from index 1 and ends at the empty string that closes it.
\<close>

fun obs2code_loop :: "int \<Rightarrow> string list \<Rightarrow> string \<Rightarrow> int \<times> int" where
  "obs2code_loop i [] obs = (0, 0)"
| "obs2code_loop i (c # cs) obs =
     (if c = [] then (0, 0)
      else if c = obs then (i, obsfreqs ! nat i)
      else obs2code_loop (i + 1) cs obs)"

definition obs2code :: "string \<Rightarrow> int \<times> int" where
  "obs2code obs = obs2code_loop 1 (tl obscodes) obs"

text \<open>
  \<^verbatim>\<open>code2obs\<close> returns the string and stores the frequency: the pair (string, freq).  A code
  that passes the test against \<^verbatim>\<open>MAXCODE\<close> and lies beyond the table is a read outside the
  table (\<open>None\<close>).
\<close>

definition code2obs :: "rtklib_h \<Rightarrow> int \<Rightarrow> (string \<times> int) option" where
  "code2obs K code =
     (if code \<le> 0 \<or> MAXCODE K < code then Some ([], 0)
      else if nat code < length obscodes then Some (obscodes ! nat code, obsfreqs ! nat code)
      else None)"

text \<open>
  The character \<open>k\<close> of a C string: the terminating zero at the end of the list.
\<close>

definition cchar :: "string \<Rightarrow> nat \<Rightarrow> char" where
  "cchar s k = (if k < length s then s ! k else CHR 0x00)"

text \<open>
  The offset of the first occurrence of \<open>c\<close> in \<open>s\<close>, as \<^verbatim>\<open>strchr\<close> finds it (the
  terminating zero is part of the string).
\<close>

fun strchr_index :: "string \<Rightarrow> char \<Rightarrow> nat option" where
  "strchr_index [] c = (if c = CHR 0x00 then Some 0 else None)"
| "strchr_index (d # s) c =
     (if d = c then Some 0 else map_option Suc (strchr_index s c))"

text \<open>
  The loop over the options in \<^verbatim>\<open>getcodepri\<close>:
  \<^verbatim>\<open>for (p=opt;p&&(p=strchr(p,'-'));p++) {
  if (sscanf(p,optstr,str)<1||str[0]!=obs[0]) continue;
  return str[1]==obs[1]?15:0; }\<close>
  \<open>fmt\<close> is the literal part of \<^verbatim>\<open>optstr\<close> (\<^verbatim>\<open>-GL\<close> for GPS); the recursion steps through the
  characters of \<open>opt\<close> and tries the scan at every \<^verbatim>\<open>-\<close>.  The result is the priority that
  the loop returns, or \<open>None\<close> when the loop ends without a return.
\<close>

fun codeopt_loop :: "string \<Rightarrow> string \<Rightarrow> string \<Rightarrow> int option" where
  "codeopt_loop fmt obs [] = None"
| "codeopt_loop fmt obs (c # p) =
     (if c \<noteq> CHR ''-'' then codeopt_loop fmt obs p
      else
        (case (if take (length fmt) (c # p) = fmt then scan_2s (drop (length fmt) (c # p))
               else None) of
           None \<Rightarrow> codeopt_loop fmt obs p
         | Some str \<Rightarrow>
             if cchar str 0 \<noteq> cchar obs 0 then codeopt_loop fmt obs p
             else Some (if cchar str 1 = cchar obs 1 then 15 else 0)))"

text \<open>
  \<^verbatim>\<open>getcodepri\<close>.  \<open>None\<close> is a read outside a table: of \<^verbatim>\<open>obscodes\<close> in \<^verbatim>\<open>code2obs\<close>, or of
  \<^verbatim>\<open>codepris[i][j-1]\<close> when \<open>j\<close> is 0 or beyond the six columns.
\<close>

definition getcodepri :: "rtklib_h \<Rightarrow> sys \<Rightarrow> int \<Rightarrow> string \<Rightarrow> int option" where
  "getcodepri K sys code opt =
     (case (case sys of
              SYS_GPS \<Rightarrow> Some (0, ''-GL'')
            | SYS_GLO \<Rightarrow> Some (1, ''-RL'')
            | SYS_GAL \<Rightarrow> Some (2, ''-EL'')
            | SYS_QZS \<Rightarrow> Some (3, ''-JL'')
            | SYS_SBS \<Rightarrow> Some (4, ''-SL'')
            | SYS_CMP \<Rightarrow> Some (5, ''-CL'')
            | _ \<Rightarrow> None) of
        None \<Rightarrow> Some 0
      | Some (i, fmt) \<Rightarrow>
          (case code2obs K code of
             None \<Rightarrow> None
           | Some (obs, j) \<Rightarrow>
               (case codeopt_loop fmt obs opt of
                  Some pri \<Rightarrow> Some pri
                | None \<Rightarrow>
                    if j < 1 \<or> 6 < j then None
                    else (case strchr_index (codepris ! i ! nat (j - 1)) (cchar obs 1) of
                            Some k \<Rightarrow> Some (14 - int k)
                          | None \<Rightarrow> Some 0))))"

section \<open>MSM signal index (rtcm3.c: sigindex, and the signal table of save_msm_obs)\<close>

definition msm_sig_gps :: "string list" where
  "msm_sig_gps = [
    [], ''1C'', ''1P'', ''1W'', ''1Y'', ''1M'', [], ''2C'', ''2P'', ''2W'', ''2Y'', ''2M'',
    [], [], ''2S'', ''2L'', ''2X'', [], [], [], [], ''5I'', ''5Q'', ''5X'',
    [], [], [], [], [], ''1S'', ''1L'', ''1X'']"

definition msm_sig_glo :: "string list" where
  "msm_sig_glo = [
    [], ''1C'', ''1P'', [], [], [], [], ''2C'', ''2P'', [], ''3I'', ''3Q'',
    ''3X'', [], [], [], [], [], [], [], [], [], [], [],
    [], [], [], [], [], [], [], []]"

definition msm_sig_gal :: "string list" where
  "msm_sig_gal = [
    [], ''1C'', ''1A'', ''1B'', ''1X'', ''1Z'', [], ''6C'', ''6A'', ''6B'', ''6X'', ''6Z'',
    [], ''7I'', ''7Q'', ''7X'', [], ''8I'', ''8Q'', ''8X'', [], ''5I'', ''5Q'', ''5X'',
    [], [], [], [], [], [], [], []]"

definition msm_sig_qzs :: "string list" where
  "msm_sig_qzs = [
    [], ''1C'', [], [], [], [], [], [], ''6S'', ''6L'', ''6X'', [],
    [], [], ''2S'', ''2L'', ''2X'', [], [], [], [], ''5I'', ''5Q'', ''5X'',
    [], [], [], [], [], ''1S'', ''1L'', ''1X'']"

definition msm_sig_sbs :: "string list" where
  "msm_sig_sbs = [
    [], ''1C'', [], [], [], [], [], [], [], [], [], [],
    [], [], [], [], [], [], [], [], [], ''5I'', ''5Q'', ''5X'',
    [], [], [], [], [], [], [], []]"

definition msm_sig_cmp :: "string list" where
  "msm_sig_cmp = [
    [], ''1I'', ''1Q'', ''1X'', [], [], [], ''6I'', ''6Q'', ''6X'', [], [],
    [], ''7I'', ''7Q'', ''7X'', [], [], [], [], [], [], [], [],
    [], [], [], [], [], [], [], []]"

text \<open>
  The first loop of \<^verbatim>\<open>sigindex\<close> (test code priority), over the positions \<open>i\<close>, \<open>i + 1\<close>,
  \<dots> of the arrays \<^verbatim>\<open>code\<close> and \<^verbatim>\<open>freq\<close>; the state is the triple of the local arrays
  \<^verbatim>\<open>pri_h[8]\<close>, \<^verbatim>\<open>index[8]\<close> and \<^verbatim>\<open>ex[32]\<close>.  \<open>None\<close> is an access outside an array: the arrays
  \<^verbatim>\<open>code\<close> and \<^verbatim>\<open>freq\<close> are the lists given, and \<^verbatim>\<open>pri_h\<close> and \<^verbatim>\<open>index\<close> have eight elements.
\<close>

fun sigindex_pri ::
    "rtklib_h \<Rightarrow> sys \<Rightarrow> string \<Rightarrow> int list \<Rightarrow> int list \<Rightarrow> nat \<Rightarrow> nat \<Rightarrow>
     (nat \<Rightarrow> int) \<times> (nat \<Rightarrow> int) \<times> (nat \<Rightarrow> int) \<Rightarrow>
     ((nat \<Rightarrow> int) \<times> (nat \<Rightarrow> int) \<times> (nat \<Rightarrow> int)) option" where
  "sigindex_pri K sys opt code freq i 0 st = Some st"
| "sigindex_pri K sys opt code freq i (Suc m) (pri_h, index, ex) =
     (if length code \<le> i \<or> length freq \<le> i then None
      else if code ! i = 0 then sigindex_pri K sys opt code freq (i + 1) m (pri_h, index, ex)
      else if freq ! i > NFREQ K
        then sigindex_pri K sys opt code freq (i + 1) m (pri_h, index, ex(i := 1))
      else
        (case getcodepri K sys (code ! i) opt of
           None \<Rightarrow> None
         | Some pri \<Rightarrow>
             if freq ! i < 1 \<or> 8 < freq ! i then None
             else
               let f = nat (freq ! i - 1) in
               if pri > pri_h f then
                 sigindex_pri K sys opt code freq (i + 1) m
                   (pri_h(f := pri), index(f := int i + 1),
                    if index f \<noteq> 0 then ex(nat (index f - 1) := 1) else ex)
               else sigindex_pri K sys opt code freq (i + 1) m (pri_h, index, ex(i := 1))))"

text \<open>
  The second loop (signal index in obs data), which fills \<^verbatim>\<open>ind\<close>:
  \<^verbatim>\<open>if (ex[i]==0) ind[i]=freq[i]-1; else if (nex<NEXOBS) ind[i]=NFREQ+nex++;
  else ind[i]=-1;\<close>
\<close>

fun sigindex_ind ::
    "rtklib_h \<Rightarrow> int list \<Rightarrow> (nat \<Rightarrow> int) \<Rightarrow> nat \<Rightarrow> nat \<Rightarrow> int \<Rightarrow> int list" where
  "sigindex_ind K freq ex i 0 nex = []"
| "sigindex_ind K freq ex i (Suc m) nex =
     (if ex i = 0 then (freq ! i - 1) # sigindex_ind K freq ex (i + 1) m nex
      else if nex < NEXOBS K then (NFREQ K + nex) # sigindex_ind K freq ex (i + 1) m (nex + 1)
      else (- 1) # sigindex_ind K freq ex (i + 1) m nex)"

text \<open>\<^verbatim>\<open>sigindex\<close> returns the array \<^verbatim>\<open>ind\<close> as the list of its first \<open>n\<close> elements.\<close>

definition sigindex ::
    "rtklib_h \<Rightarrow> sys \<Rightarrow> int list \<Rightarrow> int list \<Rightarrow> nat \<Rightarrow> string \<Rightarrow> int list option" where
  "sigindex K sys code freq n opt =
     (case sigindex_pri K sys opt code freq 0 n ((\<lambda>_. 0), (\<lambda>_. 0), (\<lambda>_. 0)) of
        None \<Rightarrow> None
      | Some (pri_h, index, ex) \<Rightarrow> Some (sigindex_ind K freq ex 0 n 0))"

text \<open>
  The part of \<^verbatim>\<open>save_msm_obs\<close> that turns the signal ids \<^verbatim>\<open>h->sigs[i]\<close> of the header into
  codes and frequencies (id to signal, signal to rinex obs type, frequency index for
  beidou) and calls \<^verbatim>\<open>sigindex\<close>.  A signal id outside 1..32 is a read outside the signal
  table (\<open>None\<close>).
\<close>

definition msm_sig :: "sys \<Rightarrow> int \<Rightarrow> string" where
  "msm_sig sys s =
     (case sys of
        SYS_GPS \<Rightarrow> msm_sig_gps ! nat (s - 1)
      | SYS_GLO \<Rightarrow> msm_sig_glo ! nat (s - 1)
      | SYS_GAL \<Rightarrow> msm_sig_gal ! nat (s - 1)
      | SYS_QZS \<Rightarrow> msm_sig_qzs ! nat (s - 1)
      | SYS_SBS \<Rightarrow> msm_sig_sbs ! nat (s - 1)
      | SYS_CMP \<Rightarrow> msm_sig_cmp ! nat (s - 1)
      | _ \<Rightarrow> [])"

definition msm_code :: "sys \<Rightarrow> int \<Rightarrow> int \<times> int" where
  "msm_code sys s =
     (let (code, freq) = obs2code (msm_sig sys s);
          freq' = (if sys = SYS_CMP
                   then (if freq = 5 then 2 else if freq = 4 then 3 else freq)
                   else freq)
      in (code, freq'))"

definition msm_sigindex :: "rtklib_h \<Rightarrow> sys \<Rightarrow> int list \<Rightarrow> string \<Rightarrow> int list option" where
  "msm_sigindex K sys sigs opt =
     (if list_ex (\<lambda>s. s < 1 \<or> 32 < s) sigs then None
      else sigindex K sys (map (fst \<circ> msm_code sys) sigs) (map (snd \<circ> msm_code sys) sigs)
             (length sigs) opt)"

section \<open>SSR code biases (rtcm3.c: decode_ssr2_head, decode_ssr3)\<close>

definition ssrudint :: "real list" where
  "ssrudint = [1, 2, 5, 10, 15, 30, 60, 120, 240, 300, 600, 900, 1800, 3600, 7200, 10800]"

text \<open>
  \<^verbatim>\<open>decode_ssr2_head\<close> returns \<open>nsat\<close> and stores \<open>sync\<close>, \<open>iod\<close>, \<open>udint\<close> and \<open>hsize\<close>:
  here the tuple (nsat, sync, iod, udint, hsize, rtcm).  The index \<open>udi\<close> has four bits and
  lies within the sixteen intervals.
\<close>

definition decode_ssr2_head ::
    "gtime_t \<Rightarrow> rtcm_t \<Rightarrow> sys \<Rightarrow> int \<times> int \<times> int \<times> real \<times> nat \<times> rtcm_t" where
  "decode_ssr2_head now rtcm sys =
     (let i0 = 24 + 12;
          ns = (if sys = SYS_QZS then 4 else 6)
      in if int i0 + (if sys = SYS_GLO then 52 else 49 + ns) > rtcm_len rtcm * 8
         then (- 1, 0, 0, 0, 0, rtcm)
         else
           let (r1, i1) =
                 (if sys = SYS_GLO
                  then (adjday_glot now rtcm (real_of_int (uint (getbitu (rtcm_buff rtcm) i0 17))),
                        i0 + 17)
                  else (adjweek now rtcm (real_of_int (uint (getbitu (rtcm_buff rtcm) i0 20))),
                        i0 + 20));
               udi = uint (getbitu (rtcm_buff r1) i1 4);
               sync = uint (getbitu (rtcm_buff r1) (i1 + 4) 1);
               iod = uint (getbitu (rtcm_buff r1) (i1 + 5) 4);
               nsat = uint (getbitu (rtcm_buff r1) (i1 + 29) ns)
           in (nsat, sync, iod, ssrudint ! nat udi, i1 + 29 + nat ns, r1))"

text \<open>
  The ssr signal and tracking mode ids.  The constants \<^verbatim>\<open>CODE_L1C\<close>, \<dots> are those of
  \<^verbatim>\<open>rtklib.h\<close>: the parameter \<open>C\<close> gives the value of the constant of each name.
\<close>

definition codes_gps :: "(string \<Rightarrow> int) \<Rightarrow> int list" where
  "codes_gps C = map C
     [''CODE_L1C'', ''CODE_L1P'', ''CODE_L1W'', ''CODE_L1Y'', ''CODE_L1M'', ''CODE_L2C'',
      ''CODE_L2D'', ''CODE_L2S'', ''CODE_L2L'', ''CODE_L2X'', ''CODE_L2P'', ''CODE_L2W'',
      ''CODE_L2Y'', ''CODE_L2M'', ''CODE_L5I'', ''CODE_L5Q'', ''CODE_L5X'']"

definition codes_glo :: "(string \<Rightarrow> int) \<Rightarrow> int list" where
  "codes_glo C = map C [''CODE_L1C'', ''CODE_L1P'', ''CODE_L2C'', ''CODE_L2P'']"

definition codes_gal :: "(string \<Rightarrow> int) \<Rightarrow> int list" where
  "codes_gal C = map C
     [''CODE_L1A'', ''CODE_L1B'', ''CODE_L1C'', ''CODE_L1X'', ''CODE_L1Z'', ''CODE_L5I'',
      ''CODE_L5Q'', ''CODE_L5X'', ''CODE_L7I'', ''CODE_L7Q'', ''CODE_L7X'', ''CODE_L8I'',
      ''CODE_L8Q'', ''CODE_L8X'', ''CODE_L6A'', ''CODE_L6B'', ''CODE_L6C'', ''CODE_L6X'',
      ''CODE_L6Z'']"

definition codes_qzs :: "(string \<Rightarrow> int) \<Rightarrow> int list" where
  "codes_qzs C = map C
     [''CODE_L1C'', ''CODE_L1S'', ''CODE_L1L'', ''CODE_L2S'', ''CODE_L2L'', ''CODE_L2X'',
      ''CODE_L5I'', ''CODE_L5Q'', ''CODE_L5X'', ''CODE_L6S'', ''CODE_L6L'', ''CODE_L6X'',
      ''CODE_L1X'']"

definition codes_bds :: "(string \<Rightarrow> int) \<Rightarrow> int list" where
  "codes_bds C = map C
     [''CODE_L1I'', ''CODE_L1Q'', ''CODE_L1X'', ''CODE_L7I'', ''CODE_L7Q'', ''CODE_L7X'',
      ''CODE_L6I'', ''CODE_L6Q'', ''CODE_L6X'']"

definition codes_sbs :: "(string \<Rightarrow> int) \<Rightarrow> int list" where
  "codes_sbs C = map C [''CODE_L1C'', ''CODE_L5I'', ''CODE_L5Q'', ''CODE_L5X'']"

text \<open>
  The loop over the bias entries of one satellite:
  \<^verbatim>\<open>for (k=0;k<nbias&&i+19<=rtcm->len*8;k++) { mode=getbitu(rtcm->buff,i,5); i+=5;
  bias=getbits(rtcm->buff,i,14)*0.01; i+=14;
  if (mode<=ncode) { cbias[codes[mode]-1]=(float)bias; } else { trace(...); } }\<close>
  The first numeric argument counts the entries still to read (\<open>nbias - k\<close>).  \<open>flt\<close> is the
  conversion to \<^verbatim>\<open>float\<close>.  \<open>None\<close> is an access outside an array: \<^verbatim>\<open>codes[mode]\<close> beyond the
  table \<open>codes\<close>, or \<^verbatim>\<open>cbias[codes[mode]-1]\<close> outside the \<^verbatim>\<open>MAXCODE\<close> elements of \<^verbatim>\<open>cbias\<close>.
\<close>

fun ssr3_bias_loop ::
    "rtklib_h \<Rightarrow> (real \<Rightarrow> real) \<Rightarrow> buffer \<Rightarrow> int \<Rightarrow> int list \<Rightarrow> int \<Rightarrow> nat \<Rightarrow> nat \<Rightarrow>
     (nat \<Rightarrow> real) \<Rightarrow> ((nat \<Rightarrow> real) \<times> nat) option" where
  "ssr3_bias_loop K flt buff len codes ncode 0 i cbias = Some (cbias, i)"
| "ssr3_bias_loop K flt buff len codes ncode (Suc n) i cbias =
     (if int i + 19 \<le> len * 8 then
        let mode = uint (getbitu buff i 5);
            bias = real_of_int (getbits buff (i + 5) 14) * 0.01
        in if mode \<le> ncode then
             (if nat mode < length codes \<and> 1 \<le> codes ! nat mode
                   \<and> codes ! nat mode \<le> MAXCODE K
              then ssr3_bias_loop K flt buff len codes ncode n (i + 19)
                     (cbias(nat (codes ! nat mode - 1) := flt bias))
              else None)
           else ssr3_bias_loop K flt buff len codes ncode n (i + 19) cbias
      else Some (cbias, i))"

text \<open>
  The loop over the satellites:
  \<^verbatim>\<open>for (j=0;j<nsat&&i+5+np<=rtcm->len*8;j++) { ... }\<close>.
  The first numeric argument counts the satellites still to read (\<open>nsat - j\<close>).
\<close>

fun ssr3_sat_loop ::
    "rtklib_h \<Rightarrow> (real \<Rightarrow> real) \<Rightarrow> sys \<Rightarrow> int \<Rightarrow> int \<Rightarrow> int list \<Rightarrow> int \<Rightarrow> real \<Rightarrow> int \<Rightarrow>
     nat \<Rightarrow> nat \<Rightarrow> rtcm_t \<Rightarrow> rtcm_t option" where
  "ssr3_sat_loop K flt sys np offp codes ncode udint iod 0 i rtcm = Some rtcm"
| "ssr3_sat_loop K flt sys np offp codes ncode udint iod (Suc n) i rtcm =
     (if int i + 5 + np \<le> rtcm_len rtcm * 8 then
        let prn = uint (getbitu (rtcm_buff rtcm) i np) + offp;
            i1 = i + nat np;
            nbias = uint (getbitu (rtcm_buff rtcm) i1 5);
            i2 = i1 + 5
        in case ssr3_bias_loop K flt (rtcm_buff rtcm) (rtcm_len rtcm) codes ncode (nat nbias)
                  i2 (\<lambda>_. 0) of
             None \<Rightarrow> None
           | Some (cbias, i3) \<Rightarrow>
               let sat = satno K sys prn in
               if sat = 0 then ssr3_sat_loop K flt sys np offp codes ncode udint iod n i3 rtcm
               else
                 let s = rtcm_ssr rtcm (nat (sat - 1));
                     s' = s\<lparr>ssr_t0 := (ssr_t0 s)(4 := rtcm_time rtcm),
                            ssr_udi := (ssr_udi s)(4 := udint),
                            ssr_iod := (ssr_iod s)(4 := iod),
                            ssr_cbias := (\<lambda>k. if int k < MAXCODE K then flt (cbias k)
                                               else ssr_cbias s k),
                            ssr_update := 1\<rparr>
                 in ssr3_sat_loop K flt sys np offp codes ncode udint iod n i3
                      (rtcm\<lparr>rtcm_ssr := (rtcm_ssr rtcm)(nat (sat - 1) := s')\<rparr>)
      else Some rtcm)"

text \<open>
  \<^verbatim>\<open>decode_ssr3\<close>: the status and the control record, or \<open>None\<close> when the code reads or
  writes outside an array.
\<close>

definition decode_ssr3 ::
    "rtklib_h \<Rightarrow> (string \<Rightarrow> int) \<Rightarrow> (real \<Rightarrow> real) \<Rightarrow> gtime_t \<Rightarrow> rtcm_t \<Rightarrow> sys \<Rightarrow>
     (int \<times> rtcm_t) option" where
  "decode_ssr3 K C flt now rtcm sys =
     (let (nsat, sync, iod, udint, i, r1) = decode_ssr2_head now rtcm sys
      in if nsat < 0 then Some (- 1, r1)
         else
           (case (case sys of
                    SYS_GPS \<Rightarrow> Some (6, 0, codes_gps C, 17)
                  | SYS_GLO \<Rightarrow> Some (5, 0, codes_glo C, 4)
                  | SYS_GAL \<Rightarrow> Some (6, 0, codes_gal C, 19)
                  | SYS_QZS \<Rightarrow> Some (4, 192, codes_qzs C, 13)
                  | SYS_CMP \<Rightarrow> Some (6, 1, codes_bds C, 9)
                  | SYS_SBS \<Rightarrow> Some (6, 120, codes_sbs C, 4)
                  | _ \<Rightarrow> None) of
              None \<Rightarrow> Some (if sync \<noteq> 0 then 0 else 10, r1)
            | Some (np, offp, codes, ncode) \<Rightarrow>
                (case ssr3_sat_loop K flt sys np offp codes ncode udint iod (nat nsat) i r1 of
                   None \<Rightarrow> None
                 | Some r2 \<Rightarrow> Some (if sync \<noteq> 0 then 0 else 10, r2))))"

section \<open>Feeding a byte sequence, and the control record after \<^verbatim>\<open>init_rtcm\<close>\<close>

text \<open>
  The caller of the framer (\<^verbatim>\<open>input_rtcm3f\<close>, the serial loop of the sketches) calls
  \<^verbatim>\<open>input_rtcm3\<close> once for each byte.  \<open>input_bytes\<close> makes these calls for a list of bytes
  and returns the list of the statuses and the last control record.
\<close>

fun input_bytes :: "(rtcm_t \<Rightarrow> int \<times> rtcm_t) \<Rightarrow> rtcm_t \<Rightarrow> byte list \<Rightarrow> int list \<times> rtcm_t" where
  "input_bytes dec rtcm [] = ([], rtcm)"
| "input_bytes dec rtcm (b # bs) =
     (let (st, r1) = input_rtcm3 dec rtcm b;
          (sts, r2) = input_bytes dec r1 bs
      in (st # sts, r2))"

text \<open>The buffer after the bytes \<open>bs\<close> have been stored from index \<open>k\<close> on.\<close>

definition write_at :: "buffer \<Rightarrow> nat \<Rightarrow> byte list \<Rightarrow> buffer" where
  "write_at buff k bs = (\<lambda>j. if k \<le> j \<and> j < k + length bs then bs ! (j - k) else buff j)"

text \<open>
  The control record when the framer has taken in a whole frame (header, payload and
  parity): the frame is in the buffer, \<^verbatim>\<open>len\<close> is the length without the parity and the
  byte counter is back at 0.
\<close>

definition framed :: "rtcm_t \<Rightarrow> byte list \<Rightarrow> rtcm_t" where
  "framed rtcm frame =
     rtcm\<lparr>rtcm_buff := write_at (rtcm_buff rtcm) 0 frame,
          rtcm_nbyte := 0,
          rtcm_len := int (length frame) - 3\<rparr>"

text \<open>The station id that the option \<^verbatim>\<open>-STA=\<close> asks for, as \<open>test_staid\<close> reads it.\<close>

definition opt_staid :: "string \<Rightarrow> int option" where
  "opt_staid opt =
     (case strstr opt ''-STA='' of None \<Rightarrow> None | Some p \<Rightarrow> scan_d (drop 5 p))"

text \<open>
  The values with which \<^verbatim>\<open>init_rtcm\<close> fills the control record.  The initialiser
  \<^verbatim>\<open>eph0={0,-1,-1}\<close> sets the first three members of \<^verbatim>\<open>eph_t\<close>, which are \<^verbatim>\<open>sat\<close>,
  \<^verbatim>\<open>iode\<close> and \<^verbatim>\<open>iodc\<close>.  \<open>rtcm0\<close> is the control record after \<^verbatim>\<open>init_rtcm\<close>, with a
  frame buffer of zeros (\<^verbatim>\<open>init_rtcm\<close> does not write the buffer).
\<close>

definition time0 :: gtime_t where
  "time0 = \<lparr>gtime_time = 0, gtime_sec = 0\<rparr>"

definition eph0 :: eph_t where
  "eph0 = \<lparr>eph_sat = 0, eph_iode = - 1, eph_iodc = - 1, eph_sva = 0, eph_svh = 0,
           eph_week = 0, eph_code = 0, eph_flag = 0, eph_toe = time0, eph_toc = time0,
           eph_ttr = time0, eph_A = 0, eph_e = 0, eph_i0 = 0, eph_OMG0 = 0, eph_omg = 0,
           eph_M0 = 0, eph_deln = 0, eph_OMGd = 0, eph_idot = 0, eph_crc = 0, eph_crs = 0,
           eph_cuc = 0, eph_cus = 0, eph_cic = 0, eph_cis = 0, eph_toes = 0, eph_fit = 0,
           eph_f0 = 0, eph_f1 = 0, eph_f2 = 0, eph_tgd = (\<lambda>_. 0)\<rparr>"

definition data0 :: obsd_t where
  "data0 = \<lparr>obsd_time = time0, obsd_sat = 0, obsd_SNR = (\<lambda>_. 0), obsd_LLI = (\<lambda>_. 0),
            obsd_code = (\<lambda>_. 0), obsd_L = (\<lambda>_. 0), obsd_P = (\<lambda>_. 0), obsd_D = (\<lambda>_. 0)\<rparr>"

definition ssr0 :: ssr_t where
  "ssr0 = \<lparr>ssr_t0 = (\<lambda>_. time0), ssr_udi = (\<lambda>_. 0), ssr_iod = (\<lambda>_. 0),
           ssr_cbias = (\<lambda>_. 0), ssr_update = 0\<rparr>"

definition rtcm0 :: rtcm_t where
  "rtcm0 = \<lparr>rtcm_staid = 0, rtcm_time = time0, rtcm_obs_n = 0, rtcm_obs_data = (\<lambda>_. data0),
            rtcm_nav_eph = (\<lambda>_. eph0),
            rtcm_sta = \<lparr>sta_deltype = 0, sta_pos = (\<lambda>_. 0), sta_del = (\<lambda>_. 0),
                        sta_hgt = 0, sta_itrf = 0\<rparr>,
            rtcm_ssr = (\<lambda>_. ssr0), rtcm_obsflag = 0, rtcm_ephsat = 0, rtcm_nbyte = 0,
            rtcm_len = 0, rtcm_buff = (\<lambda>_. 0), rtcm_opt = ''''\<rparr>"

text \<open>The MSM header when the fixed fields and the two masks have been read.\<close>

definition msm_masks :: "buffer \<Rightarrow> msm_h_t" where
  "msm_masks buff =
     sigs_loop buff 161 1 32 (sats_loop buff 97 1 64
       (h0\<lparr>msm_time_s := uint (getbitu buff 82 7), msm_clk_str := uint (getbitu buff 89 2),
           msm_clk_ext := uint (getbitu buff 91 2), msm_smooth := uint (getbitu buff 93 1),
           msm_tint_s := uint (getbitu buff 94 3)\<rparr>))"

section \<open>Test frames\<close>

text \<open>
  A frame of type 1005 (station 123, ITRF year 14, the position of scenario B of the
  specification) with its payload of 19 bytes and a good parity; the same frame with the
  last parity bit flipped; and the same content in a payload of 22 bytes (three bytes of
  padding), again with a good parity.
\<close>

definition frame1005 :: "byte list" where
  "frame1005 = [0xD3, 0x00, 0x13, 0x3E, 0xD0, 0x7B, 0x38, 0x08, 0xE6, 0x2D, 0x24, 0x9F, 0x01,
     0xF8, 0x25, 0xE8, 0x92, 0x0B, 0xB9, 0xB5, 0x2D, 0x0D, 0xCE, 0x15, 0x01]"

definition frame1005_badcrc :: "byte list" where
  "frame1005_badcrc = [0xD3, 0x00, 0x13, 0x3E, 0xD0, 0x7B, 0x38, 0x08, 0xE6, 0x2D, 0x24, 0x9F,
     0x01, 0xF8, 0x25, 0xE8, 0x92, 0x0B, 0xB9, 0xB5, 0x2D, 0x0D, 0xCE, 0x15, 0x00]"

definition frame1005_long :: "byte list" where
  "frame1005_long = [0xD3, 0x00, 0x16, 0x3E, 0xD0, 0x7B, 0x38, 0x08, 0xE6, 0x2D, 0x24, 0x9F,
     0x01, 0xF8, 0x25, 0xE8, 0x92, 0x0B, 0xB9, 0xB5, 0x2D, 0x0D, 0x00, 0x00, 0x00, 0x64, 0x53,
     0xCF]"

text \<open>
  The host clock of the tests: 2020-06-01 00:00:00 UTC.
\<close>

definition now0 :: gtime_t where
  "now0 = \<lparr>gtime_time = 1590969600, gtime_sec = 0\<rparr>"

text \<open>
  Frames of type 1074 (GPS MSM4), station 123, with a good parity: satellites 3 and 15 with
  the signals 2 (1C) and 4 (1W) and all four cells; satellites 3, 15 and 20 with the same
  signals and four of the six cells; and a frame whose masks select nine satellites and
  eight signals.
\<close>

definition frame_msm4 :: "byte list" where
  "frame_msm4 = [0xD3, 0x00, 0x33, 0x43, 0x20, 0x7B, 0x00, 0x06, 0x1A, 0x80, 0x00, 0x00, 0x10,
     0x01, 0x00, 0x00, 0x00, 0x00, 0x00, 0x00, 0x28, 0x00, 0x00, 0x00, 0x78, 0xA0, 0xAC, 0x01,
     0x00, 0x00, 0x64, 0x00, 0xCA, 0x01, 0x98, 0x03, 0x3F, 0xFF, 0xE7, 0x1F, 0xFF, 0x9B, 0xFF,
     0xFE, 0x6D, 0xFF, 0xF9, 0xAA, 0xAA, 0xA8, 0x51, 0x4D, 0x55, 0x80, 0x0B, 0x1D, 0x08]"

definition frame_msm4_part :: "byte list" where
  "frame_msm4_part = [0xD3, 0x00, 0x35, 0x43, 0x20, 0x7B, 0x00, 0x06, 0x1A, 0x82, 0x00, 0x00,
     0x10, 0x01, 0x08, 0x00, 0x00, 0x00, 0x00, 0x00, 0x28, 0x00, 0x00, 0x00, 0x5A, 0x28, 0x2A,
     0x2D, 0x00, 0x40, 0x10, 0x00, 0x06, 0x40, 0x0C, 0xA0, 0x19, 0x80, 0x33, 0xFF, 0xFE, 0x71,
     0xFF, 0xF9, 0xBF, 0xFF, 0xE6, 0xDF, 0xFF, 0x9A, 0xAA, 0xAA, 0x85, 0x14, 0xD5, 0x58, 0xD4,
     0x3C, 0x5F]"

definition frame_msm4_big :: "byte list" where
  "frame_msm4_big = [0xD3, 0x00, 0x3E, 0x43, 0x20, 0x7B, 0x00, 0x06, 0x1A, 0x80, 0x00, 0x00,
     0x7F, 0xC0, 0x00, 0x00, 0x00, 0x00, 0x00, 0x00, 0x7F, 0x80, 0x00, 0x00, 0x00, 0x00, 0x00,
     0x00, 0x00, 0x00, 0x00, 0x00, 0x00, 0x00, 0x00, 0x00, 0x00, 0x00, 0x00, 0x00, 0x00, 0x00,
     0x00, 0x00, 0x00, 0x00, 0x00, 0x00, 0x00, 0x00, 0x00, 0x00, 0x00, 0x00, 0x00, 0x00, 0x00,
     0x00, 0x00, 0x00, 0x00, 0x00, 0x00, 0x00, 0x00, 0x49, 0x7A, 0x29]"

text \<open>A data part for the MSM decoders that stores nothing.\<close>

definition save_skip :: "rtcm_t \<Rightarrow> sys \<Rightarrow> msm_h_t \<Rightarrow> nat \<Rightarrow> int \<Rightarrow> rtcm_t" where
  "save_skip r s h i n = r"

text \<open>
  Control records for the station id test: station 3 recorded and no option; the option
  \<^verbatim>\<open>-STA=5\<close> with station 5 recorded; the option with no station recorded.
\<close>

definition rtcm_sta3 :: rtcm_t where
  "rtcm_sta3 = rtcm0\<lparr>rtcm_staid := 3\<rparr>"

definition rtcm_opt5 :: rtcm_t where
  "rtcm_opt5 = rtcm0\<lparr>rtcm_staid := 5, rtcm_opt := ''-STA=5''\<rparr>"

definition rtcm_opt5_new :: rtcm_t where
  "rtcm_opt5_new = rtcm0\<lparr>rtcm_opt := ''-STA=5''\<rparr>"

text \<open>
  Constants for the tests: the PRN ranges of a build with every system enabled, three
  main frequency slots and no extended slot, and the scale factors by their names.
\<close>

definition K0 :: rtklib_h where
  "K0 = \<lparr>MINPRNGPS = 1, MAXPRNGPS = 32, NSATGPS = 32,
         MINPRNGLO = 1, MAXPRNGLO = 27, NSATGLO = 27,
         MINPRNGAL = 1, MAXPRNGAL = 30, NSATGAL = 30,
         MINPRNQZS = 193, MAXPRNQZS = 199, NSATQZS = 7,
         MINPRNCMP = 1, MAXPRNCMP = 35, NSATCMP = 35,
         MINPRNLEO = 1, MAXPRNLEO = 10, NSATLEO = 10,
         MINPRNSBS = 120, MAXPRNSBS = 142, NSATSBS = 23,
         NFREQ = 3, NEXOBS = 0, MAXCODE = 48,
         P2_5 = 1 / 2 ^ 5, P2_19 = 1 / 2 ^ 19, P2_29 = 1 / 2 ^ 29, P2_31 = 1 / 2 ^ 31,
         P2_33 = 1 / 2 ^ 33, P2_43 = 1 / 2 ^ 43, P2_55 = 1 / 2 ^ 55,
         SC2RAD = 3.1415926535898\<rparr>"


definition frame1019_next :: "byte list" where
  "frame1019_next = [0xD3, 0x00, 0x3D, 0x3F, 0xB1, 0xC3, 0xC2, 0x7F, 0x85, 0x2B, 0x6B, 0x3A,
     0xFD, 0xFB, 0x2E, 0x07, 0x89, 0x00, 0x2B, 0xF8, 0x30, 0x30, 0x39, 0xC5, 0x21, 0x97, 0x4F,
     0xFA, 0x24, 0x02, 0xAE, 0xA5, 0x40, 0x09, 0xC4, 0xA1, 0x0D, 0x3F, 0x80, 0x6B, 0x3A, 0xFF,
     0xE2, 0x49, 0x96, 0x02, 0xD2, 0x00, 0x28, 0x27, 0x00, 0x29, 0x43, 0x17, 0x70, 0xBD, 0x1A,
     0x89, 0x09, 0xFF, 0xAA, 0x10, 0xF5, 0x02, 0xD1, 0xCB, 0xEC]"


text \<open>
  Two GPS code-bias messages (type 1059, time of week 86418 s, one satellite of PRN 5 with
  one bias entry of 1.23 m): the tracking mode of the entry is 17 in the first and 18 in the
  second.
\<close>

definition frame_ssr3_mode17 :: "byte list" where
  "frame_ssr3_mode17 =
     [0xD3, 0x00, 0x0D, 0x42, 0x31, 0x51, 0x92, 0x21, 0x80, 0x00, 0x00, 0x22, 0x86, 0x20,
      0x3D, 0x80, 0x48, 0xC4, 0xF1]"

definition frame_ssr3_mode18 :: "byte list" where
  "frame_ssr3_mode18 =
     [0xD3, 0x00, 0x0D, 0x42, 0x31, 0x51, 0x92, 0x21, 0x80, 0x00, 0x00, 0x22, 0x86, 0x40,
      0x3D, 0x80, 0x22, 0x14, 0xB1]"

text \<open>
  Frames of station 123 of the other types that carry a station id: an antenna descriptor
  (1007: \<^verbatim>\<open>ANT1\<close>), one with a serial number (1008: \<^verbatim>\<open>S01\<close>), a receiver and antenna
  descriptor (1033) and the headers of a GPS (1002) and a GLONASS (1010) observation message
  without satellites.  Two frames of type 1005 of the stations 0 and 7.
\<close>

definition frame1007 :: "byte list" where
  "frame1007 = [0xD3, 0x00, 0x09, 0x3E, 0xF0, 0x7B, 0x04, 0x41, 0x4E, 0x54, 0x31, 0x00, 0x20,
     0xE0, 0x32]"

definition frame1008 :: "byte list" where
  "frame1008 = [0xD3, 0x00, 0x0D, 0x3F, 0x00, 0x7B, 0x04, 0x41, 0x4E, 0x54, 0x31, 0x00, 0x03,
     0x53, 0x30, 0x31, 0x4F, 0x66, 0xC7]"

definition frame1033 :: "byte list" where
  "frame1033 = [0xD3, 0x00, 0x18, 0x40, 0x90, 0x7B, 0x04, 0x41, 0x4E, 0x54, 0x31, 0x00, 0x03,
     0x53, 0x30, 0x31, 0x03, 0x52, 0x43, 0x56, 0x03, 0x31, 0x2E, 0x30, 0x02, 0x52, 0x39, 0x16,
     0x6E, 0x29]"

definition frame1002 :: "byte list" where
  "frame1002 = [0xD3, 0x00, 0x08, 0x3E, 0xA0, 0x7B, 0x14, 0x9A, 0x89, 0x40, 0x00, 0xA4, 0xCB,
     0x7C]"

definition frame1010 :: "byte list" where
  "frame1010 = [0xD3, 0x00, 0x08, 0x3F, 0x20, 0x7B, 0x14, 0xA2, 0x3A, 0x00, 0x00, 0x06, 0x1B,
     0x28]"

definition frame1005_sta0 :: "byte list" where
  "frame1005_sta0 = [0xD3, 0x00, 0x13, 0x3E, 0xD0, 0x00, 0x02, 0x02, 0x98, 0x0E, 0xDE, 0xEF,
     0x34, 0xB4, 0xBD, 0x62, 0xAC, 0x09, 0x41, 0x98, 0x6F, 0x33, 0x19, 0x88, 0x34]"

definition frame1005_sta7 :: "byte list" where
  "frame1005_sta7 = [0xD3, 0x00, 0x13, 0x3E, 0xD0, 0x07, 0x02, 0x02, 0x98, 0x0E, 0xDE, 0xEF,
     0x34, 0xB4, 0xBD, 0x62, 0xAC, 0x09, 0x41, 0x98, 0x6F, 0x33, 0xCC, 0x4B, 0xDA]"

text \<open>The control record after the frame of station 0 has been decoded.\<close>

definition rtcm_sta0 :: rtcm_t where
  "rtcm_sta0 = snd (decode_type1005 (framed rtcm0 frame1005_sta0))"

section \<open>Properties of the bit-field codec\<close>

lemma bitsel_eq: "bitsel buff i = of_bool (bitat buff i)"
  unfolding bitsel_def bitat_def
  by (rule bit_word_eqI) (auto simp: bit_simps)

lemma bit_shift_add:
  "bit (push_bit 1 (w::u32) + of_bool b) j \<longleftrightarrow> j < 32 \<and> (if j = 0 then b else bit w (j - 1))"
proof -
  have e: "push_bit 1 w = 2 * w" by simp
  have "bit (2 * w + of_bool b) j \<longleftrightarrow> bit (2 * w) j \<or> bit (of_bool b :: u32) j"
    by (rule bit_disjunctive_add_iff) (auto simp: bit_simps bit_double_iff)
  then show ?thesis
    unfolding e by (auto simp: bit_double_iff bit_simps)
qed

lemma bit_getbitu_loop:
  "j < 32 \<Longrightarrow> bit (getbitu_loop buff i n acc) j \<longleftrightarrow>
     (if j < n then bitat buff (i + n - 1 - j) else bit acc (j - n))"
proof (induction n arbitrary: i acc)
  case 0
  then show ?case by simp
next
  case (Suc n)
  have step: "getbitu_loop buff i (Suc n) acc =
      getbitu_loop buff (Suc i) n (push_bit 1 acc + of_bool (bitat buff i))"
    by (simp add: bitsel_eq)
  show ?case
  proof (cases "j < n")
    case True
    then show ?thesis unfolding step using Suc by simp
  next
    case False
    then show ?thesis unfolding step Suc.IH [OF Suc.prems] bit_shift_add
      using Suc.prems by (auto simp: not_less less_Suc_eq)
  qed
qed

lemma bitat_setbit1: "bitat (setbit1 buff i b) k \<longleftrightarrow> (if k = i then b else bitat buff k)"
proof (cases "k div 8 = i div 8")
  case False
  then show ?thesis by (auto simp: setbit1_def bitat_def)
next
  case True
  have "k = i \<longleftrightarrow> k mod 8 = i mod 8"
    using True by (metis div_mult_mod_eq)
  moreover have "k mod 8 < 8" "i mod 8 < 8" by simp_all
  ultimately show ?thesis
    using True by (auto simp: setbit1_def bitat_def bit_simps)
qed

lemma and_mask_bit: "(data :: u32) AND push_bit n 1 \<noteq> 0 \<longleftrightarrow> bit data n"
  using bit_iff_and_push_bit_not_eq_0 by blast

lemma bitat_setbitu_loop:
  "n \<le> 32 \<Longrightarrow> (0 < n \<longrightarrow> msk = push_bit (n - 1) 1) \<Longrightarrow>
   bitat (setbitu_loop buff i n msk data) k \<longleftrightarrow>
     (if i \<le> k \<and> k < i + n then bit data (i + n - 1 - k) else bitat buff k)"
proof (induction n arbitrary: buff i msk)
  case 0
  then show ?case by auto
next
  case (Suc n)
  have m: "msk = push_bit n 1" using Suc.prems by simp
  have d: "0 < n \<longrightarrow> drop_bit 1 msk = push_bit (n - 1) 1"
    unfolding m using Suc.prems(1) by (simp add: drop_bit_exp_eq)
  have n32: "n \<le> 32" using Suc.prems by simp
  have step: "setbitu_loop buff i (Suc n) msk data =
     setbitu_loop (setbit1 buff i (bit data n)) (Suc i) n (drop_bit 1 msk) data"
    unfolding m setbitu_loop.simps and_mask_bit ..
  show ?case
    unfolding step Suc.IH [OF n32 d] bitat_setbit1
    by (auto simp: less_Suc_eq le_less Suc_le_eq)
qed

lemma word_bit_hi: "uint (v::u32) < 2 ^ n \<Longrightarrow> n \<le> j \<Longrightarrow> \<not> bit v j"
proof -
  assume a: "uint v < 2 ^ n" "n \<le> j"
  have "take_bit n (uint v) = uint v"
    using a(1) by (simp add: take_bit_int_eq_self)
  then have "\<not> bit (uint v) j"
    using a(2) by (metis bit_take_bit_iff not_le)
  then show ?thesis by (auto simp: bit_uint_iff dest: bit_imp_le_length)
qed

lemma bit_getbitu:
  "j < 32 \<Longrightarrow> bit (getbitu buff pos len) j \<longleftrightarrow> j < nat len \<and> bitat buff (pos + nat len - 1 - j)"
  unfolding getbitu_def by (subst bit_getbitu_loop) auto

lemma bitat_setbitu:
  assumes "1 \<le> len" "len \<le> 32"
  shows "bitat (setbitu buff pos len v) k \<longleftrightarrow>
     (if pos \<le> k \<and> k < pos + nat len then bit v (pos + nat len - 1 - k) else bitat buff k)"
proof -
  have s: "setbitu buff pos len v = setbitu_loop buff pos (nat len) (push_bit (nat len - 1) 1) v"
    unfolding setbitu_def using assms by (simp add: nat_diff_distrib)
  have g: "nat len \<le> 32" using assms by simp
  show ?thesis unfolding s by (rule bitat_setbitu_loop [OF g]) simp
qed

lemma getbitu_setbitu:
  assumes "1 \<le> len" "len \<le> 32" "uint v < 2 ^ nat len"
  shows "getbitu (setbitu buff pos len v) pos len = v"
proof (rule bit_word_eqI)
  fix j assume "j < LENGTH(32)"
  then have j: "j < 32" by simp
  have hi: "\<not> bit v j" if "nat len \<le> j"
    using word_bit_hi [OF assms(3) that] .
  show "bit (getbitu (setbitu buff pos len v) pos len) j \<longleftrightarrow> bit v j"
    unfolding bit_getbitu [OF j] bitat_setbitu [OF assms(1,2)]
    using hi by (cases "j < nat len") auto
qed

lemma getbits_setbitu:
  assumes "1 \<le> len" "len \<le> 32" "- (2 ^ (nat len - 1)) \<le> v" "v < 2 ^ (nat len - 1)"
  shows "getbits (setbitu buff pos len (word_of_int v)) pos len = v"
proof -
  define n where "n = nat len"
  define u :: u32 where "u = getbitu (setbitu buff pos len (word_of_int v)) pos len"
  have n: "1 \<le> n" "n \<le> 32" "len = int n" using assms by (simp_all add: n_def)
  have sv: "signed_take_bit (n - 1) v = v"
    using assms(3,4) unfolding n_def by (simp add: signed_take_bit_int_eq_self)
  have bv: "bit v j \<longleftrightarrow> bit v (min (n - 1) j)" for j
  proof -
    have "bit (signed_take_bit (n - 1) v) j \<longleftrightarrow> bit v (min (n - 1) j)"
      by (simp add: bit_signed_take_bit_iff)
    then show ?thesis unfolding sv .
  qed
  have bu: "bit u j \<longleftrightarrow> j < n \<and> bit v j" if "j < 32" for j
    unfolding u_def bit_getbitu [OF that] bitat_setbitu [OF assms(1,2)]
    using that n(1,2) unfolding n_def by (auto simp: bit_word_of_int_iff)
  have sw: "sint (word_of_int v :: u32) = v"
  proof -
    have "(2::int) ^ (n - 1) \<le> 2 ^ 31"
      using n(2) by (intro power_increasing) simp_all
    then have "- (2 ^ 31) \<le> v" "v < 2 ^ 31"
      using assms(3,4) unfolding n_def by linarith+
    then have "signed_take_bit 31 v = v"
      by (simp add: signed_take_bit_int_eq_self)
    then show ?thesis by (simp add: sint_sbintrunc')
  qed
  have hi: "bit v j \<longleftrightarrow> bit v (n - 1)" if "n \<le> j" for j
  proof -
    have "min (n - 1) j = n - 1" using that by simp
    then show ?thesis using bv [of j] by simp
  qed
  have eq_pos: "u = word_of_int v" if "\<not> bit v (n - 1)"
  proof (rule bit_word_eqI)
    fix j assume "j < LENGTH(32)"
    then have j: "j < 32" by simp
    show "bit u j \<longleftrightarrow> bit (word_of_int v :: u32) j"
    proof (cases "j < n")
      case True
      then show ?thesis unfolding bu [OF j] using j by (simp add: bit_word_of_int_iff)
    next
      case False
      then have "\<not> bit v j" using hi [of j] that by simp
      then show ?thesis unfolding bu [OF j] using False by (simp add: bit_word_of_int_iff)
    qed
  qed
  have eq_neg: "u OR push_bit n (NOT 0) = word_of_int v" if "bit v (n - 1)"
  proof (rule bit_word_eqI)
    fix j assume "j < LENGTH(32)"
    then have j: "j < 32" by simp
    show "bit (u OR push_bit n (NOT 0)) j \<longleftrightarrow> bit (word_of_int v :: u32) j"
    proof (cases "j < n")
      case True
      then show ?thesis unfolding bit_or_iff bu [OF j] using j
        by (simp add: bit_word_of_int_iff bit_simps)
    next
      case False
      then have "bit v j" using hi [of j] that by simp
      then show ?thesis unfolding bit_or_iff bu [OF j] using False j
        by (simp add: bit_word_of_int_iff bit_simps)
    qed
  qed
  have top: "u AND push_bit (n - 1) 1 = 0 \<longleftrightarrow> \<not> bit v (n - 1)"
    using and_mask_bit [of u "n - 1"] bu [of "n - 1"] n(1,2) by auto
  have l1: "nat (len - 1) = n - 1" "nat len = n" by (simp_all add: n_def nat_diff_distrib)
  have g: "getbits (setbitu buff pos len (word_of_int v)) pos len =
      (if 32 \<le> len \<or> u AND push_bit (n - 1) 1 = 0 then sint u
       else sint (u OR push_bit n (NOT 0)))"
    unfolding getbits_def u_def [symmetric] Let_def l1 using assms(1) by simp
  show ?thesis
  proof (cases "bit v (n - 1)")
    case False
    have "u AND push_bit (n - 1) 1 = 0" using top False by simp
    then have "getbits (setbitu buff pos len (word_of_int v)) pos len = sint u"
      unfolding g by simp
    then show ?thesis unfolding eq_pos [OF False] sw .
  next
    case True
    show ?thesis
    proof (cases "32 \<le> len")
      case True
      then have n32: "n = 32" using assms(2) unfolding n_def by simp
      have "u = word_of_int v"
      proof (rule bit_word_eqI)
        fix j assume "j < LENGTH(32)"
        then have j: "j < 32" by simp
        show "bit u j \<longleftrightarrow> bit (word_of_int v :: u32) j"
          unfolding bu [OF j] using j n32 by (simp add: bit_word_of_int_iff)
      qed
      then show ?thesis unfolding g using sw True by simp
    next
      case False
      have "u AND push_bit (n - 1) 1 \<noteq> 0" using top True by simp
      then have "getbits (setbitu buff pos len (word_of_int v)) pos len
          = sint (u OR push_bit n (NOT 0))"
        unfolding g using False by simp
      then show ?thesis unfolding eq_neg [OF True] sw .
    qed
  qed
qed

lemma getbitu_long:
  assumes "32 < len"
  shows "getbitu buff pos len = getbitu buff (pos + nat len - 32) 32"
proof (rule bit_word_eqI)
  fix j assume "j < LENGTH(32)"
  then have j: "j < 32" by simp
  show "bit (getbitu buff pos len) j = bit (getbitu buff (pos + nat len - 32) 32) j"
    unfolding bit_getbitu [OF j] using assms j by auto
qed

lemma getbitu_nonpos: "len \<le> 0 \<Longrightarrow> getbitu buff pos len = 0"
  by (simp add: getbitu_def)

text \<open>
  Claim C5.  For every bit position and every length from 1 to 32: an unsigned value below
  \<open>2 ^ len\<close> written by \<open>setbitu\<close> is read back by \<open>getbitu\<close>, and a signed value in
  \<open>[- 2 ^ (len - 1), 2 ^ (len - 1))\<close>, written by \<open>setbitu\<close> as its two's complement (the
  source has no other writer for signed data), is read back by \<open>getbits\<close>.
\<close>

theorem bitfield_roundtrip:
  assumes "1 \<le> len" and "len \<le> 32"
  shows "(uint v < 2 ^ nat len \<longrightarrow> getbitu (setbitu buff pos len v) pos len = v) \<and>
         (- (2 ^ (nat len - 1)) \<le> s \<and> s < 2 ^ (nat len - 1) \<longrightarrow>
            getbits (setbitu buff pos len (word_of_int s)) pos len = s)"
  using assms by (simp add: getbitu_setbitu getbits_setbitu)

theorem bitfield_roundtrip_witness:
  "(1::int) \<le> 7 \<and> (7::int) \<le> 32 \<and> uint (100 :: u32) < 2 ^ nat 7 \<and>
   - (2 ^ (nat 7 - 1)) \<le> (- 3 :: int) \<and> (- 3 :: int) < 2 ^ (nat 7 - 1) \<and>
   getbitu (setbitu (buffer_of [0x55, 0x55, 0x55]) 5 7 100) 5 7 = 100 \<and>
   getbits (setbitu (buffer_of [0x55, 0x55, 0x55]) 5 7 (word_of_int (- 3))) 5 7 = - 3"
  using bitfield_roundtrip [of 7 100 "buffer_of [0x55, 0x55, 0x55]" 5 "- 3"] by simp

text \<open>
  Claim C8, as the code has it.  A length below 1 makes both readers return zero, whatever
  the buffer holds.  A length above 32 is not guarded: \<open>getbitu\<close> runs its loop \<open>len\<close>
  times and returns the last 32 bits of the field, and \<open>getbits\<close> returns the same word as a
  signed number.
\<close>

theorem getbit_len_out_of_range:
  "(len \<le> 0 \<longrightarrow> getbitu buff pos len = 0 \<and> getbits buff pos len = 0) \<and>
   (32 < len \<longrightarrow> getbitu buff pos len = getbitu buff (pos + nat len - 32) 32 \<and>
                  getbits buff pos len = sint (getbitu buff pos len))"
  by (simp add: getbitu_nonpos getbitu_long getbits_def)

theorem getbit_len_out_of_range_witness:
  "(0::int) \<le> 0 \<and> (32::int) < 33 \<and>
   getbitu (buffer_of [0xA5, 0x5A]) 3 0 = 0 \<and> getbits (buffer_of [0xA5, 0x5A]) 3 0 = 0 \<and>
   getbitu (buffer_of [1, 2, 3, 4, 5]) 0 33 = getbitu (buffer_of [1, 2, 3, 4, 5]) (0 + nat 33 - 32) 32 \<and>
   getbits (buffer_of [1, 2, 3, 4, 5]) 0 33 = sint (getbitu (buffer_of [1, 2, 3, 4, 5]) 0 33)"
  using getbit_len_out_of_range [of 0 "buffer_of [0xA5, 0x5A]" 3]
        getbit_len_out_of_range [of 33 "buffer_of [1, 2, 3, 4, 5]" 0]
  by simp

text \<open>
  The claim C8 as the specification states it fails for a length above 32: on a buffer of
  ones, 33 bits from position 0 read as \<open>0xFFFFFFFF\<close>, and as -1 signed.
\<close>

theorem getbit_len_33_counterexample:
  "getbitu (buffer_of [0xFF, 0xFF, 0xFF, 0xFF, 0xFF]) 0 33 = 0xFFFFFFFF \<and>
   getbits (buffer_of [0xFF, 0xFF, 0xFF, 0xFF, 0xFF]) 0 33 = - 1"
  by code_simp

section \<open>The stream framer\<close>

lemma write_at_Nil: "write_at buff k [] = buff"
  by (auto simp: write_at_def fun_eq_iff)

lemma write_at_Cons: "write_at buff k (b # bs) = write_at (buff(k := b)) (Suc k) bs"
  by (auto simp: write_at_def fun_eq_iff nth_Cons')

lemma write_at_append: "write_at buff k (as @ bs) = write_at (write_at buff k as) (k + length as) bs"
  by (auto simp: write_at_def fun_eq_iff nth_append)

lemma getbitu_cong:
  assumes "\<And>k. pos \<le> k \<Longrightarrow> k < pos + nat len \<Longrightarrow> bitat b1 k = bitat b2 k"
  shows "getbitu b1 pos len = getbitu b2 pos len"
proof (rule bit_word_eqI)
  fix j assume "j < LENGTH(32)"
  then have j: "j < 32" by simp
  show "bit (getbitu b1 pos len) j = bit (getbitu b2 pos len) j"
    unfolding bit_getbitu [OF j] using assms [of "pos + nat len - 1 - j"] by auto
qed

lemma getbitu_cong_bytes:
  assumes "\<And>k. pos div 8 \<le> k \<Longrightarrow> k \<le> (pos + nat len - 1) div 8 \<Longrightarrow> b1 k = b2 k"
  shows "getbitu b1 pos len = getbitu b2 pos len"
proof (rule getbitu_cong)
  fix k assume "pos \<le> k" "k < pos + nat len"
  then have "pos div 8 \<le> k div 8" "k div 8 \<le> (pos + nat len - 1) div 8"
    by (simp_all add: div_le_mono)
  then show "bitat b1 k = bitat b2 k" unfolding bitat_def using assms by simp
qed

lemma crc24q_loop_cong:
  "(\<And>k. i \<le> k \<Longrightarrow> k < i + n \<Longrightarrow> b1 k = b2 k) \<Longrightarrow>
   crc24q_loop b1 i n crc = crc24q_loop b2 i n crc"
proof (induction n arbitrary: i crc)
  case 0
  then show ?case by simp
next
  case (Suc n)
  have "b1 i = b2 i" using Suc.prems [of i] by simp
  moreover have "crc24q_loop b1 (Suc i) n c = crc24q_loop b2 (Suc i) n c" for c
    by (rule Suc.IH) (use Suc.prems in simp)
  ultimately show ?case by simp
qed

lemma rtk_crc24q_cong:
  "(\<And>k. k < nat len \<Longrightarrow> b1 k = b2 k) \<Longrightarrow> rtk_crc24q b1 len = rtk_crc24q b2 len"
  unfolding rtk_crc24q_def by (rule crc24q_loop_cong) simp

lemma input_rtcm3_mid:
  assumes "3 \<le> rtcm_nbyte s" "rtcm_nbyte s + 1 < rtcm_len s + 3"
  shows "input_rtcm3 dec s b =
    (0, s\<lparr>rtcm_buff := (rtcm_buff s)(nat (rtcm_nbyte s) := b), rtcm_nbyte := rtcm_nbyte s + 1\<rparr>)"
  using assms by (simp add: input_rtcm3_def Let_def)

lemma input_bytes_mid:
  "3 \<le> rtcm_nbyte s \<Longrightarrow> rtcm_nbyte s + int (length bs) < rtcm_len s + 3 \<Longrightarrow>
   input_bytes dec s bs =
     (replicate (length bs) 0,
      s\<lparr>rtcm_buff := write_at (rtcm_buff s) (nat (rtcm_nbyte s)) bs,
        rtcm_nbyte := rtcm_nbyte s + int (length bs)\<rparr>)"
proof (induction bs arbitrary: s)
  case Nil
  then show ?case by (simp add: write_at_Nil)
next
  case (Cons b bs)
  let ?s1 = "s\<lparr>rtcm_buff := (rtcm_buff s)(nat (rtcm_nbyte s) := b), rtcm_nbyte := rtcm_nbyte s + 1\<rparr>"
  have st: "input_rtcm3 dec s b = (0, ?s1)"
    by (rule input_rtcm3_mid) (use Cons.prems in simp_all)
  have ih: "input_bytes dec ?s1 bs =
     (replicate (length bs) 0,
      ?s1\<lparr>rtcm_buff := write_at (rtcm_buff ?s1) (nat (rtcm_nbyte ?s1)) bs,
        rtcm_nbyte := rtcm_nbyte ?s1 + int (length bs)\<rparr>)"
    by (rule Cons.IH) (use Cons.prems in simp_all)
  have n: "nat (rtcm_nbyte s + 1) = Suc (nat (rtcm_nbyte s))"
    using Cons.prems by simp
  show ?case
    using st ih by (simp add: write_at_Cons n add.assoc)
qed


lemma input_bytes_append:
  "input_bytes dec s (as @ bs) =
     (let (sa, s1) = input_bytes dec s as; (sb, s2) = input_bytes dec s1 bs in (sa @ sb, s2))"
  by (induction as arbitrary: s) (auto simp: Let_def split: prod.splits)

lemma input_rtcm3_head:
  assumes "rtcm_nbyte r = 0" "0 \<le> L"
    and "L = uint (getbitu (buffer_of (RTCM3PREAMB # b1 # b2 # rest)) 14 10)"
  shows "input_bytes dec r [RTCM3PREAMB, b1, b2] =
     ([0, 0, 0], r\<lparr>rtcm_buff := write_at (rtcm_buff r) 0 [RTCM3PREAMB, b1, b2],
                   rtcm_nbyte := 3, rtcm_len := L + 3\<rparr>)"
proof -
  let ?b = "write_at (rtcm_buff r) 0 [RTCM3PREAMB, b1, b2]"
  have b: "(rtcm_buff r)(0 := RTCM3PREAMB, Suc 0 := b1, 2 := b2) = ?b"
    by (auto simp: write_at_def fun_eq_iff nth_Cons' numeral_2_eq_2)
  have "getbitu ?b 14 10 = getbitu (buffer_of (RTCM3PREAMB # b1 # b2 # rest)) 14 10"
    by (rule getbitu_cong_bytes) (auto simp: write_at_def buffer_of_def nth_Cons' le_Suc_eq)
  then have g: "uint (getbitu ?b 14 10) = L" using assms(3) by simp
  show ?thesis
    using assms(1,2) by (simp add: input_rtcm3_def Let_def b g)
qed


lemma input_rtcm3_last:
  assumes "3 \<le> rtcm_nbyte s" "rtcm_nbyte s + 1 = rtcm_len s + 3"
  shows "input_rtcm3 dec s b =
    (let s' = s\<lparr>rtcm_buff := (rtcm_buff s)(nat (rtcm_nbyte s) := b), rtcm_nbyte := 0\<rparr> in
     if rtk_crc24q (rtcm_buff s') (rtcm_len s) \<noteq> getbitu (rtcm_buff s') (nat (rtcm_len s * 8)) 24
     then (0, s') else dec s')"
  using assms by (simp add: input_rtcm3_def Let_def)

lemma framed_buff0: "rtcm_buff r = (\<lambda>_. 0) \<Longrightarrow> rtcm_buff (framed r fr) = buffer_of fr"
  by (auto simp: framed_def write_at_def buffer_of_def)


text \<open>
  Claim C1.  From the idle state the framer is fed a whole frame: the preamble, two header
  bytes whose low ten bits are the payload length \<open>L\<close>, and \<open>L + 3\<close> further bytes.
  Every call but the last returns 0.  The last call passes the frame to the dispatcher if
  the 24 bits behind the first \<open>L + 3\<close> bytes equal the CRC-24Q of these bytes, and its
  status and control record are the dispatcher's; otherwise it returns 0 and leaves the
  control record \<open>framed r frame\<close>, whose byte counter is 0, whatever the dispatcher is.
\<close>

theorem input_rtcm3_crc_gate:
  assumes idle: "rtcm_nbyte r = 0"
    and frame: "frame = RTCM3PREAMB # b1 # b2 # rest"
    and L: "L = uint (getbitu (buffer_of frame) 14 10)"
    and len: "length rest = nat L + 3"
  shows "input_bytes dec r frame =
     (if rtk_crc24q (buffer_of frame) (L + 3) = getbitu (buffer_of frame) (nat ((L + 3) * 8)) 24
      then (replicate (nat L + 5) 0 @ [fst (dec (framed r frame))], snd (dec (framed r frame)))
      else (replicate (nat L + 6) 0, framed r frame))"
proof -
  have L0: "0 \<le> L" unfolding L by simp
  obtain mid lastb where rest: "rest = mid @ [lastb]"
    using len by (metis add_is_0 length_0_conv rev_exhaust zero_neq_numeral)
  have lm: "length mid = nat L + 2" using len rest by simp
  let ?hd = "[RTCM3PREAMB, b1, b2]"
  let ?s3 = "r\<lparr>rtcm_buff := write_at (rtcm_buff r) 0 ?hd, rtcm_nbyte := 3, rtcm_len := L + 3\<rparr>"
  have h: "input_bytes dec r ?hd = ([0, 0, 0], ?s3)"
    using input_rtcm3_head [OF idle L0 L [unfolded frame]] .
  let ?s4 = "?s3\<lparr>rtcm_buff := write_at (rtcm_buff ?s3) (nat (rtcm_nbyte ?s3)) mid,
                     rtcm_nbyte := rtcm_nbyte ?s3 + int (length mid)\<rparr>"
  have m: "input_bytes dec ?s3 mid = (replicate (length mid) 0, ?s4)"
    by (rule input_bytes_mid) (use lm L0 in simp_all)
  have fl: "length frame = nat L + 6" using frame len by simp
  have wb: "write_at (rtcm_buff r) 0 frame = (write_at (write_at (rtcm_buff r) 0 ?hd) 3 mid)(nat L + 5 := lastb)"
    unfolding frame rest using lm
    by (auto simp: write_at_def fun_eq_iff nth_Cons' nth_append numeral_3_eq_3)
  let ?s5 = "?s4\<lparr>rtcm_buff := (rtcm_buff ?s4)(nat (rtcm_nbyte ?s4) := lastb), rtcm_nbyte := 0\<rparr>"
  have s5: "?s5 = framed r frame"
    using L0 lm fl by (simp add: framed_def wb nat_add_distrib add.commute)
  have c1: "rtk_crc24q (write_at (rtcm_buff r) 0 frame) (L + 3) = rtk_crc24q (buffer_of frame) (L + 3)"
    by (rule rtk_crc24q_cong) (use L0 fl in \<open>auto simp: write_at_def buffer_of_def nat_add_distrib\<close>)
  have c2: "getbitu (write_at (rtcm_buff r) 0 frame) (nat ((L + 3) * 8)) 24
      = getbitu (buffer_of frame) (nat ((L + 3) * 8)) 24"
  proof (rule getbitu_cong_bytes)
    fix k assume "k \<le> (nat ((L + 3) * 8) + nat 24 - 1) div 8"
    moreover have "nat ((L + 3) * 8) = (nat L + 3) * 8" using L0 by (simp add: nat_add_distrib nat_mult_distrib)
    ultimately have "k < nat L + 6" by simp
    then show "write_at (rtcm_buff r) 0 frame k = buffer_of frame k"
      using fl by (simp add: write_at_def buffer_of_def)
  qed
  have l: "input_rtcm3 dec ?s4 lastb =
      (if rtk_crc24q (buffer_of frame) (L + 3) \<noteq> getbitu (buffer_of frame) (nat ((L + 3) * 8)) 24
       then (0, framed r frame) else dec (framed r frame))"
  proof -
    have "input_rtcm3 dec ?s4 lastb =
      (let s' = ?s5 in
       if rtk_crc24q (rtcm_buff s') (rtcm_len ?s4) \<noteq> getbitu (rtcm_buff s') (nat (rtcm_len ?s4 * 8)) 24
       then (0, s') else dec s')"
      by (rule input_rtcm3_last) (use lm L0 in simp_all)
    also have "\<dots> =
      (if rtk_crc24q (buffer_of frame) (L + 3) \<noteq> getbitu (buffer_of frame) (nat ((L + 3) * 8)) 24
       then (0, framed r frame) else dec (framed r frame))"
    proof -
      have b: "rtcm_buff (framed r frame) = write_at (rtcm_buff r) 0 frame"
        by (simp add: framed_def)
      have l4: "rtcm_len ?s4 = L + 3" by simp
      show ?thesis unfolding s5 Let_def b l4 c1 c2 ..
    qed
    finally show ?thesis .
  qed
  have fr: "frame = ?hd @ (mid @ [lastb])" using frame rest by simp
  have e3: "input_bytes dec ?s4 [lastb] =
      ([fst (input_rtcm3 dec ?s4 lastb)], snd (input_rtcm3 dec ?s4 lastb))"
    by (simp add: Let_def split: prod.splits)
  have e: "input_bytes dec r frame =
      ([0, 0, 0] @ replicate (length mid) 0 @ [fst (input_rtcm3 dec ?s4 lastb)],
       snd (input_rtcm3 dec ?s4 lastb))"
    by (subst fr) (simp only: input_bytes_append h m e3 Let_def prod.case)
  have rp: "replicate (nat L + 6) (0::int) = [0, 0, 0] @ replicate (length mid) 0 @ [0]"
           "replicate (nat L + 5) (0::int) = [0, 0, 0] @ replicate (length mid) 0"
    unfolding lm by (simp_all add: replicate_append_same numeral_eq_Suc)
  show ?thesis
    unfolding e l rp by simp
qed

theorem input_rtcm3_crc_gate_witness:
  "rtcm_nbyte rtcm0 = 0 \<and>
   frame1005_badcrc = RTCM3PREAMB # 0x00 # 0x13 # drop 3 frame1005_badcrc \<and>
   (19::int) = uint (getbitu (buffer_of frame1005_badcrc) 14 10) \<and>
   length (drop 3 frame1005_badcrc) = nat 19 + 3 \<and>
   rtk_crc24q (buffer_of frame1005_badcrc) (19 + 3)
     \<noteq> getbitu (buffer_of frame1005_badcrc) (nat ((19 + 3) * 8)) 24 \<and>
   input_bytes decode_type1005 rtcm0 frame1005_badcrc
     = (replicate (nat 19 + 6) 0, framed rtcm0 frame1005_badcrc) \<and>
   rtcm_nbyte (framed rtcm0 frame1005_badcrc) = 0"
proof -
  have h1: "rtcm_nbyte rtcm0 = 0" by (simp add: rtcm0_def)
  have h2: "frame1005_badcrc = RTCM3PREAMB # 0x00 # 0x13 # drop 3 frame1005_badcrc"
    by (simp add: frame1005_badcrc_def RTCM3PREAMB_def)
  have h3: "(19::int) = uint (getbitu (buffer_of frame1005_badcrc) 14 10)" by code_simp
  have h4: "length (drop 3 frame1005_badcrc) = nat 19 + 3"
    by (simp add: frame1005_badcrc_def)
  have c: "rtk_crc24q (buffer_of frame1005_badcrc) (19 + 3)
     \<noteq> getbitu (buffer_of frame1005_badcrc) (nat ((19 + 3) * 8)) 24"
    by code_simp
  show ?thesis
    using input_rtcm3_crc_gate [OF h1 h2 h3 h4, of decode_type1005] h1 h2 h3 h4 c
    by (simp add: framed_def)
qed

section \<open>The MSM header\<close>

lemma getbitu_1: "getbitu buff i 1 = of_bool (bitat buff i)"
  by (rule bit_word_eqI) (auto simp: bit_getbitu bit_simps)

lemma getbitu_1_neq0: "getbitu buff i 1 \<noteq> 0 \<longleftrightarrow> bitat buff i"
  by (simp add: getbitu_1)

lemma mask_count_0: "mask_count buff pos 0 = 0"
  by (simp add: mask_count_def)

lemma mask_count_Suc:
  "mask_count buff pos (Suc n) = (if bitat buff pos then 1 else 0) + mask_count buff (Suc pos) n"
proof -
  have "[0..<Suc n] = 0 # map Suc [0..<n]"
    by (simp add: upt_conv_Cons map_Suc_upt del: upt_Suc)
  then show ?thesis
    by (simp add: mask_count_def filter_map comp_def del: upt_Suc)
qed

lemma mask_count_le: "mask_count buff pos n \<le> n"
  unfolding mask_count_def by (metis length_filter_le length_upt diff_zero)

lemma sats_loop_props:
  "msm_nsat (sats_loop buff i j n h) = msm_nsat h + int (mask_count buff i n) \<and>
   msm_nsig (sats_loop buff i j n h) = msm_nsig h \<and>
   msm_cellmask (sats_loop buff i j n h) = msm_cellmask h"
  by (induction n arbitrary: i j h) (auto simp: getbitu_1 mask_count_0 mask_count_Suc)

lemma sigs_loop_props:
  "msm_nsig (sigs_loop buff i j n h) = msm_nsig h + int (mask_count buff i n) \<and>
   msm_nsat (sigs_loop buff i j n h) = msm_nsat h \<and>
   msm_cellmask (sigs_loop buff i j n h) = msm_cellmask h"
  by (induction n arbitrary: i j h) (auto simp: getbitu_1 mask_count_0 mask_count_Suc)

lemma cell_loop_props:
  "cell_loop buff i j n (h, c) = (h', c') \<Longrightarrow>
   c' = c + int (mask_count buff i n) \<and>
   msm_nsat h' = msm_nsat h \<and> msm_nsig h' = msm_nsig h \<and>
   (\<forall>k. msm_cellmask h' k =
      (if j \<le> k \<and> k < j + n then (if bitat buff (i + (k - j)) then 1 else 0)
       else msm_cellmask h k))"
proof (induction n arbitrary: i j h c)
  case 0
  then show ?case by (auto simp: mask_count_0)
next
  case (Suc n)
  let ?h1 = "h\<lparr>msm_cellmask := (msm_cellmask h)(j := uint (getbitu buff i 1))\<rparr>"
  let ?c1 = "if msm_cellmask ?h1 j \<noteq> 0 then c + 1 else c"
  have "cell_loop buff (i + 1) (j + 1) n (?h1, ?c1) = (h', c')"
    using Suc.prems by (simp add: Let_def)
  from Suc.IH [OF this] have ih:
    "c' = ?c1 + int (mask_count buff (i + 1) n)"
    "msm_nsat h' = msm_nsat ?h1" "msm_nsig h' = msm_nsig ?h1"
    "\<And>k. msm_cellmask h' k =
      (if j + 1 \<le> k \<and> k < j + 1 + n then (if bitat buff (i + 1 + (k - (j + 1))) then 1 else 0)
       else msm_cellmask ?h1 k)"
    by blast+
  have cm: "msm_cellmask h' k =
      (if j \<le> k \<and> k < j + Suc n then (if bitat buff (i + (k - j)) then 1 else 0)
       else msm_cellmask h k)" for k
  proof (cases "j + 1 \<le> k")
    case True
    then have "i + 1 + (k - (j + 1)) = i + (k - j)" by simp
    then show ?thesis using True ih(4) [of k] by simp
  next
    case False
    then show ?thesis using ih(4) [of k] by (auto simp: getbitu_1)
  qed
  show ?case
    using ih(1,2,3) cm by (simp add: getbitu_1 mask_count_Suc)
qed

lemma test_staid_frame:
  "test_staid r staid = (ok, r') \<Longrightarrow> \<exists>k. r' = r\<lparr>rtcm_staid := k\<rparr>"
  by (auto simp: test_staid_def Let_def split: if_splits intro: exI [of _ "rtcm_staid r"])

lemma adjweek_frame: "\<exists>t. adjweek now r tow = r\<lparr>rtcm_time := t\<rparr>"
  by (auto simp: adjweek_def Let_def split: prod.splits)

lemma adjday_glot_frame: "\<exists>t. adjday_glot now r tod = r\<lparr>rtcm_time := t\<rparr>"
  by (auto simp: adjday_glot_def Let_def split: prod.splits)

lemma msm_masks_counts:
  "msm_nsat (msm_masks buff) = int (mask_count buff 97 64)"
  "msm_nsig (msm_masks buff) = int (mask_count buff 161 32)"
  by (simp_all add: msm_masks_def sats_loop_props sigs_loop_props h0_def)

lemma decode_msm_head_short:
  "\<not> 193 \<le> rtcm_len rtcm * 8 \<Longrightarrow> decode_msm_head now rtcm sys = (- 1, 0, 0, h0, 0, rtcm)"
  by (simp add: decode_msm_head_def Let_def)

lemma msm_epoch_frame: "\<exists>t. msm_epoch now r sys i = r\<lparr>rtcm_time := t\<rparr>"
  unfolding msm_epoch_def Let_def using adjweek_frame adjday_glot_frame by simp

lemma decode_msm_head_long:
  assumes "193 \<le> rtcm_len rtcm * 8"
    and "msm_epoch now rtcm sys 48 = r1"
    and "test_staid r1 (uint (getbitu (rtcm_buff rtcm) 36 12)) = (ok, r2)"
    and "rtcm_len r2 = rtcm_len rtcm"
  shows "decode_msm_head now rtcm sys =
    (let buff = rtcm_buff rtcm; h7 = msm_masks buff;
         sync = uint (getbitu buff 78 1); iod = uint (getbitu buff 79 3) in
     if ok = 0 then (- 1, sync, iod, h7, 0, r2)
     else if msm_nsat h7 * msm_nsig h7 > 64 then (- 1, sync, iod, h7, 0, r2)
     else if 193 + msm_nsat h7 * msm_nsig h7 > rtcm_len rtcm * 8 then (- 1, sync, iod, h7, 0, r2)
     else
       let (h8, ncell) = cell_loop buff 193 0 (nat (msm_nsat h7 * msm_nsig h7)) (h7, 0)
       in (ncell, sync, iod, h8, 193 + nat (msm_nsat h7 * msm_nsig h7), r2))"
  using assms unfolding decode_msm_head_def msm_masks_def by (simp add: Let_def)

lemma test_staid_keeps:
  assumes "test_staid r staid = (ok, r')"
  shows "rtcm_len r' = rtcm_len r" "rtcm_obs_n r' = rtcm_obs_n r"
    "rtcm_obs_data r' = rtcm_obs_data r" "rtcm_buff r' = rtcm_buff r"
    "rtcm_sta r' = rtcm_sta r" "rtcm_time r' = rtcm_time r" "rtcm_nav_eph r' = rtcm_nav_eph r"
  using test_staid_frame [OF assms] by auto

lemma msm_epoch_keeps:
  "rtcm_len (msm_epoch now r sys i) = rtcm_len r"
  "rtcm_obs_n (msm_epoch now r sys i) = rtcm_obs_n r"
  "rtcm_obs_data (msm_epoch now r sys i) = rtcm_obs_data r"
  "rtcm_buff (msm_epoch now r sys i) = rtcm_buff r"
  "rtcm_sta (msm_epoch now r sys i) = rtcm_sta r"
  "rtcm_nav_eph (msm_epoch now r sys i) = rtcm_nav_eph r"
  using msm_epoch_frame [of now r sys i] by auto

lemma cellmask_count:
  assumes "\<And>k. k < n \<Longrightarrow> cm k = (if bitat buff (pos + k) then 1 else (0::int))"
  shows "length (filter (\<lambda>k. cm k \<noteq> 0) [0..<n]) = mask_count buff pos n"
proof -
  have "filter (\<lambda>k. cm k \<noteq> 0) [0..<n] = filter (\<lambda>k. bitat buff (pos + k)) [0..<n]"
    by (rule filter_cong) (use assms in auto)
  then show ?thesis by (simp add: mask_count_def)
qed

lemma decode_msm_head_accept:
  assumes d: "decode_msm_head now rtcm sys = (ncell, sync, iod, h, hsize, r')"
    and nn: "0 \<le> ncell"
  shows "msm_nsat h = int (mask_count (rtcm_buff rtcm) 97 64)"
    and "msm_nsig h = int (mask_count (rtcm_buff rtcm) 161 32)"
    and "msm_nsat h * msm_nsig h \<le> 64"
    and "ncell = int (length (filter (\<lambda>k. msm_cellmask h k \<noteq> 0) [0..<nat (msm_nsat h * msm_nsig h)]))"
    and "ncell = int (mask_count (rtcm_buff rtcm) 193 (nat (msm_nsat h * msm_nsig h)))"
proof -
  let ?buff = "rtcm_buff rtcm"
  let ?h7 = "msm_masks ?buff"
  let ?n = "nat (msm_nsat ?h7 * msm_nsig ?h7)"
  have long: "193 \<le> rtcm_len rtcm * 8"
    using d nn decode_msm_head_short [of rtcm now sys] by (cases "193 \<le> rtcm_len rtcm * 8") auto
  obtain ok r2 where ts: "test_staid (msm_epoch now rtcm sys 48) (uint (getbitu ?buff 36 12)) = (ok, r2)"
    by (cases "test_staid (msm_epoch now rtcm sys 48) (uint (getbitu ?buff 36 12))")
  have l2: "rtcm_len r2 = rtcm_len rtcm"
    using test_staid_keeps(1) [OF ts] by (simp add: msm_epoch_keeps)
  note eq = decode_msm_head_long [OF long refl ts l2, unfolded Let_def]
  have c: "ok \<noteq> 0" "\<not> msm_nsat ?h7 * msm_nsig ?h7 > 64"
    using d nn unfolding eq by (auto split: if_splits)
  obtain h8 nc where cl: "cell_loop ?buff 193 0 ?n (?h7, 0) = (h8, nc)"
    by (cases "cell_loop ?buff 193 0 ?n (?h7, 0)")
  have r: "ncell = nc" "h = h8"
    using d nn c unfolding eq cl by (auto split: if_splits)
  note p = cell_loop_props [OF cl]
  have nh: "msm_nsat h = msm_nsat ?h7" "msm_nsig h = msm_nsig ?h7"
    using p r by simp_all
  show "msm_nsat h = int (mask_count ?buff 97 64)" "msm_nsig h = int (mask_count ?buff 161 32)"
    unfolding nh by (simp_all add: msm_masks_counts)
  show "msm_nsat h * msm_nsig h \<le> 64" unfolding nh using c(2) by simp
  show m: "ncell = int (mask_count ?buff 193 (nat (msm_nsat h * msm_nsig h)))"
    unfolding nh using p r by simp
  have "length (filter (\<lambda>k. msm_cellmask h k \<noteq> 0) [0..<?n]) = mask_count ?buff 193 ?n"
    by (rule cellmask_count) (use p r in simp)
  then show "ncell = int (length (filter (\<lambda>k. msm_cellmask h k \<noteq> 0) [0..<nat (msm_nsat h * msm_nsig h)]))"
    using m unfolding nh by simp
qed

lemma decode_msm_head_keeps:
  assumes d: "decode_msm_head now rtcm sys = (ncell, sync, iod, h, hsize, r')"
  shows "rtcm_obs_n r' = rtcm_obs_n rtcm" "rtcm_obs_data r' = rtcm_obs_data rtcm"
    "rtcm_len r' = rtcm_len rtcm" "rtcm_buff r' = rtcm_buff rtcm" "rtcm_sta r' = rtcm_sta rtcm"
    "rtcm_nav_eph r' = rtcm_nav_eph rtcm"
proof -
  let ?buff = "rtcm_buff rtcm"
  obtain ok r2 where ts: "test_staid (msm_epoch now rtcm sys 48) (uint (getbitu ?buff 36 12)) = (ok, r2)"
    by (cases "test_staid (msm_epoch now rtcm sys 48) (uint (getbitu ?buff 36 12))")
  note k = test_staid_keeps [OF ts, unfolded msm_epoch_keeps]
  have "r' = rtcm \<or> r' = r2"
  proof (cases "193 \<le> rtcm_len rtcm * 8")
    case False
    then show ?thesis using d decode_msm_head_short [of rtcm now sys] by simp
  next
    case True
    show ?thesis
      using d unfolding decode_msm_head_long [OF True refl ts k(1), unfolded Let_def]
      by (auto split: if_splits prod.splits)
  qed
  then show "rtcm_obs_n r' = rtcm_obs_n rtcm" "rtcm_obs_data r' = rtcm_obs_data rtcm"
    "rtcm_len r' = rtcm_len rtcm" "rtcm_buff r' = rtcm_buff rtcm" "rtcm_sta r' = rtcm_sta rtcm"
    "rtcm_nav_eph r' = rtcm_nav_eph rtcm"
    using k by auto
qed

lemma decode_msm_head_too_many:
  assumes d: "decode_msm_head now rtcm sys = (ncell, sync, iod, h, hsize, r')"
    and m: "64 < int (mask_count (rtcm_buff rtcm) 97 64) * int (mask_count (rtcm_buff rtcm) 161 32)"
  shows "ncell = - 1"
proof (rule ccontr)
  assume "ncell \<noteq> - 1"
  have "- 1 \<le> ncell"
  proof (cases "193 \<le> rtcm_len rtcm * 8")
    case False
    then show ?thesis using d decode_msm_head_short [of rtcm now sys] by simp
  next
    case True
    let ?buff = "rtcm_buff rtcm"
    let ?h7 = "msm_masks ?buff"
    obtain ok r2 where ts: "test_staid (msm_epoch now rtcm sys 48) (uint (getbitu ?buff 36 12)) = (ok, r2)"
      by (cases "test_staid (msm_epoch now rtcm sys 48) (uint (getbitu ?buff 36 12))")
    have l2: "rtcm_len r2 = rtcm_len rtcm"
      using test_staid_keeps(1) [OF ts] by (simp add: msm_epoch_keeps)
    have "msm_nsat ?h7 * msm_nsig ?h7 > 64" using m by (simp add: msm_masks_counts)
    then show ?thesis
      using d unfolding decode_msm_head_long [OF True refl ts l2, unfolded Let_def]
      by (auto split: if_splits)
  qed
  with \<open>ncell \<noteq> - 1\<close> have "0 \<le> ncell" by simp
  from decode_msm_head_accept(1,2,3) [OF d this] m show False by simp
qed

lemma decode_msm_data_reject:
  assumes "decode_msm_head now rtcm sys = (- 1, sync, iod, h, hsize, r')"
  shows "decode_msm_data satbits cellbits save now rtcm sys = (- 1, r')"
  using assms by (simp add: decode_msm_data_def)

text \<open>
  Claim C3.  The result of the MSM header decoder, for every frame and system.  When it
  accepts the header (\<open>ncell\<close> is not negative), \<open>nsat\<close> and \<open>nsig\<close> are the numbers of bits
  set in the satellite mask (64 bits from bit 97) and in the signal mask (32 bits from bit
  161), their product is at most 64, and \<open>ncell\<close> is the number of entries set among the
  first \<open>nsat * nsig\<close> entries of the cell mask, which are the bits from bit 193 on.  When
  the masks select more than 64 cells, the header decoder returns -1, and so do the four
  decoders MSM4 to MSM7, whatever their data part \<open>save\<close> is, with the observation buffer
  as it was.
\<close>

theorem decode_msm_head_cells:
  "case decode_msm_head now rtcm sys of (ncell, sync, iod, h, hsize, r') \<Rightarrow>
     (0 \<le> ncell \<longrightarrow>
        msm_nsat h = int (mask_count (rtcm_buff rtcm) 97 64) \<and>
        msm_nsig h = int (mask_count (rtcm_buff rtcm) 161 32) \<and>
        msm_nsat h * msm_nsig h \<le> 64 \<and>
        ncell = int (length (filter (\<lambda>k. msm_cellmask h k \<noteq> 0)
                       [0..<nat (msm_nsat h * msm_nsig h)])) \<and>
        ncell = int (mask_count (rtcm_buff rtcm) 193 (nat (msm_nsat h * msm_nsig h)))) \<and>
     (64 < int (mask_count (rtcm_buff rtcm) 97 64) * int (mask_count (rtcm_buff rtcm) 161 32) \<longrightarrow>
        ncell = - 1 \<and>
        decode_msm4 save now rtcm sys = (- 1, r') \<and>
        decode_msm5 save now rtcm sys = (- 1, r') \<and>
        decode_msm6 save now rtcm sys = (- 1, r') \<and>
        decode_msm7 save now rtcm sys = (- 1, r') \<and>
        rtcm_obs_n r' = rtcm_obs_n rtcm \<and> rtcm_obs_data r' = rtcm_obs_data rtcm)"
proof -
  obtain ncell sync iod h hsize r'
    where d: "decode_msm_head now rtcm sys = (ncell, sync, iod, h, hsize, r')"
    by (metis prod_cases6)
  have a: "msm_nsat h = int (mask_count (rtcm_buff rtcm) 97 64) \<and>
        msm_nsig h = int (mask_count (rtcm_buff rtcm) 161 32) \<and>
        msm_nsat h * msm_nsig h \<le> 64 \<and>
        ncell = int (length (filter (\<lambda>k. msm_cellmask h k \<noteq> 0)
                       [0..<nat (msm_nsat h * msm_nsig h)])) \<and>
        ncell = int (mask_count (rtcm_buff rtcm) 193 (nat (msm_nsat h * msm_nsig h)))"
    if "0 \<le> ncell"
    using decode_msm_head_accept [OF d that] by blast
  have b: "ncell = - 1 \<and>
        decode_msm4 save now rtcm sys = (- 1, r') \<and>
        decode_msm5 save now rtcm sys = (- 1, r') \<and>
        decode_msm6 save now rtcm sys = (- 1, r') \<and>
        decode_msm7 save now rtcm sys = (- 1, r') \<and>
        rtcm_obs_n r' = rtcm_obs_n rtcm \<and> rtcm_obs_data r' = rtcm_obs_data rtcm"
    if m: "64 < int (mask_count (rtcm_buff rtcm) 97 64) * int (mask_count (rtcm_buff rtcm) 161 32)"
  proof -
    have n: "ncell = - 1" using decode_msm_head_too_many [OF d m] .
    show ?thesis
      using decode_msm_data_reject [OF d [unfolded n]] decode_msm_head_keeps(1,2) [OF d] n
      by (simp add: decode_msm4_def decode_msm5_def decode_msm6_def decode_msm7_def)
  qed
  show ?thesis unfolding d prod.case using a b by blast
qed

theorem decode_msm_head_cells_witness:
  "(case decode_msm_head now0 (framed rtcm0 frame_msm4_part) SYS_GPS of
      (ncell, sync, iod, h, hsize, r') \<Rightarrow>
        0 \<le> ncell \<and> ncell = 4 \<and> msm_nsat h * msm_nsig h \<le> 64 \<and>
        ncell = int (length (filter (\<lambda>k. msm_cellmask h k \<noteq> 0)
                       [0..<nat (msm_nsat h * msm_nsig h)]))) \<and>
   64 < int (mask_count (rtcm_buff (framed rtcm0 frame_msm4_big)) 97 64)
        * int (mask_count (rtcm_buff (framed rtcm0 frame_msm4_big)) 161 32) \<and>
   fst (decode_msm4 save_skip now0 (framed rtcm0 frame_msm4_big) SYS_GPS) = - 1 \<and>
   fst (decode_msm7 save_skip now0 (framed rtcm0 frame_msm4_big) SYS_GPS) = - 1"
proof -
  have a: "fst (decode_msm_head now0 (framed rtcm0 frame_msm4_part) SYS_GPS) = 4"
    by code_simp
  have b: "64 < int (mask_count (rtcm_buff (framed rtcm0 frame_msm4_big)) 97 64)
        * int (mask_count (rtcm_buff (framed rtcm0 frame_msm4_big)) 161 32)"
    by code_simp
  show ?thesis
    using decode_msm_head_cells [where now = now0 and rtcm = "framed rtcm0 frame_msm4_part"
            and sys = SYS_GPS and save = save_skip]
          decode_msm_head_cells [where now = now0 and rtcm = "framed rtcm0 frame_msm4_big"
            and sys = SYS_GPS and save = save_skip]
          a b
    by (auto split: prod.splits)
qed

section \<open>The station id test and the station decoders\<close>

lemma test_staid_option:
  "opt_staid (rtcm_opt r) = Some n \<Longrightarrow> n \<noteq> staid \<Longrightarrow> test_staid r staid = (0, r)"
  by (auto simp: test_staid_def opt_staid_def split: option.splits)

lemma test_staid_no_option:
  "opt_staid (rtcm_opt r) = None \<or> opt_staid (rtcm_opt r) = Some staid \<Longrightarrow>
   test_staid r staid =
     (if rtcm_staid r = 0 \<or> rtcm_obsflag r \<noteq> 0 then (1, r\<lparr>rtcm_staid := staid\<rparr>)
      else if staid \<noteq> rtcm_staid r then (0, r\<lparr>rtcm_staid := 0\<rparr>)
      else (1, r))"
  by (auto simp: test_staid_def opt_staid_def split: option.splits)

lemma test_staid_cases:
  "test_staid r staid = (0, r) \<or> test_staid r staid = (0, r\<lparr>rtcm_staid := 0\<rparr>) \<or>
   test_staid r staid = (1, r\<lparr>rtcm_staid := staid\<rparr>) \<or> test_staid r staid = (1, r)"
  by (auto simp: test_staid_def Let_def)

lemma decode_type1005_len:
  "rtcm_len r \<noteq> 22 \<Longrightarrow> decode_type1005 r = (- 1, r)"
  by (simp add: decode_type1005_def Let_def)

lemma decode_type1005_staid:
  assumes "rtcm_len r = 22"
  shows "decode_type1005 r =
     (let (ok, r1) = test_staid r (uint (getbitu (rtcm_buff r) 36 12)) in
      if ok = 0 then (- 1, r1)
      else (5, r1\<lparr>rtcm_sta := (rtcm_sta r1)\<lparr>
                  sta_deltype := 0,
                  sta_pos := (sta_pos (rtcm_sta r1))
                     (0 := getbits_38 (rtcm_buff r) 58 * 0.0001,
                      1 := getbits_38 (rtcm_buff r) 98 * 0.0001,
                      2 := getbits_38 (rtcm_buff r) 138 * 0.0001),
                  sta_del := (sta_del (rtcm_sta r1))(0 := 0, 1 := 0, 2 := 0),
                  sta_hgt := 0,
                  sta_itrf := uint (getbitu (rtcm_buff r) 48 6)\<rparr>\<rparr>))"
  using assms by (simp add: decode_type1005_def Let_def split: prod.splits)

lemma decode_type1006_len:
  "rtcm_len r < 24 \<Longrightarrow> decode_type1006 r = (- 1, r)"
  by (simp add: decode_type1006_def Let_def)

lemma decode_type1006_status:
  "24 \<le> rtcm_len r \<Longrightarrow>
   fst (decode_type1006 r) = (if fst (test_staid r (uint (getbitu (rtcm_buff r) 36 12))) = 0 then - 1 else 5)"
  by (simp add: decode_type1006_def Let_def split: prod.splits)

lemma decode_type1005_status:
  "fst (decode_type1005 r) =
    (if rtcm_len r = 22 \<and> fst (test_staid r (uint (getbitu (rtcm_buff r) 36 12))) \<noteq> 0 then 5 else - 1)"
  by (simp add: decode_type1005_def Let_def split: prod.splits)


lemma decode_type1006_staid:
  assumes "24 \<le> rtcm_len r" "test_staid r (uint (getbitu (rtcm_buff r) 36 12)) = (0, r')"
  shows "decode_type1006 r = (- 1, r')"
  using assms by (simp add: decode_type1006_def Let_def)

lemma decode_type1005_reject:
  assumes "rtcm_len r = 22" "test_staid r (uint (getbitu (rtcm_buff r) 36 12)) = (0, r')"
  shows "decode_type1005 r = (- 1, r')"
  using assms by (simp add: decode_type1005_def Let_def)

lemma decode_type1001_reject:
  assumes "11 \<le> rtcm_len r" "test_staid r (uint (getbitu (rtcm_buff r) 36 12)) = (0, r')"
  shows "decode_type1001 now r = (- 1, r')"
  using assms by (simp add: decode_type1001_def decode_head1001_def Let_def)

lemma decode_msm_head_reject:
  assumes "193 \<le> rtcm_len r * 8"
    and "test_staid (msm_epoch now r sys 48) (uint (getbitu (rtcm_buff r) 36 12)) = (0, r')"
  shows "fst (decode_msm_head now r sys) = - 1"
    and "snd (snd (snd (snd (snd (decode_msm_head now r sys))))) = r'"
proof -
  have l: "rtcm_len r' = rtcm_len r"
    using test_staid_keeps(1) [OF assms(2)] by (simp add: msm_epoch_keeps)
  show "fst (decode_msm_head now r sys) = - 1"
    "snd (snd (snd (snd (snd (decode_msm_head now r sys))))) = r'"
    unfolding decode_msm_head_long [OF assms(1) refl assms(2) l] by (simp_all add: Let_def)
qed

text \<open>
  Claim C10, with the length counted as the code counts it.  \<^verbatim>\<open>rtcm->len\<close> is the length of
  the frame without the parity, the three header bytes included (\<open>framed\<close>), so the
  equality \<open>36 + 140 = len * 8\<close> holds for \<open>len = 22\<close>: a payload of 19 bytes.  The decoder
  of type 1005 returns 5 only then; with any other length, longer or shorter, it returns -1
  and leaves the control record as it was.  The decoder of type 1006 rejects on the length
  only a frame shorter than its content (\<open>len < 24\<close>, a payload below 21 bytes); a frame at
  least as long is accepted if the station id passes its test.
\<close>

theorem decode_type1005_exact_length:
  "(fst (decode_type1005 r) = 5 \<longrightarrow> rtcm_len r = 22) \<and>
   (rtcm_len r \<noteq> 22 \<longrightarrow> decode_type1005 r = (- 1, r)) \<and>
   (length frame \<noteq> 19 + 6 \<longrightarrow> decode_type1005 (framed r frame) = (- 1, framed r frame)) \<and>
   (rtcm_len r = 22 \<longrightarrow>
      fst (decode_type1005 r) =
        (if fst (test_staid r (uint (getbitu (rtcm_buff r) 36 12))) = 0 then - 1 else 5)) \<and>
   (rtcm_len r < 24 \<longrightarrow> decode_type1006 r = (- 1, r)) \<and>
   (24 \<le> rtcm_len r \<longrightarrow>
      fst (decode_type1006 r) =
        (if fst (test_staid r (uint (getbitu (rtcm_buff r) 36 12))) = 0 then - 1 else 5))"
proof -
  have "rtcm_len (framed r frame) \<noteq> 22" if "length frame \<noteq> 19 + 6"
    using that by (simp add: framed_def)
  then show ?thesis
    by (simp add: decode_type1005_status decode_type1005_len decode_type1006_len
        decode_type1006_status)
qed

theorem decode_type1005_exact_length_witness:
  "fst (decode_type1005 (framed rtcm0 frame1005)) = 5 \<and>
   rtcm_len (framed rtcm0 frame1005) = 22 \<and>
   rtcm_len (framed rtcm0 frame1005_long) \<noteq> 22 \<and>
   length frame1005_long \<noteq> 19 + 6 \<and>
   decode_type1005 (framed rtcm0 frame1005_long) = (- 1, framed rtcm0 frame1005_long) \<and>
   rtcm_len (framed rtcm0 frame1005_badcrc) < 24 \<and>
   decode_type1006 (framed rtcm0 frame1005_badcrc) = (- 1, framed rtcm0 frame1005_badcrc) \<and>
   24 \<le> rtcm_len (framed rtcm0 frame1005_long) \<and>
   fst (decode_type1006 (framed rtcm0 frame1005_long)) = 5"
proof -
  have a: "fst (decode_type1005 (framed rtcm0 frame1005)) = 5" by code_simp
  have b: "fst (test_staid (framed rtcm0 frame1005_long)
      (uint (getbitu (rtcm_buff (framed rtcm0 frame1005_long)) 36 12))) \<noteq> 0"
    by code_simp
  have l: "rtcm_len (framed rtcm0 frame1005) = 22" "rtcm_len (framed rtcm0 frame1005_long) = 25"
    "rtcm_len (framed rtcm0 frame1005_badcrc) = 22" "length frame1005_long = 28"
    by (simp_all add: framed_def frame1005_def frame1005_long_def frame1005_badcrc_def)
  show ?thesis
    using decode_type1005_exact_length [of "framed rtcm0 frame1005" frame1005_long]
      decode_type1005_exact_length [of "framed rtcm0 frame1005_long" frame1005_long]
      decode_type1005_exact_length [of "framed rtcm0 frame1005_badcrc" frame1005_long]
      decode_type1005_exact_length [of rtcm0 frame1005_long]
      a b l
    by simp
qed

text \<open>
  The claim C10 as the specification states it names a payload of 22 bytes.  A frame of
  type 1005 with a good parity and a payload of 22 bytes is rejected with -1, and the
  frame with the payload of 19 bytes is decoded with status 5.
\<close>

theorem decode_type1005_payload_counterexample:
  "uint (getbitu (buffer_of frame1005_long) 14 10) = 22 \<and>
   fst (input_bytes decode_type1005 rtcm0 frame1005_long) = replicate 27 0 @ [- 1] \<and>
   uint (getbitu (buffer_of frame1005) 14 10) = 19 \<and>
   fst (input_bytes decode_type1005 rtcm0 frame1005) = replicate 24 0 @ [5]"
  by code_simp

lemma decode_head1001_reject:
  assumes "11 \<le> rtcm_len r" "test_staid r (uint (getbitu (rtcm_buff r) 36 12)) = (0, r')"
  shows "fst (decode_head1001 now r) = - 1" "snd (snd (decode_head1001 now r)) = r'"
  using assms by (simp_all add: decode_head1001_def Let_def)

lemma decode_head1009_reject:
  assumes "11 \<le> rtcm_len r" "test_staid r (uint (getbitu (rtcm_buff r) 36 12)) = (0, r')"
  shows "fst (decode_head1009 now r) = - 1" "snd (snd (decode_head1009 now r)) = r'"
  using assms by (simp_all add: decode_head1009_def Let_def)

lemma decode_type1001_to_1004_reject:
  assumes "11 \<le> rtcm_len r" "test_staid r (uint (getbitu (rtcm_buff r) 36 12)) = (0, r')"
  shows "decode_type1002 obs now r = (- 1, r')" "decode_type1003 now r = (- 1, r')"
    "decode_type1004 obs now r = (- 1, r')"
  using decode_head1001_reject [OF assms, of now]
  by (cases "decode_head1001 now r";
      simp add: decode_type1002_def decode_type1003_def decode_type1004_def)+

lemma decode_type1009_to_1012_reject:
  assumes "11 \<le> rtcm_len r" "test_staid r (uint (getbitu (rtcm_buff r) 36 12)) = (0, r')"
  shows "decode_type1009 now r = (- 1, r')" "decode_type1010 obs now r = (- 1, r')"
    "decode_type1011 now r = (- 1, r')" "decode_type1012 obs now r = (- 1, r')"
  using decode_head1009_reject [OF assms, of now]
  by (cases "decode_head1009 now r";
      simp add: decode_type1009_def decode_type1010_def decode_type1011_def
        decode_type1012_def)+

lemma decode_type1007_reject:
  assumes "test_staid r (uint (getbitu (rtcm_buff r) 36 12)) = (0, r')"
  shows "decode_type1007 ant r =
     (if bits_type1007 (rtcm_buff r) \<le> rtcm_len r * 8 then (- 1, r') else (- 1, r))"
  using assms by (simp add: decode_type1007_def bits_type1007_def Let_def)

lemma decode_type1008_reject:
  assumes "test_staid r (uint (getbitu (rtcm_buff r) 36 12)) = (0, r')"
  shows "decode_type1008 ant r =
     (if bits_type1008 (rtcm_buff r) \<le> rtcm_len r * 8 then (- 1, r') else (- 1, r))"
  using assms by (simp add: decode_type1008_def bits_type1008_def Let_def)

lemma decode_type1033_reject:
  assumes "test_staid r (uint (getbitu (rtcm_buff r) 36 12)) = (0, r')"
  shows "decode_type1033 ant r =
     (if bits_type1033 (rtcm_buff r) \<le> rtcm_len r * 8 then (- 1, r') else (- 1, r))"
  using assms by (simp add: decode_type1033_def bits_type1033_def Let_def)

lemma decode_msm_reject:
  assumes "193 \<le> rtcm_len r * 8"
    and "test_staid (msm_epoch now r sys 48) (uint (getbitu (rtcm_buff r) 36 12)) = (0, r')"
  shows "decode_msm0 now r sys = (- 1, r')"
    and "decode_msm_data sb cb save now r sys = (- 1, r')"
  using decode_msm_head_reject [OF assms]
  by (cases "decode_msm_head now r sys"; simp add: decode_msm0_def decode_msm_data_def)+


text \<open>
  The station id of the option as \<^verbatim>\<open>sscanf\<close> reads it: leading zeros, other options around
  it, and numbers beyond the range of \<^verbatim>\<open>int\<close>.
\<close>

lemma opt_staid_examples:
  "opt_staid ''-STA=5'' = Some 5"
  "opt_staid ''-EPHALL -STA=0123 -GL1W'' = Some 123"
  "opt_staid ''-STA=4294967301'' = Some 5"
  "opt_staid ''-STA=99999999999999999999'' = Some (- 1)"
  "opt_staid ''-STA=x'' = None"
  by code_simp+

text \<open>
  Claim C4, as the code has it.  The stored station id 0 stands for no station: it is the
  value before the first frame, after a reset, and also after a frame of the station 0.
  Without an option \<^verbatim>\<open>-STA=\<close>, or with one that names the id of the frame: when the stored
  id \<open>K\<close> is not 0 and the batch is not terminated, a frame with another id fails the test
  and the stored id is reset to 0; a frame with the id \<open>K\<close>, or any frame when the stored id
  is 0 or the batch is terminated, passes and its id is recorded.  With an option
  \<^verbatim>\<open>-STA=n\<close> and a frame id other than \<open>n\<close>, the frame fails the test and the stored id stays
  as it was.  When the test fails, every decoder that tests the station id returns -1 with
  the control record as the test left it, whatever its data part is: the observation
  messages 1001 to 1004 and 1009 to 1012, the station messages 1005 and 1006, the
  descriptors 1007, 1008 and 1033 (each for a frame that passes the length test of its
  decoder) and the MSM messages.  The test changes nothing but the stored id, so the
  station record, the observation buffer and the ephemerides are as before; the MSM header
  decoder has adjusted the epoch \<^verbatim>\<open>rtcm->time\<close> before it tests the id.
\<close>

theorem test_staid_consistency:
  "(opt_staid (rtcm_opt r) = None \<or> opt_staid (rtcm_opt r) = Some staid \<longrightarrow>
      (rtcm_staid r \<noteq> 0 \<and> rtcm_obsflag r = 0 \<and> staid \<noteq> rtcm_staid r \<longrightarrow>
         test_staid r staid = (0, r\<lparr>rtcm_staid := 0\<rparr>)) \<and>
      (rtcm_staid r = 0 \<or> rtcm_obsflag r \<noteq> 0 \<or> staid = rtcm_staid r \<longrightarrow>
         test_staid r staid = (1, r\<lparr>rtcm_staid := staid\<rparr>))) \<and>
   (opt_staid (rtcm_opt r) = Some n \<and> n \<noteq> staid \<longrightarrow> test_staid r staid = (0, r)) \<and>
   (test_staid r (uint (getbitu (rtcm_buff r) 36 12)) = (0, r') \<longrightarrow>
      (11 \<le> rtcm_len r \<longrightarrow>
         decode_type1001 now r = (- 1, r') \<and> decode_type1002 obs now r = (- 1, r') \<and>
         decode_type1003 now r = (- 1, r') \<and> decode_type1004 obs now r = (- 1, r') \<and>
         decode_type1009 now r = (- 1, r') \<and> decode_type1010 obs now r = (- 1, r') \<and>
         decode_type1011 now r = (- 1, r') \<and> decode_type1012 obs now r = (- 1, r')) \<and>
      (rtcm_len r = 22 \<longrightarrow> decode_type1005 r = (- 1, r')) \<and>
      (24 \<le> rtcm_len r \<longrightarrow> decode_type1006 r = (- 1, r')) \<and>
      (bits_type1007 (rtcm_buff r) \<le> rtcm_len r * 8 \<longrightarrow> decode_type1007 ant r = (- 1, r')) \<and>
      (bits_type1008 (rtcm_buff r) \<le> rtcm_len r * 8 \<longrightarrow> decode_type1008 ant r = (- 1, r')) \<and>
      (bits_type1033 (rtcm_buff r) \<le> rtcm_len r * 8 \<longrightarrow> decode_type1033 ant r = (- 1, r')) \<and>
      rtcm_sta r' = rtcm_sta r \<and> rtcm_obs_n r' = rtcm_obs_n r \<and>
      rtcm_obs_data r' = rtcm_obs_data r \<and> rtcm_nav_eph r' = rtcm_nav_eph r \<and>
      rtcm_time r' = rtcm_time r) \<and>
   (193 \<le> rtcm_len r * 8 \<and>
    test_staid (msm_epoch now r sys 48) (uint (getbitu (rtcm_buff r) 36 12)) = (0, r') \<longrightarrow>
      fst (decode_msm_head now r sys) = - 1 \<and>
      decode_msm0 now r sys = (- 1, r') \<and>
      decode_msm4 save now r sys = (- 1, r') \<and> decode_msm5 save now r sys = (- 1, r') \<and>
      decode_msm6 save now r sys = (- 1, r') \<and> decode_msm7 save now r sys = (- 1, r') \<and>
      rtcm_sta r' = rtcm_sta r \<and> rtcm_obs_n r' = rtcm_obs_n r \<and>
      rtcm_obs_data r' = rtcm_obs_data r \<and> rtcm_nav_eph r' = rtcm_nav_eph r)"
proof (intro conjI impI)
  assume "opt_staid (rtcm_opt r) = None \<or> opt_staid (rtcm_opt r) = Some staid"
  note o = test_staid_no_option [OF this]
  show "test_staid r staid = (0, r\<lparr>rtcm_staid := 0\<rparr>)"
    if "rtcm_staid r \<noteq> 0 \<and> rtcm_obsflag r = 0 \<and> staid \<noteq> rtcm_staid r"
    using that unfolding o by simp
  show "test_staid r staid = (1, r\<lparr>rtcm_staid := staid\<rparr>)"
    if "rtcm_staid r = 0 \<or> rtcm_obsflag r \<noteq> 0 \<or> staid = rtcm_staid r"
    using that unfolding o by auto
next
  assume "opt_staid (rtcm_opt r) = Some n \<and> n \<noteq> staid"
  then show "test_staid r staid = (0, r)" by (simp add: test_staid_option)
next
  assume t: "test_staid r (uint (getbitu (rtcm_buff r) 36 12)) = (0, r')"
  note k = test_staid_keeps [OF t]
  show "rtcm_sta r' = rtcm_sta r" "rtcm_obs_n r' = rtcm_obs_n r"
    "rtcm_obs_data r' = rtcm_obs_data r" "rtcm_nav_eph r' = rtcm_nav_eph r"
    "rtcm_time r' = rtcm_time r"
    by (rule k)+
  show "decode_type1005 r = (- 1, r')" if "rtcm_len r = 22"
    by (rule decode_type1005_reject [OF that t])
  show "decode_type1006 r = (- 1, r')" if "24 \<le> rtcm_len r"
    by (rule decode_type1006_staid [OF that t])
  show "decode_type1007 ant r = (- 1, r')" if "bits_type1007 (rtcm_buff r) \<le> rtcm_len r * 8"
    unfolding decode_type1007_reject [OF t] using that by simp
  show "decode_type1008 ant r = (- 1, r')" if "bits_type1008 (rtcm_buff r) \<le> rtcm_len r * 8"
    unfolding decode_type1008_reject [OF t] using that by simp
  show "decode_type1033 ant r = (- 1, r')" if "bits_type1033 (rtcm_buff r) \<le> rtcm_len r * 8"
    unfolding decode_type1033_reject [OF t] using that by simp
  assume l: "11 \<le> rtcm_len r"
  show "decode_type1001 now r = (- 1, r')" by (rule decode_type1001_reject [OF l t])
  show "decode_type1002 obs now r = (- 1, r')" "decode_type1003 now r = (- 1, r')"
    "decode_type1004 obs now r = (- 1, r')"
    by (rule decode_type1001_to_1004_reject [OF l t])+
  show "decode_type1009 now r = (- 1, r')" "decode_type1010 obs now r = (- 1, r')"
    "decode_type1011 now r = (- 1, r')" "decode_type1012 obs now r = (- 1, r')"
    by (rule decode_type1009_to_1012_reject [OF l t])+
next
  assume a: "193 \<le> rtcm_len r * 8 \<and>
    test_staid (msm_epoch now r sys 48) (uint (getbitu (rtcm_buff r) 36 12)) = (0, r')"
  then have l: "193 \<le> rtcm_len r * 8"
    and t: "test_staid (msm_epoch now r sys 48) (uint (getbitu (rtcm_buff r) 36 12)) = (0, r')"
    by simp_all
  note k = test_staid_keeps [OF t, unfolded msm_epoch_keeps]
  show "fst (decode_msm_head now r sys) = - 1" by (rule decode_msm_head_reject(1) [OF l t])
  show "decode_msm0 now r sys = (- 1, r')" by (rule decode_msm_reject(1) [OF l t])
  show "decode_msm4 save now r sys = (- 1, r')" "decode_msm5 save now r sys = (- 1, r')"
    "decode_msm6 save now r sys = (- 1, r')" "decode_msm7 save now r sys = (- 1, r')"
    unfolding decode_msm4_def decode_msm5_def decode_msm6_def decode_msm7_def
    by (rule decode_msm_reject(2) [OF l t])+
  show "rtcm_sta r' = rtcm_sta r" "rtcm_obs_n r' = rtcm_obs_n r"
    "rtcm_obs_data r' = rtcm_obs_data r" "rtcm_nav_eph r' = rtcm_nav_eph r"
    by (rule k)+
qed

theorem test_staid_consistency_witness:
  "opt_staid (rtcm_opt rtcm_sta3) = None \<and>
   rtcm_staid rtcm_sta3 \<noteq> 0 \<and> rtcm_obsflag rtcm_sta3 = 0 \<and> 7 \<noteq> rtcm_staid rtcm_sta3 \<and>
   test_staid rtcm_sta3 7 = (0, rtcm_sta3\<lparr>rtcm_staid := 0\<rparr>) \<and>
   test_staid rtcm_sta3 3 = (1, rtcm_sta3\<lparr>rtcm_staid := 3\<rparr>) \<and>
   rtcm_staid rtcm0 = 0 \<and> test_staid rtcm0 7 = (1, rtcm0\<lparr>rtcm_staid := 7\<rparr>) \<and>
   opt_staid (rtcm_opt rtcm_opt5) = Some 5 \<and> (5::int) \<noteq> 7 \<and>
   test_staid rtcm_opt5 7 = (0, rtcm_opt5) \<and>
   11 \<le> rtcm_len (framed rtcm_sta3 frame1002) \<and>
   decode_type1001 now0 (framed rtcm_sta3 frame1002)
     = (- 1, (framed rtcm_sta3 frame1002)\<lparr>rtcm_staid := 0\<rparr>) \<and>
   decode_type1002 (\<lambda>n r. r) now0 (framed rtcm_sta3 frame1002)
     = (- 1, (framed rtcm_sta3 frame1002)\<lparr>rtcm_staid := 0\<rparr>) \<and>
   decode_type1003 now0 (framed rtcm_sta3 frame1002)
     = (- 1, (framed rtcm_sta3 frame1002)\<lparr>rtcm_staid := 0\<rparr>) \<and>
   decode_type1004 (\<lambda>n r. r) now0 (framed rtcm_sta3 frame1002)
     = (- 1, (framed rtcm_sta3 frame1002)\<lparr>rtcm_staid := 0\<rparr>) \<and>
   11 \<le> rtcm_len (framed rtcm_sta3 frame1010) \<and>
   decode_type1009 now0 (framed rtcm_sta3 frame1010)
     = (- 1, (framed rtcm_sta3 frame1010)\<lparr>rtcm_staid := 0\<rparr>) \<and>
   decode_type1010 (\<lambda>n r. r) now0 (framed rtcm_sta3 frame1010)
     = (- 1, (framed rtcm_sta3 frame1010)\<lparr>rtcm_staid := 0\<rparr>) \<and>
   decode_type1011 now0 (framed rtcm_sta3 frame1010)
     = (- 1, (framed rtcm_sta3 frame1010)\<lparr>rtcm_staid := 0\<rparr>) \<and>
   decode_type1012 (\<lambda>n r. r) now0 (framed rtcm_sta3 frame1010)
     = (- 1, (framed rtcm_sta3 frame1010)\<lparr>rtcm_staid := 0\<rparr>) \<and>
   rtcm_len (framed rtcm_sta3 frame1005) = 22 \<and>
   decode_type1005 (framed rtcm_sta3 frame1005)
     = (- 1, (framed rtcm_sta3 frame1005)\<lparr>rtcm_staid := 0\<rparr>) \<and>
   24 \<le> rtcm_len (framed rtcm_sta3 frame1005_long) \<and>
   decode_type1006 (framed rtcm_sta3 frame1005_long)
     = (- 1, (framed rtcm_sta3 frame1005_long)\<lparr>rtcm_staid := 0\<rparr>) \<and>
   bits_type1007 (rtcm_buff (framed rtcm_sta3 frame1007)) \<le> rtcm_len (framed rtcm_sta3 frame1007) * 8 \<and>
   decode_type1007 (\<lambda>r. r) (framed rtcm_sta3 frame1007)
     = (- 1, (framed rtcm_sta3 frame1007)\<lparr>rtcm_staid := 0\<rparr>) \<and>
   bits_type1008 (rtcm_buff (framed rtcm_sta3 frame1008)) \<le> rtcm_len (framed rtcm_sta3 frame1008) * 8 \<and>
   decode_type1008 (\<lambda>r. r) (framed rtcm_sta3 frame1008)
     = (- 1, (framed rtcm_sta3 frame1008)\<lparr>rtcm_staid := 0\<rparr>) \<and>
   bits_type1033 (rtcm_buff (framed rtcm_sta3 frame1033)) \<le> rtcm_len (framed rtcm_sta3 frame1033) * 8 \<and>
   decode_type1033 (\<lambda>r. r) (framed rtcm_sta3 frame1033)
     = (- 1, (framed rtcm_sta3 frame1033)\<lparr>rtcm_staid := 0\<rparr>) \<and>
   193 \<le> rtcm_len (framed rtcm_sta3 frame_msm4) * 8 \<and>
   fst (decode_msm_head now0 (framed rtcm_sta3 frame_msm4) SYS_GPS) = - 1 \<and>
   decode_msm0 now0 (framed rtcm_sta3 frame_msm4) SYS_GPS
     = (- 1, (msm_epoch now0 (framed rtcm_sta3 frame_msm4) SYS_GPS 48)\<lparr>rtcm_staid := 0\<rparr>) \<and>
   decode_msm4 save_skip now0 (framed rtcm_sta3 frame_msm4) SYS_GPS
     = (- 1, (msm_epoch now0 (framed rtcm_sta3 frame_msm4) SYS_GPS 48)\<lparr>rtcm_staid := 0\<rparr>) \<and>
   decode_msm7 save_skip now0 (framed rtcm_sta3 frame_msm4) SYS_GPS
     = (- 1, (msm_epoch now0 (framed rtcm_sta3 frame_msm4) SYS_GPS 48)\<lparr>rtcm_staid := 0\<rparr>)"
proof -
  have o: "opt_staid (rtcm_opt rtcm_sta3) = None" "opt_staid (rtcm_opt rtcm_opt5) = Some 5"
    "opt_staid (rtcm_opt rtcm0) = None"
    by code_simp+
  have s: "rtcm_staid rtcm_sta3 = 3" "rtcm_obsflag rtcm_sta3 = 0" "rtcm_staid rtcm0 = 0"
    by (simp_all add: rtcm_sta3_def rtcm0_def)
  have f: "opt_staid (rtcm_opt (framed rtcm_sta3 fr)) = None"
    "rtcm_staid (framed rtcm_sta3 fr) = 3" "rtcm_obsflag (framed rtcm_sta3 fr) = 0" for fr
    using o(1) s by (simp_all add: framed_def)
  have b: "rtcm_buff (framed rtcm_sta3 fr) = buffer_of fr" for fr
    by (rule framed_buff0) (simp add: rtcm_sta3_def rtcm0_def)
  have g: "uint (getbitu (buffer_of frame1005) 36 12) = 123"
    "uint (getbitu (buffer_of frame1005_long) 36 12) = 123"
    "uint (getbitu (buffer_of frame_msm4) 36 12) = 123"
    "uint (getbitu (buffer_of frame1002) 36 12) = 123"
    "uint (getbitu (buffer_of frame1010) 36 12) = 123"
    "uint (getbitu (buffer_of frame1007) 36 12) = 123"
    "uint (getbitu (buffer_of frame1008) 36 12) = 123"
    "uint (getbitu (buffer_of frame1033) 36 12) = 123"
    by code_simp+
  have bits: "bits_type1007 (buffer_of frame1007) = 96" "bits_type1008 (buffer_of frame1008) = 128"
    "bits_type1033 (buffer_of frame1033) = 216"
    by code_simp+
  have l: "rtcm_len (framed rtcm_sta3 frame1005) = 22"
    "rtcm_len (framed rtcm_sta3 frame1005_long) = 25"
    "rtcm_len (framed rtcm_sta3 frame_msm4) = 54"
    "rtcm_len (framed rtcm_sta3 frame1002) = 11"
    "rtcm_len (framed rtcm_sta3 frame1010) = 11"
    "rtcm_len (framed rtcm_sta3 frame1007) = 12"
    "rtcm_len (framed rtcm_sta3 frame1008) = 16"
    "rtcm_len (framed rtcm_sta3 frame1033) = 27"
    by (simp_all add: framed_def frame1005_def frame1005_long_def frame_msm4_def frame1002_def
          frame1010_def frame1007_def frame1008_def frame1033_def)
  note T = test_staid_consistency [where now = now0 and sys = SYS_GPS and obs = "\<lambda>n r. r"
      and ant = "\<lambda>r. r" and save = save_skip]
  have w1: "test_staid rtcm_sta3 7 = (0, rtcm_sta3\<lparr>rtcm_staid := 0\<rparr>)"
    using T [where r = rtcm_sta3 and staid = 7 and n = 0 and r' = rtcm0] o s by simp
  have w2: "test_staid rtcm_sta3 3 = (1, rtcm_sta3\<lparr>rtcm_staid := 3\<rparr>)"
    using T [where r = rtcm_sta3 and staid = 3 and n = 0 and r' = rtcm0] o s by simp
  have w3: "test_staid rtcm_opt5 7 = (0, rtcm_opt5)"
    using T [where r = rtcm_opt5 and staid = 7 and n = 5 and r' = rtcm0] o by simp
  have w0: "test_staid rtcm0 7 = (1, rtcm0\<lparr>rtcm_staid := 7\<rparr>)"
    using T [where r = rtcm0 and staid = 7 and n = 0 and r' = rtcm0] o s by simp
  have t: "test_staid (framed rtcm_sta3 fr) 123 = (0, (framed rtcm_sta3 fr)\<lparr>rtcm_staid := 0\<rparr>)" for fr
    using T [where r = "framed rtcm_sta3 fr" and staid = 123 and n = 0 and r' = rtcm0] f [of fr]
    by simp
  note D = T [where staid = 0 and n = 0]
  have d1002: "decode_type1001 now0 (framed rtcm_sta3 frame1002)
       = (- 1, (framed rtcm_sta3 frame1002)\<lparr>rtcm_staid := 0\<rparr>) \<and>
     decode_type1002 (\<lambda>n r. r) now0 (framed rtcm_sta3 frame1002)
       = (- 1, (framed rtcm_sta3 frame1002)\<lparr>rtcm_staid := 0\<rparr>) \<and>
     decode_type1003 now0 (framed rtcm_sta3 frame1002)
       = (- 1, (framed rtcm_sta3 frame1002)\<lparr>rtcm_staid := 0\<rparr>) \<and>
     decode_type1004 (\<lambda>n r. r) now0 (framed rtcm_sta3 frame1002)
       = (- 1, (framed rtcm_sta3 frame1002)\<lparr>rtcm_staid := 0\<rparr>)"
    using D [where r = "framed rtcm_sta3 frame1002"
        and r' = "(framed rtcm_sta3 frame1002)\<lparr>rtcm_staid := 0\<rparr>"]
      t [of frame1002] g(4) l(4) b [of frame1002] by simp
  have d1010: "decode_type1009 now0 (framed rtcm_sta3 frame1010)
       = (- 1, (framed rtcm_sta3 frame1010)\<lparr>rtcm_staid := 0\<rparr>) \<and>
     decode_type1010 (\<lambda>n r. r) now0 (framed rtcm_sta3 frame1010)
       = (- 1, (framed rtcm_sta3 frame1010)\<lparr>rtcm_staid := 0\<rparr>) \<and>
     decode_type1011 now0 (framed rtcm_sta3 frame1010)
       = (- 1, (framed rtcm_sta3 frame1010)\<lparr>rtcm_staid := 0\<rparr>) \<and>
     decode_type1012 (\<lambda>n r. r) now0 (framed rtcm_sta3 frame1010)
       = (- 1, (framed rtcm_sta3 frame1010)\<lparr>rtcm_staid := 0\<rparr>)"
    using D [where r = "framed rtcm_sta3 frame1010"
        and r' = "(framed rtcm_sta3 frame1010)\<lparr>rtcm_staid := 0\<rparr>"]
      t [of frame1010] g(5) l(5) b [of frame1010] by simp
  have d1005: "decode_type1005 (framed rtcm_sta3 frame1005)
     = (- 1, (framed rtcm_sta3 frame1005)\<lparr>rtcm_staid := 0\<rparr>)"
    using D [where r = "framed rtcm_sta3 frame1005"
        and r' = "(framed rtcm_sta3 frame1005)\<lparr>rtcm_staid := 0\<rparr>"]
      t [of frame1005] g(1) l(1) b [of frame1005] by simp
  have d1006: "decode_type1006 (framed rtcm_sta3 frame1005_long)
       = (- 1, (framed rtcm_sta3 frame1005_long)\<lparr>rtcm_staid := 0\<rparr>)"
    using D [where r = "framed rtcm_sta3 frame1005_long"
        and r' = "(framed rtcm_sta3 frame1005_long)\<lparr>rtcm_staid := 0\<rparr>"]
      t [of frame1005_long] g(2) l(2) b [of frame1005_long] by simp
  have d1007: "decode_type1007 (\<lambda>r. r) (framed rtcm_sta3 frame1007)
       = (- 1, (framed rtcm_sta3 frame1007)\<lparr>rtcm_staid := 0\<rparr>)"
    using D [where r = "framed rtcm_sta3 frame1007"
        and r' = "(framed rtcm_sta3 frame1007)\<lparr>rtcm_staid := 0\<rparr>"]
      t [of frame1007] g(6) l(6) b [of frame1007] bits(1) by simp
  have d1008: "decode_type1008 (\<lambda>r. r) (framed rtcm_sta3 frame1008)
       = (- 1, (framed rtcm_sta3 frame1008)\<lparr>rtcm_staid := 0\<rparr>)"
    using D [where r = "framed rtcm_sta3 frame1008"
        and r' = "(framed rtcm_sta3 frame1008)\<lparr>rtcm_staid := 0\<rparr>"]
      t [of frame1008] g(7) l(7) b [of frame1008] bits(2) by simp
  have d1033: "decode_type1033 (\<lambda>r. r) (framed rtcm_sta3 frame1033)
       = (- 1, (framed rtcm_sta3 frame1033)\<lparr>rtcm_staid := 0\<rparr>)"
    using D [where r = "framed rtcm_sta3 frame1033"
        and r' = "(framed rtcm_sta3 frame1033)\<lparr>rtcm_staid := 0\<rparr>"]
      t [of frame1033] g(8) l(8) b [of frame1033] bits(3) by simp
  let ?m = "framed rtcm_sta3 frame_msm4"
  let ?e = "msm_epoch now0 ?m SYS_GPS 48"
  obtain tm where tm: "?e = ?m\<lparr>rtcm_time := tm\<rparr>"
    using msm_epoch_frame by blast
  have tmsm: "test_staid ?e 123 = (0, ?e\<lparr>rtcm_staid := 0\<rparr>)"
    using T [where r = ?e and staid = 123 and n = 0 and r' = rtcm0]
      f [of frame_msm4] unfolding tm by simp
  have dmsm: "fst (decode_msm_head now0 ?m SYS_GPS) = - 1 \<and>
     decode_msm0 now0 ?m SYS_GPS = (- 1, ?e\<lparr>rtcm_staid := 0\<rparr>) \<and>
     decode_msm4 save_skip now0 ?m SYS_GPS = (- 1, ?e\<lparr>rtcm_staid := 0\<rparr>) \<and>
     decode_msm7 save_skip now0 ?m SYS_GPS = (- 1, ?e\<lparr>rtcm_staid := 0\<rparr>)"
    using D [where r = ?m and r' = "?e\<lparr>rtcm_staid := 0\<rparr>"]
      tmsm g(3) l(3) b [of frame_msm4] by simp
  have bl: "bits_type1007 (rtcm_buff (framed rtcm_sta3 frame1007)) \<le> rtcm_len (framed rtcm_sta3 frame1007) * 8"
    "bits_type1008 (rtcm_buff (framed rtcm_sta3 frame1008)) \<le> rtcm_len (framed rtcm_sta3 frame1008) * 8"
    "bits_type1033 (rtcm_buff (framed rtcm_sta3 frame1033)) \<le> rtcm_len (framed rtcm_sta3 frame1033) * 8"
    unfolding b bits l by simp_all
  have ll: "11 \<le> rtcm_len (framed rtcm_sta3 frame1002)" "11 \<le> rtcm_len (framed rtcm_sta3 frame1010)"
    "24 \<le> rtcm_len (framed rtcm_sta3 frame1005_long)"
    "193 \<le> rtcm_len (framed rtcm_sta3 frame_msm4) * 8"
    unfolding l by simp_all
  have ss: "rtcm_staid rtcm_sta3 \<noteq> 0" "7 \<noteq> rtcm_staid rtcm_sta3" "(5::int) \<noteq> 7"
    unfolding s by simp_all
  show ?thesis
    by (intro conjI o(1) o(2) ss s(2) s(3) w0 w1 w2 w3 l(1) ll bl
          d1002 [THEN conjunct1] d1002 [THEN conjunct2, THEN conjunct1]
          d1002 [THEN conjunct2, THEN conjunct2, THEN conjunct1]
          d1002 [THEN conjunct2, THEN conjunct2, THEN conjunct2]
          d1010 [THEN conjunct1] d1010 [THEN conjunct2, THEN conjunct1]
          d1010 [THEN conjunct2, THEN conjunct2, THEN conjunct1]
          d1010 [THEN conjunct2, THEN conjunct2, THEN conjunct2]
          d1005 d1006 d1007 d1008 d1033
          dmsm [THEN conjunct1] dmsm [THEN conjunct2, THEN conjunct1]
          dmsm [THEN conjunct2, THEN conjunct2, THEN conjunct1]
          dmsm [THEN conjunct2, THEN conjunct2, THEN conjunct2])
qed

text \<open>
  The claim C4 as the specification states it fails under the option \<^verbatim>\<open>-STA=5\<close>.  With
  station 5 recorded and the batch open, a frame of station 7 fails the test and the
  stored id stays 5.  With no station recorded, the frame of station 123 is rejected with
  -1 and no id is recorded.  It also fails for the station 0: after a frame of station 0
  has been decoded (status 5) with the batch open, a frame of station 7 is decoded as well
  (status 5) and 7 is recorded.
\<close>

theorem test_staid_option_counterexample:
  "fst (test_staid rtcm_opt5 7) = 0 \<and>
   rtcm_staid (snd (test_staid rtcm_opt5 7)) = 5 \<and>
   fst (input_bytes decode_type1005 rtcm_opt5_new frame1005) = replicate 24 0 @ [- 1] \<and>
   rtcm_staid (snd (input_bytes decode_type1005 rtcm_opt5_new frame1005)) = 0 \<and>
   fst (decode_type1005 (framed rtcm0 frame1005_sta0)) = 5 \<and>
   rtcm_staid rtcm_sta0 = 0 \<and> rtcm_obsflag rtcm_sta0 = 0 \<and>
   fst (decode_type1005 (framed rtcm_sta0 frame1005_sta7)) = 5 \<and>
   rtcm_staid (snd (decode_type1005 (framed rtcm_sta0 frame1005_sta7))) = 7"
  by code_simp

section \<open>Double rounding and the SNR quantizer\<close>

lemma ilog2_bounds:
  assumes "0 < x"
  shows "2 powi (ilog2 x) \<le> x \<and> x < 2 powi (ilog2 x + 1)"
proof -
  have ax: "\<bar>x\<bar> = x" using assms by simp
  show ?thesis
  proof (cases "1 \<le> x")
    case True
    define n where "n = \<lfloor>x\<rfloor>"
    define b where "b = bitlen n"
    have n1: "1 \<le> n" using True by (simp add: n_def le_floor_iff)
    then have n0: "0 < n" by simp
    have bb: "2 ^ nat (b - 1) \<le> n" "n < 2 ^ nat b"
      using bitlen_bounds [OF n0] by (simp_all add: b_def)
    have b1: "1 \<le> b"
    proof (rule ccontr)
      assume "\<not> 1 \<le> b"
      then have "nat b = 0" by simp
      then show False using bb(2) n1 by simp
    qed
    have e: "ilog2 x = b - 1" using True by (simp add: ilog2_def ax n_def b_def)
    have p1: "(2::real) powi (b - 1) = 2 ^ nat (b - 1)" using b1 by (simp add: power_int_def)
    have p2: "(2::real) powi (b - 1 + 1) = 2 ^ nat b" using b1 by (simp add: power_int_def)
    have "(2::real) ^ nat (b - 1) \<le> of_int n"
      using bb(1) by (metis of_int_le_iff of_int_numeral of_int_power)
    also have "\<dots> \<le> x" by (simp add: n_def)
    finally have A: "2 powi (ilog2 x) \<le> x" unfolding e p1 .
    have "n + 1 \<le> 2 ^ nat b" using bb(2) by simp
    then have "of_int (n + 1) \<le> (2::real) ^ nat b"
      by (metis of_int_le_iff of_int_numeral of_int_power)
    moreover have "x < of_int (n + 1)" unfolding n_def by linarith
    ultimately have "x < 2 powi (ilog2 x + 1)" unfolding e p2 by linarith
    with A show ?thesis by simp
  next
    case False
    then have x1: "x < 1" by simp
    define c where "c = \<lceil>1 / x\<rceil>"
    define k where "k = bitlen (c - 1)"
    have "1 < 1 / x" using assms x1 by simp
    then have c2: "2 \<le> c" unfolding c_def by linarith
    then have c0: "0 < c - 1" by simp
    have bb: "2 ^ nat (k - 1) \<le> c - 1" "c - 1 < 2 ^ nat k"
      using bitlen_bounds [OF c0] by (simp_all add: k_def)
    have k1: "1 \<le> k"
    proof (rule ccontr)
      assume "\<not> 1 \<le> k"
      then have "nat k = 0" by simp
      then show False using bb(2) c2 by simp
    qed
    have e: "ilog2 x = - k" using False by (simp add: ilog2_def ax c_def k_def)
    have p1: "(2::real) powi (- k) = 1 / 2 ^ nat k"
      using k1 by (simp add: power_int_def field_simps)
    have p2: "(2::real) powi (- k + 1) = 1 / 2 ^ nat (k - 1)"
    proof (cases "k = 1")
      case True
      then show ?thesis by simp
    next
      case False
      then have "- k + 1 < 0" using k1 by simp
      moreover have "nat (- (- k + 1)) = nat (k - 1)" by simp
      ultimately show ?thesis by (simp add: power_int_def field_simps)
    qed
    have cle: "c \<le> 2 ^ nat k" using bb(2) by simp
    have "1 / x \<le> of_int c" unfolding c_def by (rule le_of_int_ceiling)
    also have "of_int c \<le> (2::real) ^ nat k"
      using cle by (metis of_int_le_iff of_int_numeral of_int_power)
    finally have "1 / x \<le> 2 ^ nat k" .
    then have "1 \<le> x * 2 ^ nat k" using assms by (simp add: field_simps)
    then have A: "2 powi (ilog2 x) \<le> x" unfolding e p1 by (simp add: field_simps)
    have "(2::real) ^ nat (k - 1) \<le> of_int (c - 1)"
      using bb(1) by (metis of_int_le_iff of_int_numeral of_int_power)
    also have "of_int (c - 1) < 1 / x"
      unfolding c_def using ceiling_correct [of "1 / x"] by simp
    finally have "2 ^ nat (k - 1) < 1 / x" .
    then have "x * 2 ^ nat (k - 1) < 1" using assms by (simp add: field_simps)
    then have "x < 2 powi (ilog2 x + 1)" unfolding e p2 by (simp add: field_simps)
    with A show ?thesis by simp
  qed
qed

lemma ilog2_unique:
  assumes "0 < x" "2 powi e \<le> x" "x < 2 powi (e + 1)"
  shows "ilog2 x = e"
proof (rule ccontr)
  assume ne: "ilog2 x \<noteq> e"
  have b: "2 powi (ilog2 x) \<le> x" "x < 2 powi (ilog2 x + 1)"
    using ilog2_bounds [OF assms(1)] by simp_all
  show False
  proof (cases "ilog2 x < e")
    case True
    then have "(2::real) powi (ilog2 x + 1) \<le> 2 powi e"
      by (intro power_int_increasing) simp_all
    then show False using b(2) assms(2) by linarith
  next
    case False
    then have "e + 1 \<le> ilog2 x" using ne by simp
    then have "(2::real) powi (e + 1) \<le> 2 powi (ilog2 x)"
      by (intro power_int_increasing) simp_all
    then show False using b(1) assms(3) by linarith
  qed
qed

lemma round_even_of_int: "round_even (of_int k) = k"
  by (simp add: round_even_def)

lemma round_even_ge: "of_int a \<le> y \<Longrightarrow> a \<le> round_even y"
  by (auto simp: round_even_def Let_def le_floor_iff) linarith+

lemma round_even_le: "y \<le> of_int b \<Longrightarrow> round_even y \<le> b"
proof -
  assume a: "y \<le> of_int b"
  have f: "\<lfloor>y\<rfloor> \<le> b" using a by (simp add: floor_le_iff) 
  show ?thesis
  proof (cases "\<lfloor>y\<rfloor> = b")
    case True
    then have "y = of_int b" using a by (metis of_int_floor_le order_antisym)
    then show ?thesis by (simp add: round_even_of_int)
  next
    case False
    then have "\<lfloor>y\<rfloor> + 1 \<le> b" using f by simp
    then show ?thesis by (auto simp: round_even_def Let_def)
  qed
qed

lemma round_even_near: "of_int (round_even y) - 1 / 2 \<le> y"
  unfolding round_even_def Let_def
  by (auto simp: not_less) linarith+


lemma ulp_pos: "0 < ulp x"
  by (simp add: ulp_def zero_less_power_int)

lemma ulp_normal:
  assumes "2 powi (- 1022) \<le> y" "y < 2 ^ j" "j \<le> 52"
  shows "\<exists>k. 53 - j \<le> k \<and> ulp y = 1 / 2 ^ k"
proof -
  have y0: "0 < y"
    using assms(1) zero_less_power_int [of "2::real" "- 1022"] by linarith
  define e where "e = ilog2 y"
  have b: "2 powi e \<le> y" "y < 2 powi (e + 1)"
    using ilog2_bounds [OF y0] by (simp_all add: e_def)
  have lo: "- 1022 \<le> e"
  proof (rule ccontr)
    assume "\<not> - 1022 \<le> e"
    then have "e + 1 \<le> - 1022" by simp
    then have "(2::real) powi (e + 1) \<le> 2 powi (- 1022)"
      by (intro power_int_increasing) simp_all
    then show False using b(2) assms(1) by linarith
  qed
  have hi: "e < int j"
  proof (rule ccontr)
    assume "\<not> e < int j"
    then have "int j \<le> e" by simp
    then have "(2::real) powi (int j) \<le> 2 powi e"
      by (intro power_int_increasing) simp_all
    then have "(2::real) ^ j \<le> 2 powi e" by (simp add: power_int_of_nat)
    then show False using b(1) assms(2) by linarith
  qed
  define k where "k = nat (52 - e)"
  have k: "53 - j \<le> k" using hi assms(3) unfolding k_def by linarith
  have neg: "e - 52 < 0" using hi assms(3) by linarith
  have "ulp y = 2 powi (e - 52)" using lo by (simp add: ulp_def e_def max_def)
  also have "\<dots> = inverse 2 ^ nat (- (e - 52))" using neg by (simp add: power_int_def)
  also have "nat (- (e - 52)) = k" unfolding k_def by simp
  finally have "ulp y = 1 / 2 ^ k" by (simp add: power_divide)
  with k show ?thesis by blast
qed

lemma half_powi: "(1 / 2 :: real) = 2 powi (- 1)"
  by (simp add: power_int_minus1_right)

lemma powi_min_le_half: "(2::real) powi (- 1022) \<le> 1 / 2"
  unfolding half_powi by (intro power_int_increasing) simp_all

lemma rnd_scaled:
  assumes "y \<noteq> 0" "ulp y = 1 / 2 ^ k"
  shows "rnd y = of_int (round_even (y * 2 ^ k)) / 2 ^ k"
  using assms by (simp add: rnd_def)

lemma rnd_exact:
  assumes "ulp y = 1 / 2 ^ k" "y * 2 ^ k = of_int z"
  shows "rnd y = y"
proof (cases "y = 0")
  case True
  then show ?thesis by (simp add: rnd_def)
next
  case False
  have "rnd y = of_int z / 2 ^ k"
    unfolding rnd_scaled [OF False assms(1)] assms(2) round_even_of_int ..
  also have "\<dots> = y" using assms(2) [symmetric] by simp
  finally show ?thesis .
qed

lemma rnd_sandwich:
  assumes "0 < v" "ulp v = 1 / 2 ^ k"
  shows "of_int \<lfloor>v\<rfloor> \<le> rnd v" and "rnd v \<le> of_int \<lfloor>v\<rfloor> + 1"
    and "rnd v = of_int \<lfloor>v\<rfloor> + 1 \<Longrightarrow> of_int \<lfloor>v\<rfloor> + 1 - 1 / 2 ^ (k + 1) \<le> v"
proof -
  define m where "m = \<lfloor>v\<rfloor>"
  define q where "q = round_even (v * 2 ^ k)"
  have v0: "v \<noteq> 0" using assms(1) by simp
  have r: "rnd v = of_int q / 2 ^ k" unfolding q_def by (rule rnd_scaled [OF v0 assms(2)])
  have p: "(0::real) < 2 ^ k" by simp
  have "of_int (m * 2 ^ k) \<le> v * 2 ^ k" unfolding m_def by simp
  then have lo: "m * 2 ^ k \<le> q" unfolding q_def by (rule round_even_ge)
  have "v \<le> of_int (m + 1)" unfolding m_def by linarith
  then have "v * 2 ^ k \<le> of_int ((m + 1) * 2 ^ k)" by simp
  then have hi: "q \<le> (m + 1) * 2 ^ k" unfolding q_def by (rule round_even_le)
  have "(of_int (m * 2 ^ k) :: real) \<le> of_int q"
    using lo by (simp only: of_int_le_iff)
  then have "of_int m * 2 ^ k \<le> (of_int q :: real)" by simp
  then show "of_int \<lfloor>v\<rfloor> \<le> rnd v"
    unfolding r m_def [symmetric] using p by (simp add: field_simps)
  have "(of_int q :: real) \<le> of_int ((m + 1) * 2 ^ k)"
    using hi by (simp only: of_int_le_iff)
  then have "(of_int q :: real) \<le> (of_int m + 1) * 2 ^ k" by simp
  then show "rnd v \<le> of_int \<lfloor>v\<rfloor> + 1"
    unfolding r m_def [symmetric] using p by (simp add: field_simps)
  show "of_int \<lfloor>v\<rfloor> + 1 - 1 / 2 ^ (k + 1) \<le> v" if "rnd v = of_int \<lfloor>v\<rfloor> + 1"
  proof -
    have "of_int q = (of_int m + 1) * (2::real) ^ k"
      using that unfolding r m_def [symmetric] using p by (simp add: field_simps)
    moreover have "of_int q - 1 / 2 \<le> v * 2 ^ k" unfolding q_def by (rule round_even_near)
    ultimately have "(of_int m + 1) * 2 ^ k - 1 / 2 \<le> v * 2 ^ k" by simp
    then have "((of_int m + 1) * 2 ^ k - 1 / 2) / 2 ^ k \<le> v"
      using p by (simp add: field_simps)
    moreover have "((of_int m + 1) * 2 ^ k - 1 / 2) / 2 ^ k
        = (of_int m + 1 :: real) - 1 / 2 ^ (k + 1)"
      by (simp add: diff_divide_distrib)
    ultimately show ?thesis unfolding m_def by simp
  qed
qed


lemma is_double_grid:
  assumes "is_double x"
  shows "x / ulp x = of_int (round_even (x / ulp x))"
proof (cases "x = 0")
  case True
  then show ?thesis by (simp add: round_even_def)
next
  case False
  have "ulp x * of_int (round_even (x / ulp x)) = x"
    using assms False by (simp add: is_double_def rnd_def)
  then show ?thesis using ulp_pos [of x] by (simp add: field_simps)
qed

lemma ilog2_times4:
  assumes "0 < x"
  shows "ilog2 (4 * x) = ilog2 x + 2"
proof (rule ilog2_unique)
  have b: "2 powi (ilog2 x) \<le> x" "x < 2 powi (ilog2 x + 1)"
    using ilog2_bounds [OF assms] by simp_all
  have p: "(2::real) powi (e + 2) = 4 * 2 powi e" for e
    by (simp add: power_int_add)
  show "0 < 4 * x" using assms by simp
  show "2 powi (ilog2 x + 2) \<le> 4 * x" unfolding p using b(1) by simp
  have "ilog2 x + 2 + 1 = (ilog2 x + 1) + 2" by simp
  then show "4 * x < 2 powi (ilog2 x + 2 + 1)" unfolding p [of "ilog2 x + 1", symmetric]
    using b(2) p [of "ilog2 x + 1"] by simp
qed

lemma ulp_times4:
  assumes "0 < x"
  shows "ulp (4 * x) = ulp x \<or> ulp (4 * x) = 2 * ulp x \<or> ulp (4 * x) = 4 * ulp x"
proof -
  define e where "e = ilog2 x"
  define t where "t = max e (- 1022) - 52"
  have u4: "ulp (4 * x) = 2 powi (max (e + 2) (- 1022) - 52)"
    by (simp add: ulp_def ilog2_times4 [OF assms] e_def)
  have u: "ulp x = 2 powi t" by (simp add: ulp_def e_def t_def)
  have p2: "(2::real) powi (t + 2) = 4 * 2 powi t" by (simp add: power_int_add)
  have p1: "(2::real) powi (t + 1) = 2 * 2 powi t" by (simp add: power_int_add)
  consider "- 1022 \<le> e" | "e = - 1023" | "e \<le> - 1024" by linarith
  then show ?thesis
  proof cases
    case 1
    then have "max (e + 2) (- 1022) - 52 = t + 2" unfolding t_def by simp
    then have "ulp (4 * x) = 4 * ulp x" unfolding u4 u p2 [symmetric] by (rule arg_cong)
    then show ?thesis by simp
  next
    case 2
    then have "max (e + 2) (- 1022) - 52 = t + 1" unfolding t_def by simp
    then have "ulp (4 * x) = 2 * ulp x" unfolding u4 u p1 [symmetric] by (rule arg_cong)
    then show ?thesis by simp
  next
    case 3
    then have "max (e + 2) (- 1022) - 52 = t" unfolding t_def by simp
    then have "ulp (4 * x) = ulp x" unfolding u4 u by (rule arg_cong)
    then show ?thesis by simp
  qed
qed

lemma rnd_times4:
  assumes "is_double x" "0 < x"
  shows "rnd (x * 4) = x * 4"
proof -
  define z where "z = round_even (x / ulp x)"
  have g: "x / ulp x = of_int z" unfolding z_def by (rule is_double_grid [OF assms(1)])
  have up: "0 < ulp x" by (rule ulp_pos)
  have x: "x = ulp x * of_int z" using g up by (simp add: field_simps)
  have "\<exists>w. 4 * x / ulp (4 * x) = of_int w"
    using ulp_times4 [OF assms(2)]
  proof (elim disjE)
    assume "ulp (4 * x) = ulp x"
    then have "4 * x / ulp (4 * x) = of_int (4 * z)" using g by simp
    then show ?thesis by blast
  next
    assume "ulp (4 * x) = 2 * ulp x"
    then have "4 * x / ulp (4 * x) = of_int (2 * z)" using g up by (simp add: field_simps)
    then show ?thesis by blast
  next
    assume "ulp (4 * x) = 4 * ulp x"
    then have "4 * x / ulp (4 * x) = of_int z" using g up by (simp add: field_simps)
    then show ?thesis by blast
  qed
  then obtain w where w: "4 * x / ulp (4 * x) = of_int w" by blast
  have "rnd (4 * x) = ulp (4 * x) * of_int w"
    using assms(2) unfolding rnd_def w round_even_of_int by simp
  also have "\<dots> = 4 * x" using w ulp_pos [of "4 * x"] by (simp add: field_simps)
  finally show ?thesis by (simp add: mult.commute)
qed

lemma double_below_63_875:
  assumes "is_double x" "32 \<le> x" "x < 63.875"
  shows "x \<le> 63.875 - 1 / 2 ^ 47"
proof -
  have x0: "0 < x" using assms(2) by simp
  have e: "ilog2 x = 5"
  proof (rule ilog2_unique [OF x0])
    show "2 powi 5 \<le> x" using assms(2) by simp
    show "x < 2 powi (5 + 1)" using assms(3) by simp
  qed
  have u: "ulp x = 1 / 2 ^ 47"
    unfolding ulp_def e by (simp add: power_int_minus_divide)
  define z where "z = round_even (x / ulp x)"
  have g0: "x / ulp x = of_int z" unfolding z_def by (rule is_double_grid [OF assms(1)])
  have g: "x * 2 ^ 47 = of_int z" using g0 unfolding u by simp
  have "of_int z < (63.875 * 2 ^ 47 :: real)" using assms(3) g [symmetric] by simp
  also have "(63.875 * 2 ^ 47 :: real) = of_int (511 * 2 ^ 44)" by simp
  finally have "z < 511 * 2 ^ 44" by (simp only: of_int_less_iff)
  then have "z \<le> 511 * 2 ^ 44 - 1" by simp
  then have "(of_int z :: real) \<le> of_int (511 * 2 ^ 44 - 1)" by (simp only: of_int_le_iff)
  then have "x * 2 ^ 47 \<le> 511 * 2 ^ 44 - 1" unfolding g by simp
  then show ?thesis by (simp add: field_simps)
qed


lemma snratio_zero: "snr \<le> 0 \<or> 255.5 \<le> snr \<Longrightarrow> snratio (Fin snr) = Some 0"
  by (auto simp: snratio_def cint_def)

lemma snratio_double:
  assumes d: "is_double snr" and p: "0 < snr" and b: "snr < 63.875"
  shows "snratio (Fin snr) = Some (word_of_int \<lfloor>rnd (snr * 4 + 1 / 2)\<rfloor>)"
    and "0 \<le> \<lfloor>rnd (snr * 4 + 1 / 2)\<rfloor>" and "\<lfloor>rnd (snr * 4 + 1 / 2)\<rfloor> \<le> 255"
    and "\<lfloor>rnd (snr * 4 + 1 / 2)\<rfloor> = round (snr * 4) \<or>
         \<lfloor>rnd (snr * 4 + 1 / 2)\<rfloor> = round (snr * 4) + 1 \<and>
           of_int (round (snr * 4)) + 1 - 1 / 2 ^ 46 \<le> snr * 4 + 1 / 2"
proof -
  define v where "v = snr * 4 + 1 / 2"
  define m where "m = \<lfloor>v\<rfloor>"
  define n where "n = \<lfloor>rnd v\<rfloor>"
  have v: "1 / 2 < v" "v < 256" using p b by (simp_all add: v_def)
  have v0: "0 < v" using v(1) by simp
  have mr: "m = round (snr * 4)" by (simp add: m_def v_def round_def)
  have m: "0 \<le> m" "m \<le> 255"
    using v unfolding m_def by (simp_all add: floor_less_iff)
  have "2 powi (- 1022) \<le> v" using powi_min_le_half v(1) by linarith
  moreover have "v < 2 ^ 8" using v(2) by simp
  ultimately obtain k where k: "53 - 8 \<le> k" "ulp v = 1 / 2 ^ k"
    using ulp_normal [of v 8] by auto
  note s = rnd_sandwich [OF v0 k(2), folded m_def]
  have k46: "(1 / 2 ^ (k + 1) :: real) \<le> 1 / 2 ^ 46"
  proof -
    have "(2::real) ^ 46 \<le> 2 ^ (k + 1)" using k(1) by (intro power_increasing) simp_all
    then show ?thesis by (simp add: field_simps)
  qed
  have cases: "n = m \<or> n = m + 1 \<and> of_int m + 1 - 1 / 2 ^ 46 \<le> v"
  proof (cases "rnd v = of_int m + 1")
    case True
    then have "n = m + 1" unfolding n_def by simp
    moreover have "of_int m + 1 - 1 / 2 ^ (k + 1) \<le> v" by (rule s(3) [OF True])
    ultimately show ?thesis using k46 by linarith
  next
    case False
    then have "rnd v < of_int m + 1" using s(2) by simp
    then have "n = m" unfolding n_def using s(1) by linarith
    then show ?thesis by simp
  qed
  have n0: "0 \<le> n" using cases m(1) by auto
  have n255: "n \<le> 255"
  proof (rule ccontr)
    assume "\<not> n \<le> 255"
    then have up: "n = m + 1" "of_int m + 1 - 1 / 2 ^ 46 \<le> v" "m = 255"
      using cases m(2) by auto
    then have "256 - 1 / 2 ^ 46 \<le> snr * 4 + 1 / 2" unfolding v_def by simp
    then have lo: "63.875 - 1 / 2 ^ 48 \<le> snr" by simp
    then have "32 \<le> snr" by simp
    then have "snr \<le> 63.875 - 1 / 2 ^ 47" by (rule double_below_63_875 [OF d _ b])
    then show False using lo by simp
  qed
  have r4: "rnd (snr * 4) = snr * 4" by (rule rnd_times4 [OF d p])
  have rv0: "0 \<le> rnd v" using s(1) m(1) by linarith
  have "snratio (Fin snr) =
      (if cint (rnd v) < 256 then Some (word_of_int (cint (rnd v))) else None)"
    using p b unfolding snratio_def v_def by (simp add: r4 Let_def)
  then have "snratio (Fin snr) = Some (word_of_int n)"
    using n255 rv0 unfolding n_def by (simp add: cint_def)
  then show "snratio (Fin snr) = Some (word_of_int \<lfloor>rnd (snr * 4 + 1 / 2)\<rfloor>)"
    unfolding n_def v_def .
  show "0 \<le> \<lfloor>rnd (snr * 4 + 1 / 2)\<rfloor>" using n0 unfolding n_def v_def .
  show "\<lfloor>rnd (snr * 4 + 1 / 2)\<rfloor> \<le> 255" using n255 unfolding n_def v_def .
  show "\<lfloor>rnd (snr * 4 + 1 / 2)\<rfloor> = round (snr * 4) \<or>
         \<lfloor>rnd (snr * 4 + 1 / 2)\<rfloor> = round (snr * 4) + 1 \<and>
           of_int (round (snr * 4)) + 1 - 1 / 2 ^ 46 \<le> snr * 4 + 1 / 2"
    using cases unfolding n_def mr v_def .
qed

lemma snratio_exact:
  assumes "is_double snr" "0 < snr" "snr < 63.875" "is_double (snr * 4 + 1 / 2)"
  shows "snratio (Fin snr) = Some (word_of_int (round (snr * 4)))"
proof -
  have "rnd (snr * 4 + 1 / 2) = snr * 4 + 1 / 2" using assms(4) by (simp add: is_double_def)
  then have "\<lfloor>rnd (snr * 4 + 1 / 2)\<rfloor> = round (snr * 4)" by (simp add: round_def)
  then show ?thesis using snratio_double(1) [OF assms(1-3)] by simp
qed

lemma is_double_dyadic:
  assumes "2 powi (- 1022) \<le> y" "y < 2 ^ j" "j \<le> 52" "y * 2 ^ (53 - j) = of_int z"
  shows "is_double y"
proof -
  obtain k where k: "53 - j \<le> k" "ulp y = 1 / 2 ^ k"
    using ulp_normal [OF assms(1-3)] by blast
  have "y * 2 ^ k = y * 2 ^ (53 - j) * 2 ^ (k - (53 - j))"
    using k(1) by (simp add: power_add [symmetric])
  also have "\<dots> = of_int (z * 2 ^ (k - (53 - j)))" unfolding assms(4) by simp
  finally have "rnd y = y" by (rule rnd_exact [OF k(2)])
  then show ?thesis by (simp add: is_double_def)
qed

lemma snratio_quarters:
  assumes "0 \<le> j" "j \<le> 255"
  shows "snratio (Fin (of_int j / 4)) = Some (word_of_int j)"
proof (cases "j = 0")
  case True
  then show ?thesis by (simp add: snratio_zero)
next
  case False
  then have j1: "1 \<le> j" using assms(1) by simp
  define x :: real where "x = of_int j / 4"
  have x: "1 / 4 \<le> x" "x < 64" "x < 63.875" "0 < x"
    using j1 assms(2) unfolding x_def by simp_all
  have q: "(2::real) powi (- 1022) \<le> 1 / 4"
  proof -
    have "(2::real) powi (- 1022) \<le> 2 powi (- 2)" by (intro power_int_increasing) simp_all
    then show ?thesis by (simp add: power_int_minus_divide)
  qed
  have dx: "is_double x"
  proof (rule is_double_dyadic [where j = 6 and z = "j * 2 ^ 45"])
    show "2 powi (- 1022) \<le> x" using q x(1) by linarith
    show "x < 2 ^ 6" using x(2) by simp
    show "x * 2 ^ (53 - 6) = of_int (j * 2 ^ 45)" unfolding x_def by simp
  qed simp
  have dv: "is_double (x * 4 + 1 / 2)"
  proof (rule is_double_dyadic [where j = 8 and z = "j * 2 ^ 45 + 2 ^ 44"])
    show "2 powi (- 1022) \<le> x * 4 + 1 / 2" using powi_min_le_half x(4) by linarith
    show "x * 4 + 1 / 2 < 2 ^ 8" using x(3) by simp
    show "(x * 4 + 1 / 2) * 2 ^ (53 - 8) = of_int (j * 2 ^ 45 + 2 ^ 44)"
      unfolding x_def by (simp add: algebra_simps)
  qed simp
  have "x * 4 = of_int j" unfolding x_def by simp
  then have "round (x * 4) = j" by (simp only: round_of_int)
  then show ?thesis using snratio_exact [OF dx x(4) x(3) dv] unfolding x_def by simp
qed

lemma snratio_gap:
  assumes "is_double snr" "63.875 \<le> snr" "snr < 255.5"
  shows "snratio (Fin snr) = None"
proof -
  define v where "v = snr * 4 + 1 / 2"
  have p: "0 < snr" using assms(2) by simp
  have v: "256 \<le> v" "v < 2 ^ 10" using assms(2,3) by (simp_all add: v_def)
  have v0: "0 < v" using v(1) by simp
  have "2 powi (- 1022) \<le> v" using powi_min_le_half v(1) by linarith
  then obtain k where k: "ulp v = 1 / 2 ^ k"
    using ulp_normal [of v 10] v(2) by auto
  have "256 \<le> \<lfloor>v\<rfloor>" using v(1) by (simp add: le_floor_iff)
  then have "(256::real) \<le> of_int \<lfloor>v\<rfloor>" by linarith
  then have "256 \<le> rnd v" using rnd_sandwich(1) [OF v0 k] by linarith
  then have f: "256 \<le> \<lfloor>rnd v\<rfloor>" "0 \<le> rnd v" by (simp_all add: le_floor_iff)
  have r4: "rnd (snr * 4) = snr * 4" by (rule rnd_times4 [OF assms(1) p])
  have "snratio (Fin snr) =
      (if cint (rnd v) < 256 then Some (word_of_int (cint (rnd v))) else None)"
    using p assms(3) unfolding snratio_def v_def by (simp add: r4 Let_def)
  then show ?thesis using f by (simp add: cint_def)
qed

lemma snratio_boundary_example:
  "is_double (1 / 8 - 1 / 2 ^ 56)"
  "round ((1 / 8 - 1 / 2 ^ 56) * 4 :: real) = 0"
  "snratio (Fin (1 / 8 - 1 / 2 ^ 56)) = Some 1"
  by code_simp+


text \<open>
  Claim C9, as the code has it.  The guard of \<open>snratio\<close> compares \<open>snr\<close> itself with 255.5
  and yields 0 for an input outside it; there is no clip to 255.  For \<open>snr \<le> 0\<close>, for
  \<open>255.5 \<le> snr\<close> and for the infinities the result is 0.  For a double \<open>0 < snr < 63.875\<close>
  the product \<open>snr * 4\<close> is exact and the result is the integer part of the double sum
  \<open>rnd (snr * 4 + 1 / 2)\<close>, which lies within 0..255.  It is \<open>snr * 4\<close> rounded to the nearest
  integer (halves upwards), or that integer plus one: the latter only when
  \<open>snr * 4 + 1 / 2\<close> lies at most \<open>1 / 2 ^ 46\<close> below it, where the sum rounds up to the integer
  (for \<open>snr = 1 / 8 - 1 / 2 ^ 56\<close> the result is 1, \<open>snratio_boundary_example\<close>).  When the sum
  is itself a double the result is the rounded value.  This is so for every value that the
  decoders pass, the multiples \<open>j / 4\<close> with \<open>0 \<le> j \<le> 255\<close>: the result is \<open>j\<close>.  Between 63.875
  and 255.5 the sum is 256 or more and its conversion to \<^verbatim>\<open>unsigned char\<close> is not defined
  (\<open>snratio_gap\<close>), and neither is that of a NaN; the theorem does not speak of these inputs.
\<close>

theorem snratio_quantizer:
  "snratio MInf = Some 0 \<and> snratio PInf = Some 0 \<and>
   (snr \<le> 0 \<or> 255.5 \<le> snr \<longrightarrow> snratio (Fin snr) = Some 0) \<and>
   (is_double snr \<and> 0 < snr \<and> snr < 63.875 \<longrightarrow>
      snratio (Fin snr) = Some (word_of_int \<lfloor>rnd (snr * 4 + 1 / 2)\<rfloor>) \<and>
      0 \<le> \<lfloor>rnd (snr * 4 + 1 / 2)\<rfloor> \<and> \<lfloor>rnd (snr * 4 + 1 / 2)\<rfloor> \<le> 255 \<and>
      (\<lfloor>rnd (snr * 4 + 1 / 2)\<rfloor> = round (snr * 4) \<or>
       \<lfloor>rnd (snr * 4 + 1 / 2)\<rfloor> = round (snr * 4) + 1 \<and>
         of_int (round (snr * 4)) + 1 - 1 / 2 ^ 46 \<le> snr * 4 + 1 / 2) \<and>
      (is_double (snr * 4 + 1 / 2) \<longrightarrow>
         snratio (Fin snr) = Some (word_of_int (round (snr * 4))))) \<and>
   (0 \<le> j \<and> j \<le> 255 \<longrightarrow> snratio (Fin (of_int j / 4)) = Some (word_of_int j))"
proof (intro conjI impI)
  show "snratio MInf = Some 0" "snratio PInf = Some 0" by (simp_all add: snratio_def)
  show "snratio (Fin snr) = Some 0" if "snr \<le> 0 \<or> 255.5 \<le> snr"
    by (rule snratio_zero [OF that])
  show "snratio (Fin (of_int j / 4)) = Some (word_of_int j)" if "0 \<le> j \<and> j \<le> 255"
    using that by (intro snratio_quarters) simp_all
next
  assume a: "is_double snr \<and> 0 < snr \<and> snr < 63.875"
  then have d: "is_double snr" and p: "0 < snr" and b: "snr < 63.875" by simp_all
  show "snratio (Fin snr) = Some (word_of_int \<lfloor>rnd (snr * 4 + 1 / 2)\<rfloor>)"
    by (rule snratio_double(1) [OF d p b])
  show "0 \<le> \<lfloor>rnd (snr * 4 + 1 / 2)\<rfloor>" by (rule snratio_double(2) [OF d p b])
  show "\<lfloor>rnd (snr * 4 + 1 / 2)\<rfloor> \<le> 255" by (rule snratio_double(3) [OF d p b])
  show "\<lfloor>rnd (snr * 4 + 1 / 2)\<rfloor> = round (snr * 4) \<or>
       \<lfloor>rnd (snr * 4 + 1 / 2)\<rfloor> = round (snr * 4) + 1 \<and>
         of_int (round (snr * 4)) + 1 - 1 / 2 ^ 46 \<le> snr * 4 + 1 / 2"
    by (rule snratio_double(4) [OF d p b])
  show "snratio (Fin snr) = Some (word_of_int (round (snr * 4)))"
    if "is_double (snr * 4 + 1 / 2)"
    by (rule snratio_exact [OF d p b that])
qed

theorem snratio_quantizer_witness:
  "(- 1 :: real) \<le> 0 \<and> snratio (Fin (- 1)) = Some 0 \<and>
   (255.5 :: real) \<le> 300 \<and> snratio (Fin 300) = Some 0 \<and>
   is_double (165 / 16) \<and> (0 :: real) < 165 / 16 \<and> (165 / 16 :: real) < 63.875 \<and>
   is_double (165 / 16 * 4 + 1 / 2) \<and> round (165 / 16 * 4 :: real) = 41 \<and>
   snratio (Fin (165 / 16)) = Some 41 \<and>
   is_double (1 / 8 - 1 / 2 ^ 56) \<and> (0 :: real) < 1 / 8 - 1 / 2 ^ 56 \<and>
   (1 / 8 - 1 / 2 ^ 56 :: real) < 63.875 \<and>
   round ((1 / 8 - 1 / 2 ^ 56) * 4 :: real) = 0 \<and>
   \<lfloor>rnd ((1 / 8 - 1 / 2 ^ 56) * 4 + 1 / 2)\<rfloor> = 1 \<and>
   snratio (Fin (1 / 8 - 1 / 2 ^ 56)) = Some 1 \<and>
   (0 :: int) \<le> 165 \<and> (165 :: int) \<le> 255 \<and> snratio (Fin (165 / 4)) = Some 165"
proof -
  have d1: "is_double (165 / 16)" "is_double (165 / 16 * 4 + 1 / 2)"
    "round (165 / 16 * 4 :: real) = 41"
    by code_simp+
  have d2: "is_double (1 / 8 - 1 / 2 ^ 56)" "round ((1 / 8 - 1 / 2 ^ 56) * 4 :: real) = 0"
    "\<lfloor>rnd ((1 / 8 - 1 / 2 ^ 56) * 4 + 1 / 2)\<rfloor> = 1"
    by code_simp+
  have c: "(0 :: real) < 165 / 16" "(165 / 16 :: real) < 63.875"
    "(0 :: real) < 1 / 8 - 1 / 2 ^ 56" "(1 / 8 - 1 / 2 ^ 56 :: real) < 63.875"
    by simp_all
  have w1: "snratio (Fin (- 1)) = Some 0"
    using snratio_quantizer [where snr = "- 1" and j = 0] by simp
  have w2: "snratio (Fin 300) = Some 0"
    using snratio_quantizer [where snr = 300 and j = 0] by simp
  have w3: "snratio (Fin (165 / 16)) = Some (word_of_int (round (165 / 16 * 4 :: real)))"
    using snratio_quantizer [where snr = "165 / 16" and j = 0] d1(1,2) c(1,2) by blast
  have w4: "snratio (Fin (1 / 8 - 1 / 2 ^ 56))
      = Some (word_of_int \<lfloor>rnd ((1 / 8 - 1 / 2 ^ 56) * 4 + 1 / 2)\<rfloor>)"
    using snratio_quantizer [where snr = "1 / 8 - 1 / 2 ^ 56" and j = 0] d2(1) c(3,4) by blast
  have w5: "snratio (Fin (of_int 165 / 4)) = Some (word_of_int 165)"
    using snratio_quantizer [where snr = 0 and j = 165] by simp
  have w3': "snratio (Fin (165 / 16)) = Some 41" unfolding w3 d1(3) by simp
  have w4': "snratio (Fin (1 / 8 - 1 / 2 ^ 56)) = Some 1" unfolding w4 d2(3) by simp
  have w5': "snratio (Fin (165 / 4)) = Some 165" using w5 by simp
  show ?thesis
    by (intro conjI d1 d2 c w1 w2 w3' w4' w5') simp_all
qed

text \<open>
  The claim C9 as the specification states it promises 255 at and above 63.875.  At 255.5
  and above the code yields 0, and at 64 the conversion is not defined.
\<close>

theorem snratio_upper_counterexample:
  "snratio (Fin 255.5) = Some 0 \<and> snratio (Fin 1000) = Some 0 \<and> snratio (Fin 64) = None"
  by code_simp

section \<open>The GPS ephemeris decoder\<close>






lemma strstr_empty_ephall: "strstr [] ''-EPHALL'' = None" by simp


section \<open>The SSR code-bias decoder\<close>

lemma codes_lengths:
  "length (codes_gps C) = 17" "length (codes_glo C) = 4" "length (codes_gal C) = 19"
  "length (codes_qzs C) = 13" "length (codes_bds C) = 9" "length (codes_sbs C) = 4"
  by (simp_all add: codes_gps_def codes_glo_def codes_gal_def codes_qzs_def codes_bds_def
        codes_sbs_def)

lemma ssr3_bias_loop_past_table:
  assumes "int i + 19 \<le> len * 8" "uint (getbitu buff i 5) = ncode" "length codes = nat ncode"
  shows "ssr3_bias_loop K flt buff len codes ncode (Suc n) i cbias = None"
  using assms by (simp add: Let_def)

lemma ssr3_bias_loop_skip:
  assumes "int i + 19 \<le> len * 8" "ncode < uint (getbitu buff i 5)"
  shows "ssr3_bias_loop K flt buff len codes ncode (Suc n) i cbias =
         ssr3_bias_loop K flt buff len codes ncode n (i + 19) cbias"
  using assms by (simp add: Let_def)

lemma adjweek_buff: "rtcm_buff (adjweek now r tow) = rtcm_buff r"
  using adjweek_frame [of now r tow] by auto

lemma adjweek_len: "rtcm_len (adjweek now r tow) = rtcm_len r"
  using adjweek_frame [of now r tow] by auto

lemma decode_ssr2_head_gps:
  assumes "91 \<le> rtcm_len rtcm * 8"
  shows "decode_ssr2_head now rtcm SYS_GPS =
     (uint (getbitu (rtcm_buff rtcm) 85 6), uint (getbitu (rtcm_buff rtcm) 60 1),
      uint (getbitu (rtcm_buff rtcm) 61 4), ssrudint ! nat (uint (getbitu (rtcm_buff rtcm) 56 4)),
      91, adjweek now rtcm (real_of_int (uint (getbitu (rtcm_buff rtcm) 36 20))))"
  using assms by (simp add: decode_ssr2_head_def Let_def adjweek_buff)

lemma frame_ssr3_mode17_fields:
  "uint (getbitu (buffer_of frame_ssr3_mode17) 85 6) = 1"
  "uint (getbitu (buffer_of frame_ssr3_mode17) 91 6) = 5"
  "uint (getbitu (buffer_of frame_ssr3_mode17) 97 5) = 1"
  "uint (getbitu (buffer_of frame_ssr3_mode17) 102 5) = 17"
  by code_simp+

text \<open>
  Claim C7.  A bias entry whose tracking mode has no entry in the table of the
  constellation is to be skipped.  The code tests \<^verbatim>\<open>mode<=ncode\<close>, where \<open>ncode\<close> is the number
  of entries of the table, so that the mode 17 of a GPS message is not skipped:
  \<^verbatim>\<open>codes_gps[17]\<close> is read, one element beyond the 17 entries of the table, and the bias is
  written to the element of \<^verbatim>\<open>cbias\<close> that this value selects.  For the GPS message
  \<open>frame_ssr3_mode17\<close> (one satellite, one bias entry of tracking mode 17) the decoder reads
  outside the table, whatever the constants of \<^verbatim>\<open>rtklib.h\<close>, the clock and the conversion
  to \<^verbatim>\<open>float\<close> are.  Modes above \<open>ncode\<close> are skipped (\<open>ssr3_bias_loop_skip\<close>,
  \<open>decode_ssr3_mode18\<close>).
\<close>

theorem decode_ssr3_mode17_past_table:
  "decode_ssr3 K C flt now (framed rtcm0 frame_ssr3_mode17) SYS_GPS = None"
proof -
  let ?r = "framed rtcm0 frame_ssr3_mode17"
  let ?b = "buffer_of frame_ssr3_mode17"
  have b: "rtcm_buff ?r = ?b"
    by (rule framed_buff0) (simp add: rtcm0_def)
  have l: "rtcm_len ?r = 16" by (simp add: framed_def frame_ssr3_mode17_def)
  have h: "decode_ssr2_head now ?r SYS_GPS =
     (1, uint (getbitu ?b 60 1), uint (getbitu ?b 61 4), ssrudint ! nat (uint (getbitu ?b 56 4)),
      91, adjweek now ?r (real_of_int (uint (getbitu ?b 36 20))))"
    using decode_ssr2_head_gps [of ?r now] unfolding b l frame_ssr3_mode17_fields by simp
  have bl: "ssr3_bias_loop K flt ?b 16 (codes_gps C) 17 (Suc 0) 102 (\<lambda>_. 0) = None"
    by (rule ssr3_bias_loop_past_table) (simp_all add: frame_ssr3_mode17_fields codes_lengths)
  have nb: "unat (getbitu ?b 97 5) = Suc 0"
    using frame_ssr3_mode17_fields(3) by (simp add: unat_eq_nat_uint)
  have sl: "ssr3_sat_loop K flt SYS_GPS 6 0 (codes_gps C) 17 u io (Suc 0) 91 r = None"
    if "rtcm_buff r = ?b" "rtcm_len r = 16" for u io r
    using that by (simp add: Let_def frame_ssr3_mode17_fields nb bl del: ssr3_bias_loop.simps)
  show ?thesis
    unfolding decode_ssr3_def h
    by (simp add: sl adjweek_buff adjweek_len b l del: ssr3_sat_loop.simps)
qed


lemma frame_ssr3_mode18_fields:
  "uint (getbitu (buffer_of frame_ssr3_mode18) 60 1) = 0"
  "uint (getbitu (buffer_of frame_ssr3_mode18) 85 6) = 1"
  "uint (getbitu (buffer_of frame_ssr3_mode18) 91 6) = 5"
  "uint (getbitu (buffer_of frame_ssr3_mode18) 97 5) = 1"
  "uint (getbitu (buffer_of frame_ssr3_mode18) 102 5) = 18"
  by code_simp+

lemma satno_K0_gps5: "satno K0 SYS_GPS 5 = 5"
  by (simp add: satno_def K0_def)

lemma decode_ssr3_mode18:
  "\<exists>r. decode_ssr3 K0 C flt now (framed rtcm0 frame_ssr3_mode18) SYS_GPS = Some (10, r)
     \<and> ssr_cbias (rtcm_ssr r 4) = (\<lambda>k. if k < 48 then flt 0 else 0)"
proof -
  let ?r = "framed rtcm0 frame_ssr3_mode18"
  let ?b = "buffer_of frame_ssr3_mode18"
  define u where "u = ssrudint ! nat (uint (getbitu ?b 56 4))"
  define io where "io = uint (getbitu ?b 61 4)"
  define r1 where "r1 = adjweek now ?r (real_of_int (uint (getbitu ?b 36 20)))"
  have b: "rtcm_buff ?r = ?b"
    by (rule framed_buff0) (simp add: rtcm0_def)
  have l: "rtcm_len ?r = 16" by (simp add: framed_def frame_ssr3_mode18_def)
  have h: "decode_ssr2_head now ?r SYS_GPS = (1, 0, io, u, 91, r1)"
    using decode_ssr2_head_gps [of ?r now]
    unfolding b l frame_ssr3_mode18_fields u_def io_def r1_def by simp
  have b1: "rtcm_buff r1 = ?b" unfolding r1_def adjweek_buff b ..
  have l1: "rtcm_len r1 = 16" unfolding r1_def adjweek_len l ..
  have s1: "rtcm_ssr r1 = (\<lambda>_. ssr0)"
    unfolding r1_def
    using adjweek_frame [of now ?r "real_of_int (uint (getbitu ?b 36 20))"]
    by (auto simp: framed_def rtcm0_def)
  have bl: "ssr3_bias_loop K0 flt ?b 16 (codes_gps C) 17 (Suc 0) 102 (\<lambda>_. 0)
      = Some ((\<lambda>_. 0), 121)"
    by (simp add: frame_ssr3_mode18_fields Let_def)
  have nb: "unat (getbitu ?b 97 5) = Suc 0"
    using frame_ssr3_mode18_fields(4) by (simp add: unat_eq_nat_uint)
  define s' where "s' = ssr0\<lparr>ssr_t0 := (ssr_t0 ssr0)(4 := rtcm_time r1),
        ssr_udi := (ssr_udi ssr0)(4 := u), ssr_iod := (ssr_iod ssr0)(4 := io),
        ssr_cbias := (\<lambda>k. if int k < MAXCODE K0 then flt 0 else ssr_cbias ssr0 k),
        ssr_update := 1\<rparr>"
  have sl: "ssr3_sat_loop K0 flt SYS_GPS 6 0 (codes_gps C) 17 u io (Suc 0) 91 r1
      = Some (r1\<lparr>rtcm_ssr := (rtcm_ssr r1)(4 := s')\<rparr>)"
    unfolding s'_def
    by (simp add: Let_def frame_ssr3_mode18_fields nb bl b1 l1 s1
          satno_K0_gps5 del: ssr3_bias_loop.simps)
  have d: "decode_ssr3 K0 C flt now ?r SYS_GPS
      = Some (10, r1\<lparr>rtcm_ssr := (rtcm_ssr r1)(4 := s')\<rparr>)"
    unfolding decode_ssr3_def h
    by (simp add: sl del: ssr3_sat_loop.simps)
  have c: "ssr_cbias s' = (\<lambda>k. if k < 48 then flt 0 else 0)"
    by (auto simp: s'_def K0_def ssr0_def)
  show ?thesis unfolding d using c by simp
qed

section \<open>The signal index of the MSM decoder\<close>

lemma obs2code_loop_zero:
  "1 \<le> i \<Longrightarrow> fst (obs2code_loop i cs obs) = 0 \<Longrightarrow> snd (obs2code_loop i cs obs) = 0"
  by (induction cs arbitrary: i) (auto split: if_splits)

lemma msm_code_zero: "fst (msm_code sys s) = 0 \<Longrightarrow> snd (msm_code sys s) = 0"
proof -
  assume a: "fst (msm_code sys s) = 0"
  obtain c f where o: "obs2code (msm_sig sys s) = (c, f)" by (cases "obs2code (msm_sig sys s)")
  have "c = 0" using a o by (simp add: msm_code_def Let_def)
  then have "f = 0"
    using obs2code_loop_zero [of 1 "tl obscodes" "msm_sig sys s"] o
    by (simp add: obs2code_def)
  then show ?thesis using o by (simp add: msm_code_def Let_def)
qed

lemma sigindex_pri_inv:
  assumes "sigindex_pri K sys opt code freq i m (pri_h, index, ex) = Some (pri_h', index', ex')"
    and "\<forall>k<i. ex k = 0 \<and> code ! k \<noteq> 0 \<longrightarrow> 1 \<le> freq ! k \<and> index (nat (freq ! k - 1)) = int k + 1"
  shows "\<forall>k<i + m. ex' k = 0 \<and> code ! k \<noteq> 0 \<longrightarrow>
           1 \<le> freq ! k \<and> index' (nat (freq ! k - 1)) = int k + 1"
  using assms
proof (induction m arbitrary: i pri_h index ex)
  case 0
  then show ?case by simp
next
  case (Suc m)
  note run = Suc.prems(1) and inv = Suc.prems(2)
  have rng: "i < length code" "i < length freq"
    using run by (auto split: if_splits)
  show ?case
  proof (cases "code ! i = 0")
    case True
    then have r: "sigindex_pri K sys opt code freq (i + 1) m (pri_h, index, ex)
        = Some (pri_h', index', ex')"
      using run rng by simp
    have "\<forall>k<i + 1. ex k = 0 \<and> code ! k \<noteq> 0 \<longrightarrow>
           1 \<le> freq ! k \<and> index (nat (freq ! k - 1)) = int k + 1"
      using inv True by (auto simp: less_Suc_eq)
    from Suc.IH [OF r this] show ?thesis by simp
  next
    case c: False
    show ?thesis
    proof (cases "freq ! i > NFREQ K")
      case True
      then have r: "sigindex_pri K sys opt code freq (i + 1) m (pri_h, index, ex(i := 1))
          = Some (pri_h', index', ex')"
        using run rng c by simp
      have "\<forall>k<i + 1. (ex(i := 1)) k = 0 \<and> code ! k \<noteq> 0 \<longrightarrow>
             1 \<le> freq ! k \<and> index (nat (freq ! k - 1)) = int k + 1"
        using inv by (auto simp: less_Suc_eq)
      from Suc.IH [OF r this] show ?thesis by simp
    next
      case f: False
      obtain pri where p: "getcodepri K sys (code ! i) opt = Some pri"
        using run rng c f by (auto split: option.splits)
      have fr: "1 \<le> freq ! i" "freq ! i \<le> 8"
        using run rng c f p by (auto split: if_splits)
      define fi where "fi = nat (freq ! i - 1)"
      show ?thesis
      proof (cases "pri > pri_h fi")
        case True
        define ex1 where "ex1 = (if index fi \<noteq> 0 then ex(nat (index fi - 1) := 1) else ex)"
        have r: "sigindex_pri K sys opt code freq (i + 1) m
              (pri_h(fi := pri), index(fi := int i + 1), ex1) = Some (pri_h', index', ex')"
          using run rng c f p fr True unfolding fi_def ex1_def by (simp add: Let_def)
        have "\<forall>k<i + 1. ex1 k = 0 \<and> code ! k \<noteq> 0 \<longrightarrow>
               1 \<le> freq ! k \<and> (index(fi := int i + 1)) (nat (freq ! k - 1)) = int k + 1"
        proof (intro allI impI)
          fix k assume k: "k < i + 1" and e: "ex1 k = 0 \<and> code ! k \<noteq> 0"
          show "1 \<le> freq ! k \<and> (index(fi := int i + 1)) (nat (freq ! k - 1)) = int k + 1"
          proof (cases "k = i")
            case True
            then show ?thesis using fr by (simp add: fi_def)
          next
            case False
            then have ki: "k < i" using k by simp
            have e0: "ex k = 0" using e unfolding ex1_def by (auto split: if_splits)
            have old: "1 \<le> freq ! k" "index (nat (freq ! k - 1)) = int k + 1"
              using inv ki e0 e by auto
            have "nat (freq ! k - 1) \<noteq> fi"
            proof
              assume same: "nat (freq ! k - 1) = fi"
              then have "index fi = int k + 1" using old by simp
              then have "ex1 k = 1" unfolding ex1_def by simp
              then show False using e by simp
            qed
            then show ?thesis using old by simp
          qed
        qed
        from Suc.IH [OF r this] show ?thesis by simp
      next
        case False
        then have r: "sigindex_pri K sys opt code freq (i + 1) m (pri_h, index, ex(i := 1))
            = Some (pri_h', index', ex')"
          using run rng c f p fr unfolding fi_def by (simp add: Let_def)
        have "\<forall>k<i + 1. (ex(i := 1)) k = 0 \<and> code ! k \<noteq> 0 \<longrightarrow>
               1 \<le> freq ! k \<and> index (nat (freq ! k - 1)) = int k + 1"
          using inv by (auto simp: less_Suc_eq)
        from Suc.IH [OF r this] show ?thesis by simp
      qed
    qed
  qed
qed

lemma sigindex_ind_length: "length (sigindex_ind K freq ex i m nex) = m"
  by (induction m arbitrary: i nex) auto

lemma sigindex_ind_nth:
  "k < m \<Longrightarrow> 0 \<le> nex \<Longrightarrow>
   (ex (i + k) = 0 \<and> sigindex_ind K freq ex i m nex ! k = freq ! (i + k) - 1) \<or>
   (ex (i + k) \<noteq> 0 \<and> (NFREQ K \<le> sigindex_ind K freq ex i m nex ! k
        \<or> sigindex_ind K freq ex i m nex ! k = - 1))"
proof (induction m arbitrary: i k nex)
  case 0
  then show ?case by simp
next
  case (Suc m)
  show ?case
  proof (cases k)
    case 0
    then show ?thesis using Suc.prems by auto
  next
    case (Suc k')
    have k': "k' < m" using Suc Suc.prems by simp
    have a: "0 \<le> nex + 1" using Suc.prems by simp
    show ?thesis
      using Suc.IH [OF k' Suc.prems(2), of "i + 1"] Suc.IH [OF k' a, of "i + 1"] Suc
      by auto
  qed
qed

lemma msm_sigindex_main:
  assumes "msm_sigindex K sys sigs opt = Some ind"
  shows "length ind = length sigs"
    and "a < length sigs \<Longrightarrow> 0 \<le> ind ! a \<Longrightarrow> ind ! a < NFREQ K \<Longrightarrow>
         ind ! a = snd (msm_code sys (sigs ! a)) - 1"
    and "a < length sigs \<Longrightarrow> b < length sigs \<Longrightarrow> 0 \<le> ind ! a \<Longrightarrow> ind ! a < NFREQ K \<Longrightarrow>
         ind ! a = ind ! b \<Longrightarrow> a = b"
proof -
  define code where "code = map (fst \<circ> msm_code sys) sigs"
  define freq where "freq = map (snd \<circ> msm_code sys) sigs"
  define n where "n = length sigs"
  have s: "sigindex K sys code freq n opt = Some ind"
    using assms unfolding msm_sigindex_def code_def freq_def n_def by (simp split: if_splits)
  then obtain p x e where
    run: "sigindex_pri K sys opt code freq 0 n ((\<lambda>_. 0), (\<lambda>_. 0), (\<lambda>_. 0)) = Some (p, x, e)"
    and ind: "ind = sigindex_ind K freq e 0 n 0"
    unfolding sigindex_def by (auto split: option.splits)
  have inv: "\<forall>k<n. e k = 0 \<and> code ! k \<noteq> 0 \<longrightarrow> 1 \<le> freq ! k \<and> x (nat (freq ! k - 1)) = int k + 1"
    using sigindex_pri_inv [OF run] by simp
  show "length ind = length sigs" unfolding ind n_def [symmetric] by (rule sigindex_ind_length)
  have main: "e k = 0 \<and> ind ! k = freq ! k - 1 \<and> x (nat (freq ! k - 1)) = int k + 1"
    if "k < n" "0 \<le> ind ! k" "ind ! k < NFREQ K" for k
  proof -
    have d: "e k = 0 \<and> ind ! k = freq ! k - 1"
      using sigindex_ind_nth [OF that(1), of 0 e 0 K freq] that(2,3) unfolding ind by auto
    then have "freq ! k \<noteq> 0" using that(2) by auto
    then have "snd (msm_code sys (sigs ! k)) \<noteq> 0"
      using that(1) unfolding freq_def n_def by simp
    then have "fst (msm_code sys (sigs ! k)) \<noteq> 0" using msm_code_zero by blast
    then have "code ! k \<noteq> 0" using that(1) unfolding code_def n_def by simp
    then show ?thesis using inv d that(1) by simp
  qed
  show "ind ! a = snd (msm_code sys (sigs ! a)) - 1"
    if "a < length sigs" "0 \<le> ind ! a" "ind ! a < NFREQ K"
    using main [of a] that unfolding n_def freq_def by simp
  show "a = b"
    if "a < length sigs" "b < length sigs" "0 \<le> ind ! a" "ind ! a < NFREQ K" "ind ! a = ind ! b"
  proof -
    have ma: "ind ! a = freq ! a - 1" "x (nat (freq ! a - 1)) = int a + 1"
      using main [of a] that unfolding n_def by simp_all
    have mb: "ind ! b = freq ! b - 1" "x (nat (freq ! b - 1)) = int b + 1"
      using main [of b] that unfolding n_def by simp_all
    have fe: "freq ! a = freq ! b" using ma(1) mb(1) that(5) by linarith
    have "int a + 1 = x (nat (freq ! a - 1))" by (rule ma(2) [symmetric])
    also have "\<dots> = x (nat (freq ! b - 1))" unfolding fe ..
    also have "\<dots> = int b + 1" by (rule mb(2))
    finally show ?thesis by simp
  qed
qed

lemma msm_code_gps_1C: "msm_sig SYS_GPS 2 = ''1C''" "msm_code SYS_GPS 2 = (1, 1)"
  by (simp_all add: msm_code_def msm_sig_def msm_sig_gps_def obs2code_def obscodes_def
        obsfreqs_def)

lemma msm_code_gps_1W: "msm_sig SYS_GPS 4 = ''1W''" "msm_code SYS_GPS 4 = (3, 1)"
  by (simp_all add: msm_code_def msm_sig_def msm_sig_gps_def obs2code_def obscodes_def
        obsfreqs_def)

lemma getcodepri_gps_1C: "1 \<le> MAXCODE K \<Longrightarrow> getcodepri K SYS_GPS 1 [] = Some 14"
  by (simp add: getcodepri_def code2obs_def obscodes_def obsfreqs_def codepris_def cchar_def)

lemma getcodepri_gps_1W: "3 \<le> MAXCODE K \<Longrightarrow> getcodepri K SYS_GPS 3 [] = Some 11"
  by (simp add: getcodepri_def code2obs_def obscodes_def obsfreqs_def codepris_def cchar_def)

lemma msm_sigindex_gps_1C_1W:
  assumes "1 \<le> NFREQ K" "3 \<le> MAXCODE K"
  shows "msm_sigindex K SYS_GPS [2, 4] [] = Some [0, if 1 \<le> NEXOBS K then NFREQ K else - 1]"
proof -
  have p1: "getcodepri K SYS_GPS 1 [] = Some 14" using assms by (simp add: getcodepri_gps_1C)
  have p3: "getcodepri K SYS_GPS 3 [] = Some 11" using assms by (simp add: getcodepri_gps_1W)
  show ?thesis
    using assms
    by (simp add: msm_sigindex_def sigindex_def msm_code_gps_1C msm_code_gps_1W p1 p3 Let_def
          numeral_2_eq_2)
qed


text \<open>
  Claim C6.  For a GPS message with the two signals 1C (signal id 2) and 1W (signal id 4),
  both of band L1, and an empty options string, \<^verbatim>\<open>getcodepri\<close> returns 14 for 1C and 11 for
  1W, and the signal index gives 1C the main slot 0.  The signal 1W gets the extended slot
  \<open>NFREQ\<close> when \<^verbatim>\<open>rtklib.h\<close> provides an extended slot (\<open>1 \<le> NEXOBS\<close>); with \<open>NEXOBS = 0\<close> there
  is no space for it and its index is \<open>- 1\<close>.  (The constants are assumed to provide the band
  L1 and the two codes: \<open>1 \<le> NFREQ\<close> and \<open>3 \<le> MAXCODE\<close>.)  In general, whenever the signal
  index is computed without a read outside the tables, a signal whose index lies in the main
  slots \<open>0 \<le> ind < NFREQ\<close> is in the slot of its band (band minus one), and no other signal of
  the message has the same index: at most one signal of each band is in a main slot.
\<close>

theorem sigindex_main_slot_per_band:
  "(1 \<le> NFREQ K \<and> 3 \<le> MAXCODE K \<longrightarrow>
      msm_sig SYS_GPS 2 = ''1C'' \<and> msm_sig SYS_GPS 4 = ''1W'' \<and>
      getcodepri K SYS_GPS (fst (msm_code SYS_GPS 2)) [] = Some 14 \<and>
      getcodepri K SYS_GPS (fst (msm_code SYS_GPS 4)) [] = Some 11 \<and>
      msm_sigindex K SYS_GPS [2, 4] [] = Some [0, if 1 \<le> NEXOBS K then NFREQ K else - 1]) \<and>
   (msm_sigindex K sys sigs opt = Some ind \<longrightarrow>
      length ind = length sigs \<and>
      (\<forall>a<length sigs. 0 \<le> ind ! a \<and> ind ! a < NFREQ K \<longrightarrow>
         ind ! a = snd (msm_code sys (sigs ! a)) - 1 \<and>
         (\<forall>b<length sigs. ind ! b = ind ! a \<longrightarrow> b = a)))"
proof (intro conjI impI)
  assume k: "1 \<le> NFREQ K \<and> 3 \<le> MAXCODE K"
  show "msm_sig SYS_GPS 2 = ''1C''" by (rule msm_code_gps_1C(1))
  show "msm_sig SYS_GPS 4 = ''1W''" by (rule msm_code_gps_1W(1))
  show "getcodepri K SYS_GPS (fst (msm_code SYS_GPS 2)) [] = Some 14"
    unfolding msm_code_gps_1C(2) using k by (simp add: getcodepri_gps_1C)
  show "getcodepri K SYS_GPS (fst (msm_code SYS_GPS 4)) [] = Some 11"
    unfolding msm_code_gps_1W(2) using k by (simp add: getcodepri_gps_1W)
  show "msm_sigindex K SYS_GPS [2, 4] [] = Some [0, if 1 \<le> NEXOBS K then NFREQ K else - 1]"
    using k by (intro msm_sigindex_gps_1C_1W) simp_all
next
  assume s: "msm_sigindex K sys sigs opt = Some ind"
  show "length ind = length sigs" by (rule msm_sigindex_main(1) [OF s])
  show "\<forall>a<length sigs. 0 \<le> ind ! a \<and> ind ! a < NFREQ K \<longrightarrow>
         ind ! a = snd (msm_code sys (sigs ! a)) - 1 \<and>
         (\<forall>b<length sigs. ind ! b = ind ! a \<longrightarrow> b = a)"
  proof (intro allI impI conjI)
    fix a assume a: "a < length sigs" and r: "0 \<le> ind ! a \<and> ind ! a < NFREQ K"
    show "ind ! a = snd (msm_code sys (sigs ! a)) - 1"
      using msm_sigindex_main(2) [OF s a] r by simp
    fix b assume b: "b < length sigs" and e: "ind ! b = ind ! a"
    have "a = b" using msm_sigindex_main(3) [OF s a b] r e [symmetric] by blast
    then show "b = a" ..
  qed
qed

lemma msm_sigindex_gps_four:
  "msm_sigindex (K0\<lparr>NEXOBS := 1\<rparr>) SYS_GPS [2, 4, 8, 10] [] = Some [0, 3, - 1, 1]"
  by code_simp

theorem sigindex_main_slot_per_band_witness:
  "1 \<le> NFREQ (K0\<lparr>NEXOBS := 1\<rparr>) \<and> 3 \<le> MAXCODE (K0\<lparr>NEXOBS := 1\<rparr>) \<and>
   getcodepri (K0\<lparr>NEXOBS := 1\<rparr>) SYS_GPS (fst (msm_code SYS_GPS 2)) [] = Some 14 \<and>
   getcodepri (K0\<lparr>NEXOBS := 1\<rparr>) SYS_GPS (fst (msm_code SYS_GPS 4)) [] = Some 11 \<and>
   msm_sigindex (K0\<lparr>NEXOBS := 1\<rparr>) SYS_GPS [2, 4] [] = Some [0, 3] \<and>
   msm_sigindex (K0\<lparr>NEXOBS := 1\<rparr>) SYS_GPS [2, 4, 8, 10] [] = Some [0, 3, - 1, 1] \<and>
   [0, 3, - 1, 1 :: int] ! 0 = snd (msm_code SYS_GPS ([2, 4, 8, 10] ! 0)) - 1 \<and>
   [0, 3, - 1, 1 :: int] ! 3 = snd (msm_code SYS_GPS ([2, 4, 8, 10] ! 3)) - 1"
proof -
  let ?K = "K0\<lparr>NEXOBS := 1\<rparr>"
  have k: "1 \<le> NFREQ ?K \<and> 3 \<le> MAXCODE ?K" by (simp add: K0_def)
  have x: "(if 1 \<le> NEXOBS ?K then NFREQ ?K else - 1) = 3" by (simp add: K0_def)
  note T = sigindex_main_slot_per_band [where K = ?K and sys = SYS_GPS
      and sigs = "[2, 4, 8, 10]" and opt = "[]" and ind = "[0, 3, - 1, 1]"]
  have c1: "getcodepri ?K SYS_GPS (fst (msm_code SYS_GPS 2)) [] = Some 14"
    using T k by blast
  have c2: "getcodepri ?K SYS_GPS (fst (msm_code SYS_GPS 4)) [] = Some 11"
    using T k by blast
  have c3: "msm_sigindex ?K SYS_GPS [2, 4] [] = Some [0, 3]"
    using T k unfolding x by blast
  have c4: "\<forall>a<length [2, 4, 8, 10 :: int].
      0 \<le> [0, 3, - 1, 1 :: int] ! a \<and> [0, 3, - 1, 1] ! a < NFREQ ?K \<longrightarrow>
      [0, 3, - 1, 1] ! a = snd (msm_code SYS_GPS ([2, 4, 8, 10] ! a)) - 1 \<and>
      (\<forall>b<length [2, 4, 8, 10 :: int]. [0, 3, - 1, 1 :: int] ! b = [0, 3, - 1, 1] ! a \<longrightarrow> b = a)"
    using T msm_sigindex_gps_four by blast
  have n: "NFREQ ?K = 3" by (simp add: K0_def)
  have c5: "[0, 3, - 1, 1 :: int] ! 0 = snd (msm_code SYS_GPS ([2, 4, 8, 10] ! 0)) - 1"
    using c4 [rule_format, of 0] unfolding n by simp
  have c6: "[0, 3, - 1, 1 :: int] ! 3 = snd (msm_code SYS_GPS ([2, 4, 8, 10] ! 3)) - 1"
    using c4 [rule_format, of 3] unfolding n by simp
  show ?thesis
    using k c1 c2 c3 c5 c6 msm_sigindex_gps_four by (intro conjI) blast+
qed

theorem sigindex_no_extended_slot_counterexample:
  "msm_sigindex K0 SYS_GPS [2, 4] [] = Some [0, - 1] \<and> \<not> NFREQ K0 \<le> [0, - 1] ! 1"
proof -
  have "msm_sigindex K0 SYS_GPS [2, 4] [] = Some [0, if 1 \<le> NEXOBS K0 then NFREQ K0 else - 1]"
    by (rule msm_sigindex_gps_1C_1W) (simp_all add: K0_def)
  then show ?thesis by (simp add: K0_def)
qed

end
